theory Spec2Isabelle
  imports Complex_Main "HOL-Library.Word"
begin

unbundle bit_operations_syntax

section \<open>Python values and primitives used by lnbase.py\<close>

text \<open>
  Python \<open>bytes\<close> are lists of 8-bit words, Python \<open>str\<close> are HOL strings, Python
  integers are unbounded \<open>int\<close>. Every exception the modelled code can raise is a
  constructor of \<open>error\<close>; a function that can raise returns \<open>error + 'a\<close>.
\<close>

type_synonym byte = "8 word"
type_synonym bytes = "byte list"

datatype error =
    KeyError
  | ValueError
  | OverflowError
  | AssertionError
  | IndexError
  | AttributeError
  | UnboundLocalError
  | InvalidStateError
  | PyException string

datatype pyval = PInt int | PBytes bytes

text \<open>
  \<open>int(x)\<close> on a \<open>str\<close> or \<open>bytes\<close> object parses a decimal integer literal
  (CPython's \<open>PyLong_FromString\<close> with base 10): optional surrounding whitespace, an
  optional sign, then decimal digits in which single underscores may separate digits.
  Anything else raises \<open>ValueError\<close>, modelled as \<open>None\<close>. The functions work on
  character codes; the two entry points differ in the whitespace set only: for \<open>bytes\<close>
  it is tab, the line breaks and the blank, and for a \<open>str\<close> (a string of 8-bit
  characters here) the characters U+0085 and U+00A0 are turned into blanks first.
\<close>

definition is_digit :: "nat \<Rightarrow> bool" where
  "is_digit c = (48 \<le> c \<and> c \<le> 57)"

definition bytes_space :: "nat \<Rightarrow> bool" where
  "bytes_space c = (c = 9 \<or> c = 10 \<or> c = 11 \<or> c = 12 \<or> c = 13 \<or> c = 32)"

definition str_space :: "nat \<Rightarrow> bool" where
  "str_space c = (bytes_space c \<or> c = 133 \<or> c = 160)"

fun scan_digits :: "nat list \<Rightarrow> int \<Rightarrow> (int \<times> nat list) option" where
  "scan_digits [] acc = Some (acc, [])"
| "scan_digits (c # cs) acc =
     (if is_digit c then scan_digits cs (acc * 10 + (int c - 48))
      else if c = 95 then
        (case cs of
           [] \<Rightarrow> None
         | d # ds \<Rightarrow> if is_digit d then scan_digits ds (acc * 10 + (int d - 48)) else None)
      else Some (acc, c # cs))"

definition parse_digits :: "nat list \<Rightarrow> (int \<times> nat list) option" where
  "parse_digits cs =
     (case cs of
        [] \<Rightarrow> None
      | c # rest \<Rightarrow> if is_digit c then scan_digits rest (int c - 48) else None)"

definition py_int_literal :: "(nat \<Rightarrow> bool) \<Rightarrow> nat list \<Rightarrow> int option" where
  "py_int_literal sp cs =
     (let cs1 = dropWhile sp cs;
          (sgn, cs2) = (case cs1 of
                          [] \<Rightarrow> (1, cs1)
                        | c # rest \<Rightarrow> if c = 43 then (1, rest)
                                     else if c = 45 then (- 1, rest) else (1, cs1))
      in case parse_digits cs2 of
           None \<Rightarrow> None
         | Some (n, rest) \<Rightarrow> if dropWhile sp rest = [] then Some (sgn * n) else None)"

definition py_int_str :: "string \<Rightarrow> int option" where
  "py_int_str s = py_int_literal str_space (map of_char s)"

definition py_int_bytes :: "bytes \<Rightarrow> int option" where
  "py_int_bytes b = py_int_literal bytes_space (map unat b)"

text \<open>\<open>int.from_bytes(b, 'big')\<close> and \<open>n.to_bytes(length, 'big')\<close>.\<close>

definition from_bytes :: "bytes \<Rightarrow> int" where
  "from_bytes b = foldl (\<lambda>acc x. acc * 256 + uint x) 0 b"

fun be_bytes :: "nat \<Rightarrow> int \<Rightarrow> bytes" where
  "be_bytes 0 n = []"
| "be_bytes (Suc k) n = be_bytes k (n div 256) @ [word_of_int (n mod 256)]"

definition to_bytes :: "int \<Rightarrow> int \<Rightarrow> error + bytes" where
  "to_bytes n len =
     (if len < 0 then Inl ValueError
      else if n < 0 then Inl OverflowError
      else if 256 ^ nat len \<le> n then Inl OverflowError
      else Inr (be_bytes (nat len) n))"

text \<open>Python slicing \<open>xs[a:b]\<close>, negative indices counting from the end.\<close>

definition slice_index :: "nat \<Rightarrow> int \<Rightarrow> nat" where
  "slice_index n i = (if i < 0 then nat (max 0 (int n + i)) else min n (nat i))"

definition py_slice :: "'a list \<Rightarrow> int \<Rightarrow> int \<Rightarrow> 'a list" where
  "py_slice xs a b =
     (let lo = slice_index (length xs) a; hi = slice_index (length xs) b
      in take (hi - lo) (drop lo xs))"

text \<open>\<open>s.split(sep)\<close> for a one-character separator: never an empty list.\<close>

fun split_on :: "char \<Rightarrow> string \<Rightarrow> string list" where
  "split_on sep [] = [[]]"
| "split_on sep (c # cs) =
     (if c = sep then [] # split_on sep cs
      else (case split_on sep cs of
              [] \<Rightarrow> [[c]]
            | w # ws \<Rightarrow> (c # w) # ws))"

section \<open>The wire schema and the codec\<close>

text \<open>
  \<open>lightning.json\<close> is read into \<open>structured\<close>, an ordered dictionary from message
  name to an entry with a \<open>type\<close> and an ordered \<open>payload\<close> of fields, each with a
  \<open>position\<close> and a \<open>length\<close> expression and possibly a \<open>feature\<close> key. The file is
  not part of the sources, so the schema is a parameter of every codec function.
\<close>

record field_spec =
  position :: string
  length_exp :: string
  feature :: bool

record msg_spec =
  msg_type :: string
  payload :: "(string \<times> field_spec) list"

type_synonym schema = "(string \<times> msg_spec) list"

definition handlesingle :: "string \<Rightarrow> (string \<rightharpoonup> pyval) \<Rightarrow> error + int" where
  "handlesingle x ma =
     (case py_int_str x of
        Some n \<Rightarrow> Inr n
      | None \<Rightarrow>
          (case ma x of
             None \<Rightarrow> Inl KeyError
           | Some (PInt n) \<Rightarrow> Inr n
           | Some (PBytes b) \<Rightarrow>
               (case py_int_bytes b of
                  Some n \<Rightarrow> Inr n
                | None \<Rightarrow> Inr (from_bytes b))))"

fun eval_terms :: "(int \<Rightarrow> int \<Rightarrow> int) \<Rightarrow> int \<Rightarrow> string list \<Rightarrow> (string \<rightharpoonup> pyval) \<Rightarrow> error + int" where
  "eval_terms f acc [] ma = Inr acc"
| "eval_terms f acc (t # ts) ma =
     (case handlesingle t ma of
        Inl e \<Rightarrow> Inl e
      | Inr n \<Rightarrow> eval_terms f (f acc n) ts ma)"

definition calcexp :: "string \<Rightarrow> (string \<rightharpoonup> pyval) \<Rightarrow> error + int" where
  "calcexp expr ma =
     (if CHR ''*'' \<in> set expr then
        (if CHR ''+'' \<in> set expr then Inl AssertionError
         else eval_terms (\<lambda>a b. a * b) 1 (split_on CHR ''*'' expr) ma)
      else eval_terms (\<lambda>a b. a + b) 0 (split_on CHR ''+'' expr) ma)"

text \<open>The decoder built by \<open>make_handler\<close>: the loop over the payload, then the final assert.\<close>

definition as_vals :: "(string \<rightharpoonup> bytes) \<Rightarrow> (string \<rightharpoonup> pyval)" where
  "as_vals ma = (\<lambda>k. map_option PBytes (ma k))"

fun handler_loop ::
  "(string \<times> field_spec) list \<Rightarrow> bytes \<Rightarrow> (string \<rightharpoonup> bytes) \<Rightarrow> int
     \<Rightarrow> error + ((string \<rightharpoonup> bytes) \<times> int)" where
  "handler_loop [] data ma pos = Inr (ma, pos)"
| "handler_loop ((fieldname, poslenMap) # rest) data ma pos =
     (if feature poslenMap \<and> pos = int (length data) then handler_loop rest data ma pos
      else
        (case calcexp (position poslenMap) (as_vals ma) of
           Inl e \<Rightarrow> Inl e
         | Inr p \<Rightarrow>
             if pos \<noteq> p then Inl AssertionError
             else
               (case calcexp (length_exp poslenMap) (as_vals ma) of
                  Inl e \<Rightarrow> Inl e
                | Inr len \<Rightarrow>
                    handler_loop rest data
                      (ma(fieldname \<mapsto> py_slice data pos (pos + len))) (pos + len))))"

definition handler :: "string \<Rightarrow> msg_spec \<Rightarrow> bytes \<Rightarrow> error + (string \<times> (string \<rightharpoonup> bytes))" where
  "handler k v data =
     (case handler_loop (payload v) data Map.empty 0 of
        Inl e \<Rightarrow> Inl e
      | Inr (ma, pos) \<Rightarrow> if pos = int (length data) then Inr (k, ma) else Inl AssertionError)"

text \<open>
  The module-level loop that fills \<open>message_types\<close>, and the assertion after it. A
  handler closure is represented by the pair \<open>(k, v)\<close> it closes over; its
  \<open>__name__\<close> is \<open>k + "_handler"\<close>.
\<close>

type_synonym message_types = "(bytes \<times> (string \<times> msg_spec)) list"

fun load_loop :: "schema \<Rightarrow> message_types \<Rightarrow> error + message_types" where
  "load_loop [] mt = Inr mt"
| "load_loop ((k, v) # rest) mt =
     (if k \<in> set [''final_incorrect_cltv_expiry'', ''final_incorrect_htlc_amount'']
      then load_loop rest mt
      else if length (payload v) = 0 then load_loop rest mt
      else
        (case py_int_str (msg_type v) of
           None \<Rightarrow> load_loop rest mt
         | Some num \<Rightarrow>
             (case to_bytes num 2 of
                Inl e \<Rightarrow> Inl e
              | Inr byts \<Rightarrow>
                  if byts \<in> fst ` set mt then Inl AssertionError
                  else if k @ ''_handler'' \<in> set (map (\<lambda>(b, (n, s)). n @ ''_handler'') mt)
                  then Inl AssertionError
                  else load_loop rest (mt @ [(byts, (k, v))]))))"

definition load_message_types :: "schema \<Rightarrow> error + message_types" where
  "load_message_types structured =
     (case load_loop structured [] of
        Inl e \<Rightarrow> Inl e
      | Inr mt \<Rightarrow>
          (case map_of mt [0, 16] of
             None \<Rightarrow> Inl KeyError
           | Some (k, v) \<Rightarrow>
               if k @ ''_handler'' = ''init_handler'' then Inr mt else Inl AssertionError))"

definition decode_msg :: "message_types \<Rightarrow> bytes \<Rightarrow> error + (string \<times> (string \<rightharpoonup> bytes))" where
  "decode_msg mt data =
     (case map_of mt (take 2 data) of
        None \<Rightarrow> Inl KeyError
      | Some (k, v) \<Rightarrow> handler k v (drop 2 data))"

text \<open>
  \<open>gen_msg\<close>. \<open>lengths\<close> maps the fields emitted so far to their byte lengths;
  \<open>clone\<close> is \<open>lengths\<close> overridden by the caller's keyword arguments.
\<close>

definition clone :: "(string \<rightharpoonup> int) \<Rightarrow> (string \<rightharpoonup> pyval) \<Rightarrow> (string \<rightharpoonup> pyval)" where
  "clone lengths kwargs = (\<lambda>k. map_option PInt (lengths k)) ++ kwargs"

fun gen_loop ::
  "(string \<times> field_spec) list \<Rightarrow> (string \<rightharpoonup> pyval) \<Rightarrow> (string \<rightharpoonup> int) \<Rightarrow> bytes
     \<Rightarrow> error + bytes" where
  "gen_loop [] kwargs lengths data = Inr data"
| "gen_loop ((k, poslenMap) # rest) kwargs lengths data =
     (if feature poslenMap then gen_loop rest kwargs lengths data
      else
        (case calcexp (length_exp poslenMap) (\<lambda>k. map_option PInt (lengths k)) of
           Inl e \<Rightarrow> Inl e
         | Inr leng0 \<Rightarrow>
             (case (case calcexp (length_exp poslenMap) (clone lengths kwargs) of
                      Inl KeyError \<Rightarrow> Inr leng0
                    | Inl e \<Rightarrow> Inl e
                    | Inr leng1 \<Rightarrow> Inr leng1) of
                Inl e \<Rightarrow> Inl e
              | Inr leng \<Rightarrow>
                  (case (case (case kwargs k of None \<Rightarrow> PInt 0 | Some p \<Rightarrow> p) of
                           PBytes b \<Rightarrow> Inr b
                         | PInt n \<Rightarrow>
                             (case to_bytes n leng of
                                Inl ValueError \<Rightarrow>
                                  Inl (PyException (k @ '' does not fit''))
                              | Inl e \<Rightarrow> Inl e
                              | Inr b \<Rightarrow> Inr b)) of
                     Inl e \<Rightarrow> Inl e
                   | Inr param \<Rightarrow>
                       if int (length param) \<noteq> leng
                       then Inl (PyException (''field '' @ k @ '' has the wrong length''))
                       else gen_loop rest kwargs (lengths(k \<mapsto> int (length param)))
                              (data @ param)))))"

definition gen_msg :: "schema \<Rightarrow> string \<Rightarrow> (string \<rightharpoonup> pyval) \<Rightarrow> error + bytes" where
  "gen_msg structured name kwargs =
     (case map_of structured name of
        None \<Rightarrow> Inl KeyError
      | Some entry \<Rightarrow>
          (case py_int_str (msg_type entry) of
             None \<Rightarrow> Inl ValueError
           | Some num \<Rightarrow>
               (case to_bytes num 2 of
                  Inl e \<Rightarrow> Inl e
                | Inr data \<Rightarrow> gen_loop (payload entry) kwargs Map.empty data)))"

text \<open>
  Modelled from the spec: the \<open>init\<close>, \<open>ping\<close> and \<open>pong\<close> entries of
  \<open>lightning.json\<close>, which is not among the sources. The \<open>init\<close> layout is the one
  the spec's codec scenario fixes (type 16; \<open>gflen\<close>, \<open>globalfeatures\<close>, \<open>lflen\<close>,
  \<open>localfeatures\<close>), \<open>ping\<close> carries \<open>num_pong_bytes\<close> and \<open>byteslen\<close> followed by
  \<open>byteslen\<close> ignored bytes, \<open>pong\<close> carries \<open>byteslen\<close> and the ignored bytes.
\<close>

definition init_entry :: msg_spec where
  "init_entry = \<lparr>msg_type = ''16'', payload =
     [(''gflen'', \<lparr>position = ''0'', length_exp = ''2'', feature = False\<rparr>),
      (''globalfeatures'', \<lparr>position = ''2'', length_exp = ''gflen'', feature = False\<rparr>),
      (''lflen'', \<lparr>position = ''2+gflen'', length_exp = ''2'', feature = False\<rparr>),
      (''localfeatures'', \<lparr>position = ''4+gflen'', length_exp = ''lflen'', feature = False\<rparr>)]\<rparr>"

definition ping_entry :: msg_spec where
  "ping_entry = \<lparr>msg_type = ''18'', payload =
     [(''num_pong_bytes'', \<lparr>position = ''0'', length_exp = ''2'', feature = False\<rparr>),
      (''byteslen'', \<lparr>position = ''2'', length_exp = ''2'', feature = False\<rparr>),
      (''ignored'', \<lparr>position = ''4'', length_exp = ''byteslen'', feature = False\<rparr>)]\<rparr>"

definition pong_entry :: msg_spec where
  "pong_entry = \<lparr>msg_type = ''19'', payload =
     [(''byteslen'', \<lparr>position = ''0'', length_exp = ''2'', feature = False\<rparr>),
      (''ignored'', \<lparr>position = ''2'', length_exp = ''byteslen'', feature = False\<rparr>)]\<rparr>"

definition core_schema :: schema where
  "core_schema = [(''init'', init_entry), (''ping'', ping_entry), (''pong'', pong_entry)]"

definition core_message_types :: message_types where
  "core_message_types =
     [([0, 16], (''init'', init_entry)), ([0, 18], (''ping'', ping_entry)),
      ([0, 19], (''pong'', pong_entry))]"

definition init_kwargs :: "string \<rightharpoonup> pyval" where
  "init_kwargs = [''gflen'' \<mapsto> PInt 0, ''lflen'' \<mapsto> PInt 1, ''localfeatures'' \<mapsto> PInt 8]"

text \<open>
  A schema entry with its feature fields removed, and a concrete entry with two
  trailing feature fields (the layout of BOLT 2's \<open>channel_reestablish\<close>) on which
  the statements about feature fields are instantiated.
\<close>

definition without_features :: "msg_spec \<Rightarrow> msg_spec" where
  "without_features entry = entry\<lparr>payload := filter (\<lambda>(k, p). \<not> feature p) (payload entry)\<rparr>"

definition channel_reestablish_entry :: msg_spec where
  "channel_reestablish_entry = \<lparr>msg_type = ''136'', payload =
     [(''channel_id'', \<lparr>position = ''0'', length_exp = ''32'', feature = False\<rparr>),
      (''next_local_commitment_number'', \<lparr>position = ''32'', length_exp = ''8'', feature = False\<rparr>),
      (''next_remote_revocation_number'', \<lparr>position = ''40'', length_exp = ''8'', feature = False\<rparr>),
      (''your_last_per_commitment_secret'', \<lparr>position = ''48'', length_exp = ''32'', feature = True\<rparr>),
      (''my_current_per_commitment_point'', \<lparr>position = ''80'', length_exp = ''33'', feature = True\<rparr>)]\<rparr>"

definition reestablish_schema :: schema where
  "reestablish_schema = [(''channel_reestablish'', channel_reestablish_entry)]"

definition reestablish_kwargs :: "string \<rightharpoonup> pyval" where
  "reestablish_kwargs =
     [''channel_id'' \<mapsto> PBytes (replicate 32 7),
      ''next_local_commitment_number'' \<mapsto> PInt 1,
      ''next_remote_revocation_number'' \<mapsto> PInt 0]"

section \<open>Transport keys and nonce counters\<close>

text \<open>
  The part of \<open>Peer\<close> that the transport owns: the two keys, the two chaining keys and
  the two counters \<open>_sn\<close> and \<open>_rn\<close>. HMAC-SHA256 comes from the Python library and is
  a parameter; the two assertions of \<open>get_bolt8_hkdf\<close> on digest lengths are kept.
\<close>

type_synonym hmac_fn = "bytes \<Rightarrow> bytes \<Rightarrow> bytes"

record transport =
  sk :: bytes
  rk :: bytes
  s_ck :: bytes
  r_ck :: bytes
  priv_sn :: int
  priv_rn :: int

definition get_bolt8_hkdf :: "hmac_fn \<Rightarrow> bytes \<Rightarrow> bytes \<Rightarrow> error + (bytes \<times> bytes)" where
  "get_bolt8_hkdf hmac salt ikm =
     (let prk = hmac salt ikm in
      if length prk \<noteq> 32 then Inl AssertionError
      else
        (let info = []; T0 = [];
             T1 = hmac prk (T0 @ info @ [1]);
             T2 = hmac prk (T1 @ info @ [2])
         in if length (T1 @ T2) \<noteq> 64 then Inl AssertionError else Inr (T1, T2)))"

definition rn ::
  "hmac_fn \<Rightarrow> 'a transport_scheme \<Rightarrow> error + ((int \<times> bytes) \<times> 'a transport_scheme)" where
  "rn hmac p =
     (let o_res = (priv_rn p, rk p);
          p1 = p\<lparr>priv_rn := priv_rn p + 1\<rparr>
      in if priv_rn p1 = 1000 then
           (case get_bolt8_hkdf hmac (r_ck p1) (rk p1) of
              Inl e \<Rightarrow> Inl e
            | Inr (ck, k) \<Rightarrow> Inr (o_res, p1\<lparr>r_ck := ck, rk := k, priv_rn := 0\<rparr>))
         else Inr (o_res, p1))"

definition sn :: "hmac_fn \<Rightarrow> 'a transport_scheme \<Rightarrow> error + (int \<times> 'a transport_scheme)" where
  "sn hmac p =
     (let o_res = priv_sn p;
          p1 = p\<lparr>priv_sn := priv_sn p + 1\<rparr>
      in if priv_sn p1 = 1000 then
           (case get_bolt8_hkdf hmac (s_ck p1) (sk p1) of
              Inl e \<Rightarrow> Inl e
            | Inr (ck, k) \<Rightarrow> Inr (o_res, p1\<lparr>s_ck := ck, sk := k, priv_sn := 0\<rparr>))
         else Inr (o_res, p1))"

text \<open>\<open>n\<close> successive calls of \<open>sn()\<close>, respectively \<open>rn()\<close>, with the values they return.\<close>

fun sn_uses ::
  "hmac_fn \<Rightarrow> nat \<Rightarrow> 'a transport_scheme \<Rightarrow> error + (int list \<times> 'a transport_scheme)" where
  "sn_uses hmac 0 p = Inr ([], p)"
| "sn_uses hmac (Suc n) p =
     (case sn hmac p of
        Inl e \<Rightarrow> Inl e
      | Inr (x, p1) \<Rightarrow>
          (case sn_uses hmac n p1 of
             Inl e \<Rightarrow> Inl e
           | Inr (xs, p2) \<Rightarrow> Inr (x # xs, p2)))"

fun rn_uses ::
  "hmac_fn \<Rightarrow> nat \<Rightarrow> 'a transport_scheme
     \<Rightarrow> error + ((int \<times> bytes) list \<times> 'a transport_scheme)" where
  "rn_uses hmac 0 p = Inr ([], p)"
| "rn_uses hmac (Suc n) p =
     (case rn hmac p of
        Inl e \<Rightarrow> Inl e
      | Inr (x, p1) \<Rightarrow>
          (case rn_uses hmac n p1 of
             Inl e \<Rightarrow> Inl e
           | Inr (xs, p2) \<Rightarrow> Inr (x # xs, p2)))"

text \<open>The two halves of \<open>HKDF(chain, key)\<close> when the digests have their 32 bytes.\<close>

definition hkdf_ck :: "hmac_fn \<Rightarrow> bytes \<Rightarrow> bytes \<Rightarrow> bytes" where
  "hkdf_ck hmac salt ikm = hmac (hmac salt ikm) [1]"

definition hkdf_k :: "hmac_fn \<Rightarrow> bytes \<Rightarrow> bytes \<Rightarrow> bytes" where
  "hkdf_k hmac salt ikm = hmac (hmac salt ikm) (hmac (hmac salt ikm) [1] @ [2])"

definition toy_hmac :: hmac_fn where
  "toy_hmac k m = replicate 31 0 @ [word_of_int (from_bytes k + from_bytes m)]"

definition transport0 :: transport where
  "transport0 = \<lparr>sk = replicate 32 1, rk = replicate 32 2, s_ck = replicate 32 3,
                  r_ck = replicate 32 3, priv_sn = 0, priv_rn = 0\<rparr>"

section \<open>String formatting helpers\<close>

text \<open>
  \<open>'%d' % n\<close> and \<open>str(n)\<close> for an integer, \<open>sep.join(xs)\<close>, \<open>binascii.hexlify\<close>
  and \<open>b.rstrip(b'\x00')\<close>.
\<close>

definition digit_char :: "nat \<Rightarrow> char" where
  "digit_char d = ''0123456789'' ! d"

fun dec :: "nat \<Rightarrow> string" where
  "dec n = (if n < 10 then [digit_char n] else dec (n div 10) @ [digit_char (n mod 10)])"

declare dec.simps [simp del]

definition py_str_int :: "int \<Rightarrow> string" where
  "py_str_int i = (if i < 0 then ''-'' @ dec (nat (- i)) else dec (nat i))"

fun py_join :: "'a list \<Rightarrow> 'a list list \<Rightarrow> 'a list" where
  "py_join sep [] = []"
| "py_join sep [x] = x"
| "py_join sep (x # y # ys) = x @ sep @ py_join sep (y # ys)"

definition hex_digit :: "nat \<Rightarrow> byte" where
  "hex_digit d = (if d < 10 then of_nat (48 + d) else of_nat (87 + d))"

definition hexlify :: "bytes \<Rightarrow> bytes" where
  "hexlify b = concat (map (\<lambda>x. [hex_digit (unat x div 16), hex_digit (unat x mod 16)]) b)"

definition rstrip_zero :: "bytes \<Rightarrow> bytes" where
  "rstrip_zero b = rev (dropWhile (\<lambda>x. x = 0) (rev b))"

section \<open>Node announcements\<close>

text \<open>
  The address loop of \<open>on_node_announcement\<close>. \<open>read(n)\<close> returns \<open>self.s[0:n]\<close> and
  leaves \<open>self.s[n:]\<close>, that is \<open>take n\<close> and \<open>drop n\<close>; a short read returns what is
  left and never raises. An IPv4 host is a \<open>str\<close>, an IPv6 host is \<open>bytes\<close>.
\<close>

datatype host = HostStr string | HostBytes bytes

function address_loop :: "bytes \<Rightarrow> (host \<times> int) list \<Rightarrow> (host \<times> int) list" where
  "address_loop [] addresses = addresses"
| "address_loop (b # s1) addresses =
     (let atype = unat b in
      if atype = 0 then address_loop s1 addresses
      else if atype = 1 then
        (let ipv4_addr = py_join ''.'' (map (\<lambda>x. dec (unat x)) (take 4 s1));
             s2 = drop 4 s1;
             port = from_bytes (take 2 s2);
             s3 = drop 2 s2
         in address_loop s3 (addresses @ [(HostStr ipv4_addr, port)]))
      else if atype = 2 then
        (let ipv6_addr = py_join [58]
               (map hexlify [take 2 s1, take 2 (drop 2 s1), take 2 (drop 4 s1),
                             take 2 (drop 6 s1)]);
             s2 = drop 8 s1;
             port = from_bytes (take 2 s2);
             s3 = drop 2 s2
         in address_loop s3 (addresses @ [(HostBytes ipv6_addr, port)]))
      else address_loop s1 addresses)"
  by pat_completeness auto
termination
  by (relation "measure (\<lambda>(s, a). length s)") auto

record node_info =
  node_alias :: bytes
  node_addresses :: "(host \<times> int) list"

text \<open>
  \<open>on_node_announcement\<close>, with \<open>bitcoin.Hash\<close> and \<open>ecc.verify_signature\<close> as
  parameters; the result is the updated \<open>network.lightning_nodes\<close>.
\<close>

definition on_node_announcement ::
  "(bytes \<Rightarrow> bytes) \<Rightarrow> (bytes \<Rightarrow> bytes \<Rightarrow> bytes \<Rightarrow> bool) \<Rightarrow> (string \<rightharpoonup> bytes)
     \<Rightarrow> (bytes \<rightharpoonup> node_info) \<Rightarrow> error + (bytes \<rightharpoonup> node_info)" where
  "on_node_announcement Hash verify_signature payld lightning_nodes =
     (case payld ''node_id'' of
        None \<Rightarrow> Inl KeyError
      | Some pubkey \<Rightarrow>
          (case payld ''signature'' of
             None \<Rightarrow> Inl KeyError
           | Some signature \<Rightarrow>
               (case payld ''raw'' of
                  None \<Rightarrow> Inl KeyError
                | Some raw \<Rightarrow>
                    if \<not> verify_signature pubkey signature (Hash (drop 66 raw))
                    then Inr lightning_nodes
                    else
                      (case payld ''addresses'' of
                         None \<Rightarrow> Inl KeyError
                       | Some s \<Rightarrow>
                           (let addrs = address_loop s [] in
                            case payld ''alias'' of
                              None \<Rightarrow> Inl KeyError
                            | Some a \<Rightarrow>
                                Inr (lightning_nodes(pubkey \<mapsto>
                                  \<lparr>node_alias = rstrip_zero a, node_addresses = addrs\<rparr>)))))))"

definition toy_verify :: "bytes \<Rightarrow> bytes \<Rightarrow> bytes \<Rightarrow> bool" where
  "toy_verify pubkey signature h = (signature = h)"

definition announcement_payload :: "string \<rightharpoonup> bytes" where
  "announcement_payload =
     [''node_id'' \<mapsto> [2, 9], ''signature'' \<mapsto> [5], ''raw'' \<mapsto> replicate 66 0 @ [5],
      ''alias'' \<mapsto> [97, 0, 0],
      ''addresses'' \<mapsto> [3, 1, 127, 0, 0, 1, 38, 7]]"

section \<open>HTLC failures\<close>

text \<open>
  Python indexing \<open>xs[i]\<close> (negative indices count from the end, out of range raises
  \<open>IndexError\<close>), and \<open>repr\<close> of a list of plain strings as \<open>str.format\<close> prints it.
\<close>

definition py_index :: "'a list \<Rightarrow> int \<Rightarrow> error + 'a" where
  "py_index xs i =
     (if 0 \<le> i \<and> i < int (length xs) then Inr (xs ! nat i)
      else if i < 0 \<and> - int (length xs) \<le> i then Inr (xs ! nat (int (length xs) + i))
      else Inl IndexError)"

definition repr_str_list :: "string list \<Rightarrow> string" where
  "repr_str_list xs = ''['' @ py_join '', '' (map (\<lambda>s. [CHR 0x27] @ s @ [CHR 0x27]) xs) @ '']''"

text \<open>
  The state \<open>on_update_fail_htlc\<close> touches: the recorded routes, the session key of
  the last payment (an attribute that exists only once \<open>pay\<close> has set it), the path
  finder's blacklist and the per-channel queues of failure strings (a
  \<open>defaultdict\<close>: a missing queue is empty). \<open>decode_onion_error\<close> belongs to
  \<open>lnrouter\<close> and is a parameter.
\<close>

record route_edge =
  node_id :: bytes
  short_channel_id :: bytes

record failure_msg =
  failure_code :: int
  failure_data :: bytes

record fail_state =
  attempted_route :: "(bytes \<times> int) \<rightharpoonup> route_edge list"
  secret_key :: "bytes option"
  blacklist :: "bytes set"
  update_fail_htlc :: "bytes \<Rightarrow> string list"

type_synonym decode_onion_fn = "bytes \<Rightarrow> bytes list \<Rightarrow> bytes \<Rightarrow> error + (failure_msg \<times> int)"

definition failure_codes :: "int \<Rightarrow> string list" where
  "failure_codes c =
     (let codes = [];
          codes = (if c AND 0x8000 \<noteq> 0 then codes @ [''BADONION''] else codes);
          codes = (if c AND 0x4000 \<noteq> 0 then codes @ [''PERM''] else codes);
          codes = (if c AND 0x2000 \<noteq> 0 then codes @ [''NODE''] else codes);
          codes = (if c AND 0x1000 \<noteq> 0 then codes @ [''UPDATE''] else codes)
      in codes)"

definition failure_string :: "int \<Rightarrow> string" where
  "failure_string c =
     ''HTLC failure with code '' @ py_str_int c @ '' (categories ''
       @ repr_str_list (failure_codes c) @ '')''"

definition on_update_fail_htlc ::
  "decode_onion_fn \<Rightarrow> (string \<rightharpoonup> bytes) \<Rightarrow> fail_state \<Rightarrow> error + fail_state" where
  "on_update_fail_htlc decode_onion_error payld st =
     (case payld ''channel_id'' of
        None \<Rightarrow> Inl KeyError
      | Some channel_id \<Rightarrow>
     (case payld ''id'' of
        None \<Rightarrow> Inl KeyError
      | Some idb \<Rightarrow>
     (case attempted_route st (channel_id, from_bytes idb) of
        None \<Rightarrow> Inl KeyError
      | Some route \<Rightarrow>
     (case payld ''reason'' of
        None \<Rightarrow> Inl KeyError
      | Some reason \<Rightarrow>
     (case secret_key st of
        None \<Rightarrow> Inl AttributeError
      | Some skey \<Rightarrow>
     (case decode_onion_error reason (map node_id route) skey of
        Inl e \<Rightarrow> Inl e
      | Inr (fm, sender_idx) \<Rightarrow>
          (let c = failure_code fm;
               short_chan_id =
                 (case py_index route (sender_idx + 1) of
                    Inl e \<Rightarrow> None
                  | Inr edge \<Rightarrow> Some (short_channel_id edge))
           in case short_chan_id of
                None \<Rightarrow> Inl UnboundLocalError
              | Some scid \<Rightarrow>
                  Inr (st\<lparr>blacklist := insert scid (blacklist st),
                          update_fail_htlc := (update_fail_htlc st)
                            (channel_id := update_fail_htlc st channel_id
                               @ [failure_string c])\<rparr>))))))))"

text \<open>A three-hop route and a decoder stub for concrete runs.\<close>

definition three_hops :: "route_edge list" where
  "three_hops =
     [\<lparr>node_id = [1], short_channel_id = [0, 0, 0, 0, 0, 0, 0, 1]\<rparr>,
      \<lparr>node_id = [2], short_channel_id = [0, 0, 0, 0, 0, 0, 0, 2]\<rparr>,
      \<lparr>node_id = [3], short_channel_id = [0, 0, 0, 0, 0, 0, 0, 3]\<rparr>]"

definition toy_decode_onion :: decode_onion_fn where
  "toy_decode_onion reason nodes skey =
     Inr (\<lparr>failure_code = from_bytes (take 2 reason), failure_data = drop 2 reason\<rparr>, 0)"

definition fail_state0 :: fail_state where
  "fail_state0 =
     \<lparr>attempted_route = [([7], 0) \<mapsto> three_hops], secret_key = Some [9],
      blacklist = {}, update_fail_htlc = (\<lambda>c. [])\<rparr>"

definition fail_payload :: "bytes \<Rightarrow> (string \<rightharpoonup> bytes)" where
  "fail_payload reason =
     [''channel_id'' \<mapsto> [7], ''id'' \<mapsto> [0, 0, 0, 0, 0, 0, 0, 0],
      ''reason'' \<mapsto> reason]"

section \<open>Sending messages and the ping timer\<close>

text \<open>
  The module-level tables and the library functions a \<open>Peer\<close> uses: the schema and
  the decoder table built from it, HMAC-SHA256 and the ChaCha20-Poly1305 encryption of
  the \<open>cryptography\<close> package (key, nonce, data, associated data).
\<close>

type_synonym chacha_fn = "bytes \<Rightarrow> bytes \<Rightarrow> bytes \<Rightarrow> bytes \<Rightarrow> bytes"

record module_env =
  env_structured :: schema
  env_message_types :: message_types
  env_hmac :: hmac_fn
  env_chacha :: chacha_fn

definition get_nonce_bytes :: "int \<Rightarrow> error + bytes" where
  "get_nonce_bytes n =
     (case to_bytes n 8 of
        Inl e \<Rightarrow> Inl e
      | Inr b \<Rightarrow> Inr (replicate 4 0 @ rev b))"

definition aead_encrypt :: "chacha_fn \<Rightarrow> bytes \<Rightarrow> int \<Rightarrow> bytes \<Rightarrow> bytes \<Rightarrow> error + bytes" where
  "aead_encrypt chacha k nonce associated_data data =
     (case get_nonce_bytes nonce of
        Inl e \<Rightarrow> Inl e
      | Inr nonce_bytes \<Rightarrow> Inr (chacha k nonce_bytes data associated_data))"

text \<open>
  The peer: the transport, what was handed to \<open>writer.write\<close>, and \<open>ping_time\<close>.
  \<open>time.time()\<close> is a real number of seconds.
\<close>

record peer = transport +
  written :: "bytes list"
  ping_time :: real

definition send_message ::
  "module_env \<Rightarrow> bytes \<Rightarrow> 'a peer_scheme \<Rightarrow> error + 'a peer_scheme" where
  "send_message env msg p =
     (case decode_msg (env_message_types env) msg of
        Inl e \<Rightarrow> Inl e
      | Inr decoded \<Rightarrow>
     (case to_bytes (int (length msg)) 2 of
        Inl e \<Rightarrow> Inl e
      | Inr l \<Rightarrow>
     (let k1 = sk p in
      case sn (env_hmac env) p of
        Inl e \<Rightarrow> Inl e
      | Inr (n1, p1) \<Rightarrow>
     (case aead_encrypt (env_chacha env) k1 n1 [] l of
        Inl e \<Rightarrow> Inl e
      | Inr lc \<Rightarrow>
     (let k2 = sk p1 in
      case sn (env_hmac env) p1 of
        Inl e \<Rightarrow> Inl e
      | Inr (n2, p2) \<Rightarrow>
     (case aead_encrypt (env_chacha env) k2 n2 [] msg of
        Inl e \<Rightarrow> Inl e
      | Inr c \<Rightarrow>
          if length lc \<noteq> 18 then Inl AssertionError
          else if length c \<noteq> length msg + 16 then Inl AssertionError
          else Inr (p2\<lparr>written := written p2 @ [lc @ c]\<rparr>)))))))"

definition ping_kwargs :: "string \<rightharpoonup> pyval" where
  "ping_kwargs = [''num_pong_bytes'' \<mapsto> PInt 4, ''byteslen'' \<mapsto> PInt 4]"

text \<open>
  \<open>ping_if_required\<close> reads the clock twice: \<open>now1\<close> in the test and \<open>now2\<close> for
  the new \<open>ping_time\<close>.
\<close>

definition ping_if_required ::
  "module_env \<Rightarrow> real \<Rightarrow> real \<Rightarrow> 'a peer_scheme \<Rightarrow> error + 'a peer_scheme" where
  "ping_if_required env now1 now2 p =
     (if now1 - ping_time p > 120 then
        (case gen_msg (env_structured env) ''ping'' ping_kwargs of
           Inl e \<Rightarrow> Inl e
         | Inr msg \<Rightarrow>
             (case send_message env msg p of
                Inl e \<Rightarrow> Inl e
              | Inr p1 \<Rightarrow> Inr (p1\<lparr>ping_time := now2\<rparr>)))
      else Inr p)"

definition on_ping ::
  "module_env \<Rightarrow> (string \<rightharpoonup> bytes) \<Rightarrow> 'a peer_scheme \<Rightarrow> error + 'a peer_scheme" where
  "on_ping env payld p =
     (case payld ''num_pong_bytes'' of
        None \<Rightarrow> Inl KeyError
      | Some b \<Rightarrow>
          (let l = from_bytes b in
           case gen_msg (env_structured env) ''pong'' [''byteslen'' \<mapsto> PInt l] of
             Inl e \<Rightarrow> Inl e
           | Inr msg \<Rightarrow> send_message env msg p))"

text \<open>
  Timed runs of a peer, to state when something is emitted: at clock reading \<open>t\<close>
  either some flow or handler calls \<open>send_message\<close>, or the dispatch loop calls
  \<open>ping_if_required\<close>. The log records each send with its time, and each ping check that
  wrote a ping.
\<close>

datatype step = Send bytes | Ping_check

datatype emitted = Sent | Pinged

fun run_steps ::
  "module_env \<Rightarrow> (real \<times> step) list \<Rightarrow> 'a peer_scheme
     \<Rightarrow> error + ('a peer_scheme \<times> (real \<times> emitted) list)" where
  "run_steps env [] p = Inr (p, [])"
| "run_steps env ((t, Send m) # rest) p =
     (case send_message env m p of
        Inl e \<Rightarrow> Inl e
      | Inr p1 \<Rightarrow>
          (case run_steps env rest p1 of
             Inl e \<Rightarrow> Inl e
           | Inr (q, entries) \<Rightarrow> Inr (q, (t, Sent) # entries)))"
| "run_steps env ((t, Ping_check) # rest) p =
     (case ping_if_required env t t p of
        Inl e \<Rightarrow> Inl e
      | Inr p1 \<Rightarrow>
          (case run_steps env rest p1 of
             Inl e \<Rightarrow> Inl e
           | Inr (q, entries) \<Rightarrow>
               Inr (q, if written p1 = written p then entries else (t, Pinged) # entries)))"

definition toy_chacha :: chacha_fn where
  "toy_chacha k nonce data associated_data = data @ replicate 16 0"

definition env0 :: module_env where
  "env0 = \<lparr>env_structured = core_schema, env_message_types = core_message_types,
            env_hmac = toy_hmac, env_chacha = toy_chacha\<rparr>"

definition peer0 :: peer where
  "peer0 = \<lparr>sk = replicate 32 1, rk = replicate 32 2, s_ck = replicate 32 3,
             r_ck = replicate 32 3, priv_sn = 0, priv_rn = 0, written = [],
             ping_time = 1000\<rparr>"

section \<open>Conditions for the round trip\<close>

text \<open>
  The names an expression of the schema looks up and the fields that the length
  expressions of a payload refer to. Such a field is supplied when the keyword arguments
  bind it, to bytes or to an integer whose big-endian encoding, at the width that the
  field's own length expression gives under the keyword arguments, is not read back as
  an ASCII decimal literal by \<open>handlesingle\<close>. In a chained layout every field starts
  where the previous one ends.
\<close>

definition terms_of :: "string \<Rightarrow> string list" where
  "terms_of e = (if CHR ''*'' \<in> set e then split_on CHR ''*'' e else split_on CHR ''+'' e)"

definition names_of :: "string \<Rightarrow> string set" where
  "names_of e = {t \<in> set (terms_of e). py_int_str t = None}"

definition refs :: "(string \<times> field_spec) list \<Rightarrow> string set" where
  "refs fs = (\<Union>(k, p) \<in> set fs. names_of (length_exp p))"

definition supplied :: "(string \<times> field_spec) list \<Rightarrow> (string \<rightharpoonup> pyval) \<Rightarrow> string \<Rightarrow> bool" where
  "supplied fs kw r =
     (case kw r of
        None \<Rightarrow> False
      | Some (PBytes b) \<Rightarrow> True
      | Some (PInt n) \<Rightarrow>
          (\<forall>(k, p) \<in> set fs. k = r \<longrightarrow>
             (case calcexp (length_exp p) kw of
                Inl e \<Rightarrow> True
              | Inr w \<Rightarrow> py_int_bytes (be_bytes (nat w) n) = None)))"

fun chained :: "(string \<times> field_spec) list \<Rightarrow> bool" where
  "chained [] = True"
| "chained [f] = True"
| "chained ((k, p) # (k', p') # rest) =
     ((\<forall>ma a b x. calcexp (position p) ma = Inr a \<longrightarrow> calcexp (length_exp p) ma = Inr b
          \<longrightarrow> calcexp (position p') (ma(k \<mapsto> x)) = Inr (a + b))
      \<and> chained ((k', p') # rest))"

definition starts_at_zero :: "(string \<times> field_spec) list \<Rightarrow> bool" where
  "starts_at_zero fs =
     (case fs of [] \<Rightarrow> True | (k, p) # rest \<Rightarrow> (\<forall>ma. calcexp (position p) ma = Inr 0))"

text \<open>What the encoder emits for one field: the supplied bytes, or the integer (0 when nothing is supplied) in big-endian.\<close>

definition encodes :: "(string \<rightharpoonup> pyval) \<Rightarrow> string \<Rightarrow> bytes \<Rightarrow> bool" where
  "encodes kw k b =
     (case kw k of
        Some (PBytes x) \<Rightarrow> b = x
      | Some (PInt n) \<Rightarrow> 0 \<le> n \<and> n < 256 ^ length b \<and> b = be_bytes (length b) n
      | None \<Rightarrow> b = be_bytes (length b) 0)"

definition bytes_value :: "bytes \<Rightarrow> int" where
  "bytes_value b = (case py_int_bytes b of Some n \<Rightarrow> n | None \<Rightarrow> from_bytes b)"

text \<open>The bytes emitted for a field are read back by \<open>handlesingle\<close> as the value that the keyword arguments give it.\<close>

definition reads_back :: "(string \<rightharpoonup> pyval) \<Rightarrow> string \<Rightarrow> bytes \<Rightarrow> bool" where
  "reads_back kw k b =
     (case kw k of
        None \<Rightarrow> False
      | Some (PInt n) \<Rightarrow> bytes_value b = n
      | Some (PBytes x) \<Rightarrow> bytes_value b = bytes_value x)"

definition init_fields :: "(string \<times> field_spec) list" where
  "init_fields = payload init_entry"

definition partial_init_kwargs :: "string \<rightharpoonup> pyval" where
  "partial_init_kwargs = [''lflen'' \<mapsto> PInt 1, ''localfeatures'' \<mapsto> PBytes [8]]"

definition ping_kwargs_50 :: "string \<rightharpoonup> pyval" where
  "ping_kwargs_50 =
     [''num_pong_bytes'' \<mapsto> PInt 4, ''byteslen'' \<mapsto> PInt 50,
      ''ignored'' \<mapsto> PBytes (replicate 50 0)]"

definition full_reestablish_kwargs :: "string \<rightharpoonup> pyval" where
  "full_reestablish_kwargs =
     [''channel_id'' \<mapsto> PBytes (replicate 32 7),
      ''next_local_commitment_number'' \<mapsto> PInt 1,
      ''next_remote_revocation_number'' \<mapsto> PInt 0,
      ''your_last_per_commitment_secret'' \<mapsto> PBytes (replicate 32 0),
      ''my_current_per_commitment_point'' \<mapsto> PBytes (replicate 33 2)]"

section \<open>Channels\<close>

text \<open>
  The channel record that \<open>HTLCStateMachine\<close> wraps, with the named tuples of
  \<open>lnutil\<close> as records. \<open>LocalState\<close> and \<open>RemoteState\<close> both have a \<open>ctn\<close>, an
  \<open>amount_msat\<close>, a \<open>next_htlc_id\<close> and a \<open>feerate\<close>: the fields carry the side as a
  prefix, and so do \<open>pubkey\<close> and \<open>privkey\<close> of a key pair (\<open>OnlyPubkeyKeypair\<close> is a
  key pair without private key). The fields are those the constructor calls of
  \<open>channel_establishment_flow\<close> name: only \<open>LocalState\<close> has a
  \<open>current_commitment_signature\<close>. An outpoint is a transaction id (hex) and an index.
\<close>

record keypair =
  kp_pubkey :: bytes
  kp_privkey :: "bytes option"

record channel_config =
  payment_basepoint :: keypair
  multisig_key :: keypair
  htlc_basepoint :: keypair
  delayed_basepoint :: keypair
  revocation_basepoint :: keypair
  to_self_delay :: int
  dust_limit_sat :: int
  max_htlc_value_in_flight_msat :: int
  max_accepted_htlcs :: int

record remote_state =
  remote_ctn :: int
  next_per_commitment_point :: bytes
  current_per_commitment_point :: "bytes option"
  remote_amount_msat :: int
  revocation_store :: "bytes list"
  remote_next_htlc_id :: int
  remote_feerate :: int

record local_state =
  local_ctn :: int
  per_commitment_secret_seed :: bytes
  local_amount_msat :: int
  local_next_htlc_id :: int
  funding_locked_received :: bool
  was_announced :: bool
  current_commitment_signature :: "bytes option"
  local_feerate :: int

record channel_constraints =
  capacity :: int
  is_initiator :: bool
  funding_txn_minimum_depth :: int

record chan =
  chan_node_id :: bytes
  channel_id :: bytes
  chan_short_channel_id :: "bytes option"
  funding_outpoint :: "string \<times> int"
  local_config :: channel_config
  remote_config :: channel_config
  remote_st :: remote_state
  local_st :: local_state
  constraints :: channel_constraints

text \<open>
  The peer with its channels. \<open>channel_reestablished\<close> is a
  \<open>defaultdict(asyncio.Future)\<close>: a key never touched holds a pending future, and
  \<open>set_result\<close> on a future that is done raises \<open>InvalidStateError\<close>.
\<close>

datatype future = Pending | Done

record lnpeer = peer +
  channel_state :: "bytes \<rightharpoonup> string"
  channels :: "bytes \<rightharpoonup> chan"
  channel_reestablished :: "bytes \<Rightarrow> future"




text \<open>
  \<open>reestablish_channel\<close> up to its \<open>await\<close> of the future (the peer is initialized;
  \<open>trigger_callback\<close> only notifies the user interface).
\<close>

definition reestablish_kwargs_of :: "chan \<Rightarrow> (string \<rightharpoonup> pyval)" where
  "reestablish_kwargs_of ch =
     [''channel_id'' \<mapsto> PBytes (channel_id ch),
      ''next_local_commitment_number'' \<mapsto> PInt (local_ctn (local_st ch) + 1),
      ''next_remote_revocation_number'' \<mapsto> PInt (remote_ctn (remote_st ch))]"

definition reestablish_channel ::
  "module_env \<Rightarrow> chan \<Rightarrow> 'a lnpeer_scheme \<Rightarrow> error + 'a lnpeer_scheme" where
  "reestablish_channel env ch p =
     (let chan_id = channel_id ch;
          p1 = p\<lparr>channel_state := (channel_state p)(chan_id \<mapsto> ''REESTABLISHING'')\<rparr>
      in case gen_msg (env_structured env) ''channel_reestablish'' (reestablish_kwargs_of ch) of
           Inl e \<Rightarrow> Inl e
         | Inr msg \<Rightarrow> send_message env msg p1)"

text \<open>A schema with the \<open>channel_reestablish\<close> entry, a channel and a peer for concrete runs.\<close>

definition schema1 :: schema where
  "schema1 = core_schema @ [(''channel_reestablish'', channel_reestablish_entry)]"

definition message_types1 :: message_types where
  "message_types1 =
     core_message_types @ [([0, 136], (''channel_reestablish'', channel_reestablish_entry))]"

definition env1 :: module_env where
  "env1 = \<lparr>env_structured = schema1, env_message_types = message_types1,
            env_hmac = toy_hmac, env_chacha = toy_chacha\<rparr>"

definition keypair0 :: keypair where
  "keypair0 = \<lparr>kp_pubkey = replicate 33 2, kp_privkey = None\<rparr>"

definition config0 :: channel_config where
  "config0 = \<lparr>payment_basepoint = keypair0, multisig_key = keypair0, htlc_basepoint = keypair0,
               delayed_basepoint = keypair0, revocation_basepoint = keypair0,
               to_self_delay = 143, dust_limit_sat = 10,
               max_htlc_value_in_flight_msat = 200000000, max_accepted_htlcs = 5\<rparr>"

definition chan0 :: chan where
  "chan0 = \<lparr>chan_node_id = replicate 33 3, channel_id = replicate 32 7,
             chan_short_channel_id = None, funding_outpoint = (concat (replicate 32 ''07''), 0),
             local_config = config0, remote_config = config0,
             remote_st = \<lparr>remote_ctn = 0, next_per_commitment_point = replicate 33 2,
                           current_per_commitment_point = None, remote_amount_msat = 0,
                           revocation_store = [], remote_next_htlc_id = 0,
                           remote_feerate = 20000\<rparr>,
             local_st = \<lparr>local_ctn = 0, per_commitment_secret_seed = replicate 32 1,
                          local_amount_msat = 100000000, local_next_htlc_id = 0,
                          funding_locked_received = False, was_announced = False,
                          current_commitment_signature = Some (replicate 64 9),
                          local_feerate = 20000\<rparr>,
             constraints = \<lparr>capacity = 100000, is_initiator = True,
                             funding_txn_minimum_depth = 3\<rparr>\<rparr>"

definition lnpeer0 :: lnpeer where
  "lnpeer0 = \<lparr>sk = replicate 32 1, rk = replicate 32 2, s_ck = replicate 32 3,
               r_ck = replicate 32 3, priv_sn = 0, priv_rn = 0, written = [],
               ping_time = 1000, channel_state = Map.empty,
               channels = [replicate 32 7 \<mapsto> chan0],
               channel_reestablished = (\<lambda>c. Pending)\<rparr>"


definition chan_unsigned :: chan where
  "chan_unsigned = chan0\<lparr>remote_st := (remote_st chan0)\<lparr>remote_ctn := - 1\<rparr>\<rparr>"

section \<open>Opening a channel\<close>

text \<open>
  Sequencing of steps that may raise, a dictionary lookup \<open>d[k]\<close>, \<open>assert\<close>,
  \<open>list.index\<close> and \<open>bytes.fromhex\<close> (which skips ASCII whitespace between bytes).
\<close>

definition then_do :: "error + 'a \<Rightarrow> ('a \<Rightarrow> error + 'b) \<Rightarrow> error + 'b" where
  "then_do r f = (case r of Inl e \<Rightarrow> Inl e | Inr x \<Rightarrow> f x)"

definition subscript :: "(string \<rightharpoonup> 'v) \<Rightarrow> string \<Rightarrow> error + 'v" where
  "subscript d k = (case d k of None \<Rightarrow> Inl KeyError | Some v \<Rightarrow> Inr v)"

definition py_assert :: "bool \<Rightarrow> error + unit" where
  "py_assert b = (if b then Inr () else Inl AssertionError)"

fun index_of :: "'a list \<Rightarrow> 'a \<Rightarrow> error + int" where
  "index_of [] x = Inl ValueError"
| "index_of (y # ys) x = (if y = x then Inr 0 else then_do (index_of ys x) (\<lambda>i. Inr (i + 1)))"

definition hex_value :: "char \<Rightarrow> nat option" where
  "hex_value c =
     (let n = of_char c :: nat in
      if 48 \<le> n \<and> n \<le> 57 then Some (n - 48)
      else if 97 \<le> n \<and> n \<le> 102 then Some (n - 87)
      else if 65 \<le> n \<and> n \<le> 70 then Some (n - 55)
      else None)"

fun fromhex :: "string \<Rightarrow> error + bytes" where
  "fromhex [] = Inr []"
| "fromhex [c] = (if bytes_space (of_char c) then Inr [] else Inl ValueError)"
| "fromhex (c # d # ds) =
     (if bytes_space (of_char c) then fromhex (d # ds)
      else
        (case (hex_value c, hex_value d) of
           (Some a, Some b) \<Rightarrow> then_do (fromhex ds) (\<lambda>r. Inr (of_nat (16 * a + b) # r))
         | _ \<Rightarrow> Inl ValueError))"

definition channel_id_from_funding_tx :: "string \<Rightarrow> int \<Rightarrow> error + bytes \<times> bytes" where
  "channel_id_from_funding_tx funding_txid funding_index =
     then_do (fromhex funding_txid) (\<lambda>b.
       let funding_txid_bytes = rev b;
           i = from_bytes funding_txid_bytes XOR funding_index
       in then_do (to_bytes i 32) (\<lambda>cid. Inr (cid, funding_txid_bytes)))"

text \<open>
  What \<open>channel_establishment_flow\<close> calls outside this module: the wallet
  (\<open>keystore.get_keypair\<close>, \<open>mktx\<close>), the key and script functions of \<open>lnutil\<close> and
  \<open>bitcoin\<close>, the commitment engine \<open>HTLCStateMachine\<close> (which wraps the channel
  record; \<open>sign_next_commitment\<close> returns the signature and \<open>receive_new_commitment\<close>
  checks one, both may update the channel), the network's \<open>broadcast_transaction\<close>, and
  the constant \<open>REV_GENESIS\<close>. A transaction is its id and its outputs, an output a
  triple of type, address and amount; \<open>'c\<close> is the type of the wallet configuration.
\<close>

record tx =
  txid :: string
  outputs :: "(int \<times> string \<times> int) list"

record 'c collaborators =
  get_keypair :: "int list \<Rightarrow> string \<Rightarrow> error + bytes \<times> bytes"
  get_per_commitment_secret_from_seed :: "bytes \<Rightarrow> int \<Rightarrow> bytes"
  secret_to_pubkey :: "int \<Rightarrow> bytes"
  funding_output_script :: "channel_config \<Rightarrow> channel_config \<Rightarrow> string"
  redeem_script_to_address :: "string \<Rightarrow> string \<Rightarrow> string"
  mktx :: "(int \<times> string \<times> int) list \<Rightarrow> string \<Rightarrow> 'c \<Rightarrow> int \<Rightarrow> error + tx"
  sign_next_commitment :: "chan \<Rightarrow> error + bytes \<times> chan"
  receive_new_commitment :: "bytes \<Rightarrow> chan \<Rightarrow> error + chan"
  broadcast_transaction :: "tx \<Rightarrow> bool \<times> string"
  rev_genesis :: bytes

definition keypair_generator :: "'c collaborators \<Rightarrow> string \<Rightarrow> int \<Rightarrow> int \<Rightarrow> error + keypair" where
  "keypair_generator ext password family i =
     then_do (get_keypair ext [family, i] password)
       (\<lambda>(pub, priv). Inr \<lparr>kp_pubkey = pub, kp_privkey = Some priv\<rparr>)"

definition only_pubkey_keypair :: "bytes \<Rightarrow> keypair" where
  "only_pubkey_keypair pub = \<lparr>kp_pubkey = pub, kp_privkey = None\<rparr>"

text \<open>
  \<open>channel_establishment_flow\<close> in four parts, cut at its two queue reads. The first
  part runs up to sending \<open>open_channel\<close> (the key families are 3 payment, 0 multisig,
  2 htlc, 4 delay, 1 revocation).
\<close>

definition make_local_config :: "'c collaborators \<Rightarrow> string \<Rightarrow> error + channel_config" where
  "make_local_config ext password =
     then_do (keypair_generator ext password 3 0) (\<lambda>payment.
     then_do (keypair_generator ext password 0 0) (\<lambda>multisig.
     then_do (keypair_generator ext password 2 0) (\<lambda>htlc.
     then_do (keypair_generator ext password 4 0) (\<lambda>delayed.
     then_do (keypair_generator ext password 1 0) (\<lambda>revocation.
       Inr \<lparr>payment_basepoint = payment, multisig_key = multisig, htlc_basepoint = htlc,
            delayed_basepoint = delayed, revocation_basepoint = revocation,
            to_self_delay = 143, dust_limit_sat = 10,
            max_htlc_value_in_flight_msat = 0xffffffffffffffff,
            max_accepted_htlcs = 5\<rparr>)))))"

definition open_channel_kwargs ::
  "'c collaborators \<Rightarrow> channel_config \<Rightarrow> bytes \<Rightarrow> int \<Rightarrow> int \<Rightarrow> bytes \<Rightarrow> (string \<rightharpoonup> pyval)" where
  "open_channel_kwargs ext lc per_commitment_point_first funding_sat push_msat temp_channel_id =
     [''temporary_channel_id'' \<mapsto> PBytes temp_channel_id,
      ''chain_hash'' \<mapsto> PBytes (rev_genesis ext),
      ''funding_satoshis'' \<mapsto> PInt funding_sat,
      ''push_msat'' \<mapsto> PInt push_msat,
      ''dust_limit_satoshis'' \<mapsto> PInt (dust_limit_sat lc),
      ''feerate_per_kw'' \<mapsto> PInt 20000,
      ''max_accepted_htlcs'' \<mapsto> PInt (max_accepted_htlcs lc),
      ''funding_pubkey'' \<mapsto> PBytes (kp_pubkey (multisig_key lc)),
      ''revocation_basepoint'' \<mapsto> PBytes (kp_pubkey (revocation_basepoint lc)),
      ''htlc_basepoint'' \<mapsto> PBytes (kp_pubkey (htlc_basepoint lc)),
      ''payment_basepoint'' \<mapsto> PBytes (kp_pubkey (payment_basepoint lc)),
      ''delayed_payment_basepoint'' \<mapsto> PBytes (kp_pubkey (delayed_basepoint lc)),
      ''first_per_commitment_point'' \<mapsto> PBytes per_commitment_point_first,
      ''to_self_delay'' \<mapsto> PInt (to_self_delay lc),
      ''max_htlc_value_in_flight_msat'' \<mapsto> PInt (max_htlc_value_in_flight_msat lc),
      ''channel_flags'' \<mapsto> PInt 1,
      ''channel_reserve_satoshis'' \<mapsto> PInt 10]"

definition send_open_channel ::
  "module_env \<Rightarrow> 'c collaborators \<Rightarrow> string \<Rightarrow> int \<Rightarrow> int \<Rightarrow> bytes \<Rightarrow> 'a peer_scheme
     \<Rightarrow> error + channel_config \<times> bytes \<times> 'a peer_scheme" where
  "send_open_channel env ext password funding_sat push_msat temp_channel_id p =
     then_do (make_local_config ext password) (\<lambda>lc.
     then_do (to_bytes 0x1f1e1d1c1b1a191817161514131211100f0e0d0c0b0a09080706050403020100 32)
       (\<lambda>seed.
     (let per_commitment_secret_first =
            get_per_commitment_secret_from_seed ext seed (2 ^ 48 - 1);
          per_commitment_point_first =
            secret_to_pubkey ext (from_bytes per_commitment_secret_first)
      in
     then_do (gen_msg (env_structured env) ''open_channel''
                (open_channel_kwargs ext lc per_commitment_point_first funding_sat push_msat
                   temp_channel_id)) (\<lambda>msg.
     then_do (send_message env msg p) (\<lambda>p1.
       Inr (lc, seed, p1))))))"

text \<open>
  The second part reads the \<open>accept_channel\<close> payload: the remote per-commitment
  point, the remote configuration, the minimum depth, and the three sanity checks.
\<close>

definition read_accept_channel ::
  "(string \<rightharpoonup> bytes) \<Rightarrow> error + bytes \<times> channel_config \<times> int" where
  "read_accept_channel payld =
     then_do (subscript payld ''first_per_commitment_point'') (\<lambda>remote_per_commitment_point.
     then_do (subscript payld ''payment_basepoint'') (\<lambda>payment.
     then_do (subscript payld ''funding_pubkey'') (\<lambda>funding.
     then_do (subscript payld ''htlc_basepoint'') (\<lambda>htlc.
     then_do (subscript payld ''delayed_payment_basepoint'') (\<lambda>delayed.
     then_do (subscript payld ''revocation_basepoint'') (\<lambda>revocation.
     then_do (subscript payld ''to_self_delay'') (\<lambda>delay.
     then_do (subscript payld ''dust_limit_satoshis'') (\<lambda>dust.
     then_do (subscript payld ''max_htlc_value_in_flight_msat'') (\<lambda>in_flight.
     then_do (subscript payld ''max_accepted_htlcs'') (\<lambda>accepted_htlcs.
     (let rc = \<lparr>payment_basepoint = only_pubkey_keypair payment,
                 multisig_key = only_pubkey_keypair funding,
                 htlc_basepoint = only_pubkey_keypair htlc,
                 delayed_basepoint = only_pubkey_keypair delayed,
                 revocation_basepoint = only_pubkey_keypair revocation,
                 to_self_delay = from_bytes delay,
                 dust_limit_sat = from_bytes dust,
                 max_htlc_value_in_flight_msat = from_bytes in_flight,
                 max_accepted_htlcs = from_bytes accepted_htlcs\<rparr>
      in
     then_do (subscript payld ''minimum_depth'') (\<lambda>depth.
     then_do (py_assert (dust_limit_sat rc < 600)) (\<lambda>u1.
     then_do (subscript payld ''htlc_minimum_msat'') (\<lambda>htlc_minimum.
     then_do (py_assert (from_bytes htlc_minimum < 600 * 1000)) (\<lambda>u2.
     then_do (py_assert (max_htlc_value_in_flight_msat rc \<ge> 198 * 1000 * 1000)) (\<lambda>u3.
       Inr (remote_per_commitment_point, rc, from_bytes depth)))))))))))))))))"

text \<open>
  The third part builds the funding transaction and the channel, has the commitment
  engine sign, and sends \<open>funding_created\<close>. \<open>bitcoin.TYPE_ADDRESS\<close> is 0.
\<close>

definition new_channel ::
  "bytes \<Rightarrow> bytes \<Rightarrow> string \<Rightarrow> int \<Rightarrow> channel_config \<Rightarrow> channel_config \<Rightarrow> bytes \<Rightarrow> bytes
     \<Rightarrow> int \<Rightarrow> int \<Rightarrow> int \<Rightarrow> chan" where
  "new_channel node_pubkey cid funding_txid funding_index lc rc remote_per_commitment_point
       seed funding_sat push_msat depth =
     \<lparr>chan_node_id = node_pubkey, channel_id = cid, chan_short_channel_id = None,
      funding_outpoint = (funding_txid, funding_index),
      local_config = lc, remote_config = rc,
      remote_st = \<lparr>remote_ctn = - 1,
                    next_per_commitment_point = remote_per_commitment_point,
                    current_per_commitment_point = None,
                    remote_amount_msat = push_msat,
                    revocation_store = [],
                    remote_next_htlc_id = 0,
                    remote_feerate = 20000\<rparr>,
      local_st = \<lparr>local_ctn = - 1,
                   per_commitment_secret_seed = seed,
                   local_amount_msat = funding_sat * 1000 - push_msat,
                   local_next_htlc_id = 0,
                   funding_locked_received = False,
                   was_announced = False,
                   current_commitment_signature = None,
                   local_feerate = 20000\<rparr>,
      constraints = \<lparr>capacity = funding_sat, is_initiator = True,
                      funding_txn_minimum_depth = depth\<rparr>\<rparr>"

definition send_funding_created ::
  "module_env \<Rightarrow> 'c collaborators \<Rightarrow> 'c \<Rightarrow> string \<Rightarrow> int \<Rightarrow> int \<Rightarrow> bytes \<Rightarrow> bytes
     \<Rightarrow> channel_config \<Rightarrow> bytes \<Rightarrow> bytes \<times> channel_config \<times> int \<Rightarrow> 'a peer_scheme
     \<Rightarrow> error + chan \<times> tx \<times> 'a peer_scheme" where
  "send_funding_created env ext config password funding_sat push_msat temp_channel_id
       node_pubkey lc seed accepted p =
     (case accepted of (remote_per_commitment_point, rc, depth) \<Rightarrow>
     (let redeem_script = funding_output_script ext lc rc;
          funding_address = redeem_script_to_address ext ''p2wsh'' redeem_script;
          funding_output = (0, funding_address, funding_sat)
      in
     then_do (mktx ext [funding_output] password config 1000) (\<lambda>funding_tx.
     then_do (index_of (outputs funding_tx) funding_output) (\<lambda>funding_index.
     then_do (channel_id_from_funding_tx (txid funding_tx) funding_index)
       (\<lambda>(cid, funding_txid_bytes).
     then_do (sign_next_commitment ext
                (new_channel node_pubkey cid (txid funding_tx) funding_index lc rc
                   remote_per_commitment_point seed funding_sat
                   push_msat depth)) (\<lambda>(sig_64, m).
     then_do (gen_msg (env_structured env) ''funding_created''
                [''temporary_channel_id'' \<mapsto> PBytes temp_channel_id,
                 ''funding_txid'' \<mapsto> PBytes funding_txid_bytes,
                 ''funding_output_index'' \<mapsto> PInt funding_index,
                 ''signature'' \<mapsto> PBytes sig_64]) (\<lambda>msg.
     then_do (send_message env msg p) (\<lambda>p2.
       Inr (m, funding_tx, p2)))))))))"

text \<open>
  The last part reads the \<open>funding_signed\<close> payload, has the engine check the remote
  signature, broadcasts the funding transaction and sets the counters.
\<close>

definition receive_funding_signed ::
  "'c collaborators \<Rightarrow> (string \<rightharpoonup> bytes) \<Rightarrow> chan \<Rightarrow> tx \<Rightarrow> error + chan" where
  "receive_funding_signed ext payld m funding_tx =
     then_do (subscript payld ''signature'') (\<lambda>remote_sig.
     then_do (receive_new_commitment ext remote_sig m) (\<lambda>m1.
     (case broadcast_transaction ext funding_tx of (success, broadcast_txid) \<Rightarrow>
     then_do (py_assert success) (\<lambda>u.
       Inr (m1\<lparr>remote_st := (remote_st m1)\<lparr>remote_ctn := 0\<rparr>,
               local_st := (local_st m1)\<lparr>local_ctn := 0,
                              current_commitment_signature := Some remote_sig\<rparr>\<rparr>)))))"

text \<open>
  The flow. \<open>accepted\<close> and \<open>funding_signed\<close> are the payloads that the reads of the
  \<open>channel_accepted\<close> and \<open>funding_signed\<close> queues return, \<open>node_pubkey\<close> is the
  peer's \<open>pubkey\<close>; the result is the channel and the peer.
\<close>

definition channel_establishment_flow ::
  "module_env \<Rightarrow> 'c collaborators \<Rightarrow> 'c \<Rightarrow> string \<Rightarrow> int \<Rightarrow> int \<Rightarrow> bytes \<Rightarrow> bytes
     \<Rightarrow> (string \<rightharpoonup> bytes) \<Rightarrow> (string \<rightharpoonup> bytes) \<Rightarrow> 'a peer_scheme
     \<Rightarrow> error + chan \<times> 'a peer_scheme" where
  "channel_establishment_flow env ext config password funding_sat push_msat temp_channel_id
       node_pubkey accepted funding_signed p =
     then_do (send_open_channel env ext password funding_sat push_msat temp_channel_id p)
       (\<lambda>(lc, seed, p1).
     then_do (read_accept_channel accepted) (\<lambda>remote.
     then_do (send_funding_created env ext config password funding_sat push_msat
                temp_channel_id node_pubkey lc seed remote p1)
       (\<lambda>(m, funding_tx, p2).
     then_do (receive_funding_signed ext funding_signed m funding_tx) (\<lambda>m1.
       Inr (m1, p2)))))"

text \<open>
  Modelled from the spec: the \<open>open_channel\<close> and \<open>funding_created\<close> entries of
  \<open>lightning.json\<close>, which is not among the sources, with the field widths of BOLT 2;
  collaborators, payloads and arguments for concrete runs of the flow.
\<close>

definition open_channel_entry :: msg_spec where
  "open_channel_entry = \<lparr>msg_type = ''32'', payload =
     [(''chain_hash'', \<lparr>position = ''0'', length_exp = ''32'', feature = False\<rparr>),
      (''temporary_channel_id'', \<lparr>position = ''32'', length_exp = ''32'', feature = False\<rparr>),
      (''funding_satoshis'', \<lparr>position = ''64'', length_exp = ''8'', feature = False\<rparr>),
      (''push_msat'', \<lparr>position = ''72'', length_exp = ''8'', feature = False\<rparr>),
      (''dust_limit_satoshis'', \<lparr>position = ''80'', length_exp = ''8'', feature = False\<rparr>),
      (''max_htlc_value_in_flight_msat'', \<lparr>position = ''88'', length_exp = ''8'', feature = False\<rparr>),
      (''channel_reserve_satoshis'', \<lparr>position = ''96'', length_exp = ''8'', feature = False\<rparr>),
      (''htlc_minimum_msat'', \<lparr>position = ''104'', length_exp = ''8'', feature = False\<rparr>),
      (''feerate_per_kw'', \<lparr>position = ''112'', length_exp = ''4'', feature = False\<rparr>),
      (''to_self_delay'', \<lparr>position = ''116'', length_exp = ''2'', feature = False\<rparr>),
      (''max_accepted_htlcs'', \<lparr>position = ''118'', length_exp = ''2'', feature = False\<rparr>),
      (''funding_pubkey'', \<lparr>position = ''120'', length_exp = ''33'', feature = False\<rparr>),
      (''revocation_basepoint'', \<lparr>position = ''153'', length_exp = ''33'', feature = False\<rparr>),
      (''payment_basepoint'', \<lparr>position = ''186'', length_exp = ''33'', feature = False\<rparr>),
      (''delayed_payment_basepoint'', \<lparr>position = ''219'', length_exp = ''33'', feature = False\<rparr>),
      (''htlc_basepoint'', \<lparr>position = ''252'', length_exp = ''33'', feature = False\<rparr>),
      (''first_per_commitment_point'', \<lparr>position = ''285'', length_exp = ''33'', feature = False\<rparr>),
      (''channel_flags'', \<lparr>position = ''318'', length_exp = ''1'', feature = False\<rparr>)]\<rparr>"

definition funding_created_entry :: msg_spec where
  "funding_created_entry = \<lparr>msg_type = ''34'', payload =
     [(''temporary_channel_id'', \<lparr>position = ''0'', length_exp = ''32'', feature = False\<rparr>),
      (''funding_txid'', \<lparr>position = ''32'', length_exp = ''32'', feature = False\<rparr>),
      (''funding_output_index'', \<lparr>position = ''64'', length_exp = ''2'', feature = False\<rparr>),
      (''signature'', \<lparr>position = ''66'', length_exp = ''64'', feature = False\<rparr>)]\<rparr>"

definition schema2 :: schema where
  "schema2 = core_schema @ [(''open_channel'', open_channel_entry),
                            (''funding_created'', funding_created_entry)]"

definition message_types2 :: message_types where
  "message_types2 =
     core_message_types @ [([0, 32], (''open_channel'', open_channel_entry)),
                           ([0, 34], (''funding_created'', funding_created_entry))]"

definition env2 :: module_env where
  "env2 = \<lparr>env_structured = schema2, env_message_types = message_types2,
            env_hmac = toy_hmac, env_chacha = toy_chacha\<rparr>"

definition ext0 :: "unit collaborators" where
  "ext0 = \<lparr>get_keypair = (\<lambda>path password. Inr (replicate 33 2, replicate 32 1)),
            get_per_commitment_secret_from_seed = (\<lambda>seed i. seed),
            secret_to_pubkey = (\<lambda>secret. replicate 33 3),
            funding_output_script = (\<lambda>lc rc. ''0020''),
            redeem_script_to_address = (\<lambda>kind script. ''tb1q''),
            mktx = (\<lambda>outs password config fee.
                      Inr \<lparr>txid = concat (replicate 32 ''07''), outputs = outs\<rparr>),
            sign_next_commitment = (\<lambda>m. Inr (replicate 64 5, m)),
            receive_new_commitment = (\<lambda>remote_sig m. Inr m),
            broadcast_transaction = (\<lambda>t. (True, txid t)),
            rev_genesis = replicate 32 6\<rparr>"

definition accept_payload :: "bytes \<Rightarrow> (string \<rightharpoonup> bytes)" where
  "accept_payload dust =
     [''first_per_commitment_point'' \<mapsto> replicate 33 4,
      ''payment_basepoint'' \<mapsto> replicate 33 2,
      ''funding_pubkey'' \<mapsto> replicate 33 2,
      ''htlc_basepoint'' \<mapsto> replicate 33 2,
      ''delayed_payment_basepoint'' \<mapsto> replicate 33 2,
      ''revocation_basepoint'' \<mapsto> replicate 33 2,
      ''to_self_delay'' \<mapsto> [0, 144],
      ''dust_limit_satoshis'' \<mapsto> dust,
      ''max_htlc_value_in_flight_msat'' \<mapsto> [0, 0, 0, 0, 255, 255, 255, 255],
      ''max_accepted_htlcs'' \<mapsto> [0, 5],
      ''minimum_depth'' \<mapsto> [0, 0, 0, 3],
      ''htlc_minimum_msat'' \<mapsto> [0, 0, 0, 0, 0, 0, 0, 1]]"

definition signed_payload :: "string \<rightharpoonup> bytes" where
  "signed_payload = [''channel_id'' \<mapsto> replicate 32 7, ''signature'' \<mapsto> replicate 64 9]"

definition flow0 :: "bytes \<Rightarrow> error + chan \<times> peer" where
  "flow0 dust =
     channel_establishment_flow env2 ext0 () ''pw'' 100000 0 (replicate 32 8) (replicate 33 3)
       (accept_payload dust) signed_payload peer0"

definition succeeded :: "error + 'a \<Rightarrow> bool" where
  "succeeded r = (case r of Inl e \<Rightarrow> False | Inr x \<Rightarrow> True)"

text \<open>
  The fields of an \<open>accept_channel\<close> payload that the flow reads, and the byte strings
  that a remote state holds.
\<close>

definition accept_channel_fields :: "string list" where
  "accept_channel_fields =
     [''first_per_commitment_point'', ''payment_basepoint'', ''funding_pubkey'',
      ''htlc_basepoint'', ''delayed_payment_basepoint'', ''revocation_basepoint'',
      ''to_self_delay'', ''dust_limit_satoshis'', ''max_htlc_value_in_flight_msat'',
      ''max_accepted_htlcs'', ''minimum_depth'', ''htlc_minimum_msat'']"



section \<open>The schema loader\<close>

lemma load_core_schema: "load_message_types core_schema = Inr core_message_types"
  by code_simp

lemma load_schema1: "load_message_types schema1 = Inr message_types1"
  by code_simp

lemma load_loop_mem:
  "load_loop s mt0 = Inr mt \<Longrightarrow> (b, kv) \<in> set mt \<Longrightarrow> (b, kv) \<in> set mt0 \<or> kv \<in> set s"
  by (induction s mt0 rule: load_loop.induct)
     (auto split: if_splits option.splits sum.splits)

text \<open>
  When the module has been imported (the loader and its final assertion passed), the
  type code \<open>0x0010\<close> is bound to the handler of the schema's \<open>init\<close> entry.
\<close>

lemma loaded_init:
  assumes "load_message_types structured = Inr mt"
    and "distinct (map fst structured)"
    and "map_of structured ''init'' = Some entry"
  shows "map_of mt [0, 16] = Some (''init'', entry)"
proof -
  from assms(1) obtain k v where l: "load_loop structured [] = Inr mt"
    and m: "map_of mt [0, 16] = Some (k, v)" and k: "k @ ''_handler'' = ''init_handler''"
    by (auto simp: load_message_types_def split: sum.splits option.splits if_splits)
  from k have k': "k = ''init''" by simp
  from m have "([0, 16], (k, v)) \<in> set mt" by (rule map_of_SomeD)
  with l have "(k, v) \<in> set structured" using load_loop_mem by fastforce
  with assms(2) have "map_of structured k = Some v" by simp
  with assms(3) k' have "v = entry" by simp
  with m k' show ?thesis by simp
qed

section \<open>The init scenario of the codec\<close>

lemma gen_loop_init:
  "gen_loop (payload init_entry) init_kwargs Map.empty [0, 16] = Inr [0, 16, 0, 0, 0, 1, 8]"
  by code_simp

lemma init_type: "py_int_str (msg_type init_entry) = Some 16"
  by code_simp

lemma to_bytes_16: "to_bytes 16 2 = Inr [0, 16]"
  by code_simp

lemma handler_init_empty:
  "handler ''init'' init_entry [0, 0, 0, 0] =
     Inr (''init'', [''gflen'' \<mapsto> [0, 0], ''globalfeatures'' \<mapsto> [], ''lflen'' \<mapsto> [0, 0],
                    ''localfeatures'' \<mapsto> []])"
  by (simp add: handler_def init_entry_def calcexp_def handlesingle_def py_int_str_def
      py_int_literal_def parse_digits_def is_digit_def str_space_def bytes_space_def
      as_vals_def py_int_bytes_def from_bytes_def py_slice_def slice_index_def)

text \<open>
  Claim C8. For every schema that the module loads and whose \<open>init\<close> entry has the
  layout above, \<open>gen_msg("init", gflen=0, lflen=1, localfeatures=0x08)\<close> returns the
  bytes \<open>00 10 00 00 00 01 08\<close>, and \<open>decode_msg\<close> of \<open>00 10 00 00 00 00\<close> returns
  the name \<open>init\<close> with a field map in which \<open>gflen\<close> and \<open>lflen\<close> are two zero
  bytes, that is the integer 0 (the two feature vectors are empty).
\<close>

theorem init_codec_scenario:
  assumes "load_message_types structured = Inr mt"
    and "distinct (map fst structured)"
    and "map_of structured ''init'' = Some init_entry"
  shows "gen_msg structured ''init'' init_kwargs = Inr [0, 16, 0, 0, 0, 1, 8] \<and>
         (\<exists>ma. decode_msg mt [0, 16, 0, 0, 0, 0] = Inr (''init'', ma) \<and>
               ma = [''gflen'' \<mapsto> [0, 0], ''globalfeatures'' \<mapsto> [], ''lflen'' \<mapsto> [0, 0],
                     ''localfeatures'' \<mapsto> []] \<and>
               map_option from_bytes (ma ''gflen'') = Some 0 \<and>
               map_option from_bytes (ma ''lflen'') = Some 0)"
proof -
  have g: "gen_msg structured ''init'' init_kwargs = Inr [0, 16, 0, 0, 0, 1, 8]"
    by (simp add: gen_msg_def assms(3) init_type to_bytes_16 gen_loop_init)
  have m: "map_of mt [0, 16] = Some (''init'', init_entry)"
    using assms by (rule loaded_init)
  have d: "decode_msg mt [0, 16, 0, 0, 0, 0] =
      Inr (''init'', [''gflen'' \<mapsto> [0, 0], ''globalfeatures'' \<mapsto> [], ''lflen'' \<mapsto> [0, 0],
                     ''localfeatures'' \<mapsto> []])"
    by (simp add: decode_msg_def m handler_init_empty)
  show ?thesis using g d by (simp add: from_bytes_def)
qed

theorem init_codec_scenario_witness:
  "gen_msg core_schema ''init'' init_kwargs = Inr [0, 16, 0, 0, 0, 1, 8] \<and>
   (\<exists>ma. decode_msg core_message_types [0, 16, 0, 0, 0, 0] = Inr (''init'', ma) \<and>
         ma = [''gflen'' \<mapsto> [0, 0], ''globalfeatures'' \<mapsto> [], ''lflen'' \<mapsto> [0, 0],
               ''localfeatures'' \<mapsto> []] \<and>
         map_option from_bytes (ma ''gflen'') = Some 0 \<and>
         map_option from_bytes (ma ''lflen'') = Some 0)"
proof -
  have d: "distinct (map fst core_schema)" by (simp add: core_schema_def)
  have i: "map_of core_schema ''init'' = Some init_entry" by (simp add: core_schema_def)
  show ?thesis using init_codec_scenario [OF load_core_schema d i] .
qed

section \<open>Feature fields in the encoder\<close>

text \<open>
  A name that is not bound in \<open>lengths\<close> cannot be looked up by an expression that
  evaluates over \<open>lengths\<close>; rebinding it in any larger dictionary changes nothing.
\<close>

lemma handlesingle_unused:
  "handlesingle t L = Inr v \<Longrightarrow> L f = None \<Longrightarrow> handlesingle t (M(f := y)) = handlesingle t M"
  by (auto simp: handlesingle_def split: option.splits)

lemma eval_terms_unused:
  "eval_terms g acc ts L = Inr v \<Longrightarrow> L f = None
    \<Longrightarrow> eval_terms g acc' ts (M(f := y)) = eval_terms g acc' ts M"
proof (induction ts arbitrary: acc acc')
  case Nil
  then show ?case by simp
next
  case (Cons t ts)
  from Cons.prems(1) obtain n where n: "handlesingle t L = Inr n"
    and r: "eval_terms g (g acc n) ts L = Inr v"
    by (auto split: sum.splits)
  have h: "handlesingle t (M(f := y)) = handlesingle t M"
    using n Cons.prems(2) by (rule handlesingle_unused)
  have ih: "\<And>a. eval_terms g a ts (M(f := y)) = eval_terms g a ts M"
    using Cons.IH [OF r Cons.prems(2)] .
  show ?case
    by (simp only: eval_terms.simps h ih)
qed

lemma calcexp_unused:
  "calcexp e L = Inr v \<Longrightarrow> L f = None \<Longrightarrow> calcexp e (M(f := y)) = calcexp e M"
  unfolding calcexp_def
  by (auto split: if_splits simp del: fun_upd_apply intro: eval_terms_unused)

lemma clone_upd:
  "clone L (kw(f := x)) =
     (clone L kw)(f := (case x of None \<Rightarrow> map_option PInt (L f) | Some v \<Rightarrow> Some v))"
  by (auto simp: clone_def map_add_def fun_eq_iff split: option.splits)

lemma gen_loop_ignores:
  "lengths f = None \<Longrightarrow> \<forall>(k, p) \<in> set fs. k = f \<longrightarrow> feature p
    \<Longrightarrow> gen_loop fs (kw(f := x)) lengths data = gen_loop fs kw lengths data"
proof (induction fs arbitrary: lengths data)
  case Nil
  then show ?case by simp
next
  case (Cons a rest)
  obtain k poslenMap where a: "a = (k, poslenMap)" by (cases a)
  have rest: "\<forall>(k, p) \<in> set rest. k = f \<longrightarrow> feature p"
    using Cons.prems(2) by simp
  show ?case
  proof (cases "feature poslenMap")
    case True
    with a Cons.IH [of lengths data, OF Cons.prems(1) rest] show ?thesis by simp
  next
    case False
    with Cons.prems(2) a have kf: "k \<noteq> f" by auto
    let ?L = "\<lambda>k. map_option PInt (lengths k)"
    show ?thesis
    proof (cases "calcexp (length_exp poslenMap) ?L")
      case (Inl e)
      with False a show ?thesis by simp
    next
      case (Inr leng0)
      have Lf: "?L f = None" using Cons.prems(1) by simp
      have c: "calcexp (length_exp poslenMap) (clone lengths (kw(f := x)))
          = calcexp (length_exp poslenMap) (clone lengths kw)"
        unfolding clone_upd using Inr Lf by (rule calcexp_unused)
      have rec: "\<And>b. gen_loop rest (kw(f := x)) (lengths(k \<mapsto> int (length b))) (data @ b)
          = gen_loop rest kw (lengths(k \<mapsto> int (length b))) (data @ b)"
        using kf Cons.prems(1) by (intro Cons.IH rest) simp
      have p: "(kw(f := x)) k = kw k" using kf by simp
      show ?thesis
        by (simp only: a gen_loop.simps c rec p False if_False)
    qed
  qed
qed

lemma gen_loop_filter:
  "gen_loop (filter (\<lambda>(k, p). \<not> feature p) fs) kw lengths data = gen_loop fs kw lengths data"
proof (induction fs arbitrary: lengths data)
  case Nil
  then show ?case by simp
next
  case (Cons a rest)
  obtain k poslenMap where a: "a = (k, poslenMap)" by (cases a)
  show ?case
  proof (cases "feature poslenMap")
    case True
    with a Cons.IH show ?thesis by simp
  next
    case False
    have "filter (\<lambda>(k, p). \<not> feature p) (a # rest) = a # filter (\<lambda>(k, p). \<not> feature p) rest"
      using False a by simp
    then show ?thesis
      unfolding a by (simp only: gen_loop.simps Cons.IH)
  qed
qed

lemma map_of_without_features:
  "map_of (map (\<lambda>(n, e). (n, without_features e)) s) name = map_option without_features (map_of s name)"
  by (induction s) auto

lemma gen_reestablish_bytes:
  "gen_msg reestablish_schema ''channel_reestablish'' reestablish_kwargs =
     Inr ([0, 136] @ replicate 32 7 @ [0, 0, 0, 0, 0, 0, 0, 1] @ [0, 0, 0, 0, 0, 0, 0, 0])"
  by code_simp

text \<open>
  Claim C10. For every message of the schema, every feature field \<open>f\<close> of its payload
  and every set of keyword arguments, \<open>gen_msg\<close> returns the same result (bytes or
  exception) whatever is supplied, or not supplied, for \<open>f\<close>; and its result is the one
  of the schema in which the feature fields are removed from every payload, so no
  feature field is ever part of the emitted bytes.
\<close>

theorem gen_msg_skips_features:
  assumes "map_of structured name = Some entry"
    and "distinct (map fst (payload entry))"
    and "(f, p) \<in> set (payload entry)"
    and "feature p"
  shows "gen_msg structured name (kwargs(f := x)) = gen_msg structured name kwargs \<and>
         gen_msg structured name kwargs =
           gen_msg (map (\<lambda>(n, e). (n, without_features e)) structured) name kwargs"
proof -
  have only: "\<forall>(k, q) \<in> set (payload entry). k = f \<longrightarrow> feature q"
  proof (clarify)
    fix q assume "(f, q) \<in> set (payload entry)"
    with assms(2,3) have "q = p" by (meson eq_key_imp_eq_value)
    with assms(4) show "feature q" by simp
  qed
  have ign: "\<And>d. gen_loop (payload entry) (kwargs(f := x)) Map.empty d
      = gen_loop (payload entry) kwargs Map.empty d"
    by (rule gen_loop_ignores [OF _ only]) simp
  have a: "gen_msg structured name (kwargs(f := x)) = gen_msg structured name kwargs"
    by (simp add: gen_msg_def assms(1) ign split: option.splits sum.splits)
  have b: "gen_msg structured name kwargs =
           gen_msg (map (\<lambda>(n, e). (n, without_features e)) structured) name kwargs"
  proof -
    have m: "map_of (map (\<lambda>(n, e). (n, without_features e)) structured) name
        = Some (without_features entry)"
      by (simp add: map_of_without_features assms(1))
    have t: "msg_type (without_features entry) = msg_type entry"
      and q: "payload (without_features entry) = filter (\<lambda>(k, p). \<not> feature p) (payload entry)"
      by (simp_all add: without_features_def)
    show ?thesis
      unfolding gen_msg_def m assms(1) option.case t q gen_loop_filter ..
  qed
  from a b show ?thesis ..
qed

theorem gen_msg_skips_features_witness:
  "gen_msg reestablish_schema ''channel_reestablish''
      (reestablish_kwargs(''my_current_per_commitment_point'' := Some (PBytes (replicate 33 2))))
     = gen_msg reestablish_schema ''channel_reestablish'' reestablish_kwargs \<and>
   gen_msg reestablish_schema ''channel_reestablish'' reestablish_kwargs =
     gen_msg (map (\<lambda>(n, e). (n, without_features e)) reestablish_schema)
       ''channel_reestablish'' reestablish_kwargs \<and>
   gen_msg reestablish_schema ''channel_reestablish'' reestablish_kwargs =
     Inr ([0, 136] @ replicate 32 7 @ [0, 0, 0, 0, 0, 0, 0, 1] @ [0, 0, 0, 0, 0, 0, 0, 0])"
proof -
  have 1: "map_of reestablish_schema ''channel_reestablish'' = Some channel_reestablish_entry"
    by (simp add: reestablish_schema_def)
  have 2: "distinct (map fst (payload channel_reestablish_entry))"
    by (simp add: channel_reestablish_entry_def)
  have 3: "(''my_current_per_commitment_point'',
            \<lparr>position = ''80'', length_exp = ''33'', feature = True\<rparr>)
           \<in> set (payload channel_reestablish_entry)"
    by (simp add: channel_reestablish_entry_def)
  show ?thesis
    using gen_msg_skips_features [OF 1 2 3, where x = "Some (PBytes (replicate 33 2))"
        and kwargs = reestablish_kwargs] gen_reestablish_bytes
    by simp
qed

section \<open>Nonce counters and key rotation\<close>

lemma get_bolt8_hkdf_ok:
  "\<forall>k m. length (hmac k m) = 32
    \<Longrightarrow> get_bolt8_hkdf hmac salt ikm = Inr (hkdf_ck hmac salt ikm, hkdf_k hmac salt ikm)"
  by (simp add: get_bolt8_hkdf_def hkdf_ck_def hkdf_k_def Let_def)

lemma sn_step:
  "priv_sn p \<noteq> 999 \<Longrightarrow> sn hmac p = Inr (priv_sn p, p\<lparr>priv_sn := priv_sn p + 1\<rparr>)"
  by (simp add: sn_def Let_def)

lemma sn_rotate:
  "\<forall>k m. length (hmac k m) = 32 \<Longrightarrow> priv_sn p = 999
    \<Longrightarrow> sn hmac p = Inr (999, p\<lparr>s_ck := hkdf_ck hmac (s_ck p) (sk p),
                                  sk := hkdf_k hmac (s_ck p) (sk p), priv_sn := 0\<rparr>)"
  by (simp add: sn_def Let_def get_bolt8_hkdf_ok)

lemma rn_step:
  "priv_rn p \<noteq> 999 \<Longrightarrow> rn hmac p = Inr ((priv_rn p, rk p), p\<lparr>priv_rn := priv_rn p + 1\<rparr>)"
  by (simp add: rn_def Let_def)

lemma rn_rotate:
  "\<forall>k m. length (hmac k m) = 32 \<Longrightarrow> priv_rn p = 999
    \<Longrightarrow> rn hmac p = Inr ((999, rk p), p\<lparr>r_ck := hkdf_ck hmac (r_ck p) (rk p),
                                          rk := hkdf_k hmac (r_ck p) (rk p), priv_rn := 0\<rparr>)"
  by (simp add: rn_def Let_def get_bolt8_hkdf_ok)

lemma counter_values:
  "map (\<lambda>i. c + int i) [0..<Suc n] = c # map (\<lambda>i. (c + 1) + int i) [0..<n]"
  by (simp add: upt_conv_Cons map_Suc_upt [symmetric] del: upt_Suc)

lemma sn_uses_within:
  "0 \<le> priv_sn p \<Longrightarrow> priv_sn p + int n \<le> 999
    \<Longrightarrow> sn_uses hmac n p =
          Inr (map (\<lambda>i. priv_sn p + int i) [0..<n], p\<lparr>priv_sn := priv_sn p + int n\<rparr>)"
proof (induction n arbitrary: p)
  case 0
  then show ?case by simp
next
  case (Suc n)
  let ?p1 = "p\<lparr>priv_sn := priv_sn p + 1\<rparr>"
  have s: "sn hmac p = Inr (priv_sn p, ?p1)"
    using Suc.prems by (intro sn_step) simp
  have r: "sn_uses hmac n ?p1 =
      Inr (map (\<lambda>i. priv_sn ?p1 + int i) [0..<n], ?p1\<lparr>priv_sn := priv_sn ?p1 + int n\<rparr>)"
    using Suc.prems by (intro Suc.IH) simp_all
  show ?case
    unfolding sn_uses.simps s counter_values using r by (simp add: add.assoc)
qed

lemma rn_uses_within:
  "0 \<le> priv_rn p \<Longrightarrow> priv_rn p + int n \<le> 999
    \<Longrightarrow> rn_uses hmac n p =
          Inr (map (\<lambda>i. (priv_rn p + int i, rk p)) [0..<n], p\<lparr>priv_rn := priv_rn p + int n\<rparr>)"
proof (induction n arbitrary: p)
  case 0
  then show ?case by simp
next
  case (Suc n)
  let ?p1 = "p\<lparr>priv_rn := priv_rn p + 1\<rparr>"
  have s: "rn hmac p = Inr ((priv_rn p, rk p), ?p1)"
    using Suc.prems by (intro rn_step) simp
  have r: "rn_uses hmac n ?p1 =
      Inr (map (\<lambda>i. (priv_rn ?p1 + int i, rk ?p1)) [0..<n], ?p1\<lparr>priv_rn := priv_rn ?p1 + int n\<rparr>)"
    using Suc.prems by (intro Suc.IH) simp_all
  have m: "map (\<lambda>i. (priv_rn p + int i, rk p)) [0..<Suc n]
      = (priv_rn p, rk p) # map (\<lambda>i. (priv_rn p + 1 + int i, rk p)) [0..<n]"
    by (simp add: upt_conv_Cons map_Suc_upt [symmetric] del: upt_Suc)
  show ?case
    unfolding rn_uses.simps s m using r by (simp add: add.assoc)
qed

lemma sn_uses_append:
  "sn_uses hmac n p = Inr (xs, p1) \<Longrightarrow> sn hmac p1 = Inr (x, p2)
    \<Longrightarrow> sn_uses hmac (Suc n) p = Inr (xs @ [x], p2)"
proof (induction n arbitrary: p xs)
  case 0
  then show ?case by simp
next
  case (Suc n)
  from Suc.prems(1) obtain y q ys where s: "sn hmac p = Inr (y, q)"
    and r: "sn_uses hmac n q = Inr (ys, p1)" and xs: "xs = y # ys"
    by (auto split: sum.splits prod.splits)
  have "sn_uses hmac (Suc n) q = Inr (ys @ [x], p2)"
    using r Suc.prems(2) by (rule Suc.IH)
  then show ?case
    using s xs by (simp del: sn_uses.simps add: sn_uses.simps(2) [of hmac "Suc n"])
qed

lemma rn_uses_append:
  "rn_uses hmac n p = Inr (xs, p1) \<Longrightarrow> rn hmac p1 = Inr (x, p2)
    \<Longrightarrow> rn_uses hmac (Suc n) p = Inr (xs @ [x], p2)"
proof (induction n arbitrary: p xs)
  case 0
  then show ?case by simp
next
  case (Suc n)
  from Suc.prems(1) obtain y q ys where s: "rn hmac p = Inr (y, q)"
    and r: "rn_uses hmac n q = Inr (ys, p1)" and xs: "xs = y # ys"
    by (auto split: sum.splits prod.splits)
  have "rn_uses hmac (Suc n) q = Inr (ys @ [x], p2)"
    using r Suc.prems(2) by (rule Suc.IH)
  then show ?case
    using s xs by (simp del: rn_uses.simps add: rn_uses.simps(2) [of hmac "Suc n"])
qed

lemma thousand: "(1000::nat) = Suc 999"
  by simp

lemma upt_last: "[0..<Suc 999] = [0..<999] @ [999]"
  by (rule upt_Suc_append) simp

lemma sn_epoch:
  assumes "\<forall>k m. length (hmac k m) = 32" and "priv_sn p = 0"
  shows "sn_uses hmac 1000 p =
           Inr (map int [0..<1000],
                p\<lparr>s_ck := hkdf_ck hmac (s_ck p) (sk p),
                   sk := hkdf_k hmac (s_ck p) (sk p), priv_sn := 0\<rparr>)"
proof -
  have a: "sn_uses hmac 999 p = Inr (map int [0..<999], p\<lparr>priv_sn := 999\<rparr>)"
    using sn_uses_within [of p 999 hmac] assms(2) by simp
  have b: "sn hmac (p\<lparr>priv_sn := 999\<rparr>) =
      Inr (999, p\<lparr>s_ck := hkdf_ck hmac (s_ck p) (sk p),
                   sk := hkdf_k hmac (s_ck p) (sk p), priv_sn := 0\<rparr>)"
    using sn_rotate [OF assms(1), of "p\<lparr>priv_sn := 999\<rparr>"] by simp
  have "sn_uses hmac (Suc 999) p =
      Inr (map int [0..<999] @ [999],
           p\<lparr>s_ck := hkdf_ck hmac (s_ck p) (sk p),
              sk := hkdf_k hmac (s_ck p) (sk p), priv_sn := 0\<rparr>)"
    using a b by (rule sn_uses_append)
  moreover have "map int [0..<999] @ [999] = map int [0..<Suc 999]"
    by (simp only: upt_last map_append list.map of_nat_numeral)
  ultimately show ?thesis by (simp only: thousand)
qed

lemma rn_epoch:
  assumes "\<forall>k m. length (hmac k m) = 32" and "priv_rn p = 0"
  shows "rn_uses hmac 1000 p =
           Inr (map (\<lambda>i. (int i, rk p)) [0..<1000],
                p\<lparr>r_ck := hkdf_ck hmac (r_ck p) (rk p),
                   rk := hkdf_k hmac (r_ck p) (rk p), priv_rn := 0\<rparr>)"
proof -
  have a: "rn_uses hmac 999 p = Inr (map (\<lambda>i. (int i, rk p)) [0..<999], p\<lparr>priv_rn := 999\<rparr>)"
    using rn_uses_within [of p 999 hmac] assms(2) by simp
  have b: "rn hmac (p\<lparr>priv_rn := 999\<rparr>) =
      Inr ((999, rk p), p\<lparr>r_ck := hkdf_ck hmac (r_ck p) (rk p),
                   rk := hkdf_k hmac (r_ck p) (rk p), priv_rn := 0\<rparr>)"
    using rn_rotate [OF assms(1), of "p\<lparr>priv_rn := 999\<rparr>"] by simp
  have "rn_uses hmac (Suc 999) p =
      Inr (map (\<lambda>i. (int i, rk p)) [0..<999] @ [(999, rk p)],
           p\<lparr>r_ck := hkdf_ck hmac (r_ck p) (rk p),
              rk := hkdf_k hmac (r_ck p) (rk p), priv_rn := 0\<rparr>)"
    using a b by (rule rn_uses_append)
  moreover have "map (\<lambda>i. (int i, rk p)) [0..<999] @ [(999, rk p)]
      = map (\<lambda>i. (int i, rk p)) [0..<Suc 999]"
    by (simp only: upt_last map_append list.map of_nat_numeral)
  ultimately show ?thesis by (simp only: thousand)
qed

text \<open>
  Claim C2. Let HMAC-SHA256 return 32-byte digests and let a direction's counter be 0
  (as after the handshake or after a rotation). Then for every \<open>n \<le> 999\<close> the first
  \<open>n\<close> calls of \<open>sn()\<close> return \<open>0, 1, \<dots>, n - 1\<close>, a strictly increasing sequence, and
  change nothing but \<open>_sn\<close>, which becomes \<open>n\<close>; the first 1000 calls return
  \<open>0, \<dots>, 999\<close> and leave the state with \<open>s_ck\<close> and \<open>sk\<close> replaced by the two halves
  of \<open>HKDF(s_ck, sk)\<close> and \<open>_sn = 0\<close>, the receiving fields untouched. The same holds
  for \<open>rn()\<close> with \<open>r_ck\<close>, \<open>rk\<close> and \<open>_rn\<close> (each call also returning the key in force),
  the sending fields untouched.
\<close>

theorem nonce_counters_rotate:
  assumes "\<forall>k m. length (hmac k m) = 32"
  shows
    "(priv_sn p = 0 \<longrightarrow>
        (\<forall>n \<le> 999. sn_uses hmac n p = Inr (map int [0..<n], p\<lparr>priv_sn := int n\<rparr>) \<and>
                    sorted_wrt (<) (map int [0..<n])) \<and>
        sn_uses hmac 1000 p =
          Inr (map int [0..<1000],
               p\<lparr>s_ck := hkdf_ck hmac (s_ck p) (sk p),
                  sk := hkdf_k hmac (s_ck p) (sk p), priv_sn := 0\<rparr>)) \<and>
     (priv_rn p = 0 \<longrightarrow>
        (\<forall>n \<le> 999. rn_uses hmac n p =
                      Inr (map (\<lambda>i. (int i, rk p)) [0..<n], p\<lparr>priv_rn := int n\<rparr>) \<and>
                    sorted_wrt (<) (map int [0..<n])) \<and>
        rn_uses hmac 1000 p =
          Inr (map (\<lambda>i. (int i, rk p)) [0..<1000],
               p\<lparr>r_ck := hkdf_ck hmac (r_ck p) (rk p),
                  rk := hkdf_k hmac (r_ck p) (rk p), priv_rn := 0\<rparr>)) \<and>
     get_bolt8_hkdf hmac (s_ck p) (sk p) =
       Inr (hkdf_ck hmac (s_ck p) (sk p), hkdf_k hmac (s_ck p) (sk p)) \<and>
     get_bolt8_hkdf hmac (r_ck p) (rk p) =
       Inr (hkdf_ck hmac (r_ck p) (rk p), hkdf_k hmac (r_ck p) (rk p))"
proof -
  have inc: "\<And>n. sorted_wrt (<) (map int [0..<n])"
    by (simp add: sorted_wrt_map sorted_wrt_upt del: upt_Suc)
  have s: "priv_sn p = 0 \<Longrightarrow> n \<le> 999
      \<Longrightarrow> sn_uses hmac n p = Inr (map int [0..<n], p\<lparr>priv_sn := int n\<rparr>)" for n
    using sn_uses_within [of p n hmac] by simp
  have r: "priv_rn p = 0 \<Longrightarrow> n \<le> 999
      \<Longrightarrow> rn_uses hmac n p = Inr (map (\<lambda>i. (int i, rk p)) [0..<n], p\<lparr>priv_rn := int n\<rparr>)" for n
    using rn_uses_within [of p n hmac] by simp
  show ?thesis
    using s r inc sn_epoch [OF assms, of p] rn_epoch [OF assms, of p] get_bolt8_hkdf_ok [OF assms]
    by (simp del: upt_Suc sn_uses.simps rn_uses.simps)
qed

lemma toy_hmac_length: "\<forall>k m. length (toy_hmac k m) = 32"
  by (simp add: toy_hmac_def)

theorem nonce_counters_rotate_witness:
  "sn_uses toy_hmac 3 transport0 = Inr ([0, 1, 2], transport0\<lparr>priv_sn := 3\<rparr>) \<and>
   sn_uses toy_hmac 1000 transport0 =
     Inr (map int [0..<1000],
          transport0\<lparr>s_ck := hkdf_ck toy_hmac (s_ck transport0) (sk transport0),
                     sk := hkdf_k toy_hmac (s_ck transport0) (sk transport0),
                     priv_sn := 0\<rparr>) \<and>
   rn_uses toy_hmac 2 transport0 =
     Inr ([(0, rk transport0), (1, rk transport0)], transport0\<lparr>priv_rn := 2\<rparr>) \<and>
   rn_uses toy_hmac 1000 transport0 =
     Inr (map (\<lambda>i. (int i, rk transport0)) [0..<1000],
          transport0\<lparr>r_ck := hkdf_ck toy_hmac (r_ck transport0) (rk transport0),
                     rk := hkdf_k toy_hmac (r_ck transport0) (rk transport0),
                     priv_rn := 0\<rparr>) \<and>
   hkdf_k toy_hmac (s_ck transport0) (sk transport0) \<noteq> sk transport0"
proof -
  have z: "priv_sn transport0 = 0" "priv_rn transport0 = 0"
    by (simp_all add: transport0_def)
  have k: "hkdf_k toy_hmac (s_ck transport0) (sk transport0) \<noteq> sk transport0"
    by (simp add: hkdf_k_def toy_hmac_def transport0_def replicate_append_same [symmetric]
        del: replicate_append_same replicate.simps)
       (simp add: eval_nat_numeral)
  have a: "sn_uses toy_hmac 3 transport0 = Inr (map int [0..<3], transport0\<lparr>priv_sn := int 3\<rparr>)"
    using nonce_counters_rotate [OF toy_hmac_length, of transport0] z by simp
  have b: "rn_uses toy_hmac 2 transport0 =
      Inr (map (\<lambda>i. (int i, rk transport0)) [0..<2], transport0\<lparr>priv_rn := int 2\<rparr>)"
    using nonce_counters_rotate [OF toy_hmac_length, of transport0] z by simp
  have c: "map int [0..<3] = [0, 1, 2]" "map (\<lambda>i. (int i, rk transport0)) [0..<2]
      = [(0, rk transport0), (1, rk transport0)]"
    by (simp_all add: eval_nat_numeral upt_conv_Cons)
  show ?thesis
    using nonce_counters_rotate [OF toy_hmac_length, of transport0] z k a b c
    by (simp del: upt_Suc sn_uses.simps rn_uses.simps)
qed

section \<open>Address parsing in node announcements\<close>

lemma address_loop_acc: "address_loop s acc = acc @ address_loop s []"
proof (induction "length s" arbitrary: s acc rule: less_induct)
  case less
  show ?case
  proof (cases s)
    case Nil
    then show ?thesis by simp
  next
    case (Cons b s1)
    have ih: "address_loop t a = a @ address_loop t []" if "length t \<le> length s1" for t a
      using less [of t a] Cons that by simp
    have snoc: "address_loop t (a @ [x]) = a @ address_loop t [x]"
      if "length t \<le> length s1" for t a x
      using ih [OF that, of "a @ [x]"] ih [OF that, of "[x]"] by simp
    have same: "address_loop s1 acc = acc @ address_loop s1 []"
      by (rule ih) simp
    show ?thesis
      unfolding Cons address_loop.simps Let_def
      using same by (simp add: snoc)
  qed
qed

lemma address_loop_skip:
  "\<forall>b \<in> set junk. b \<noteq> 1 \<and> b \<noteq> 2 \<Longrightarrow> address_loop (junk @ s) acc = address_loop s acc"
proof (induction junk)
  case Nil
  then show ?case by simp
next
  case (Cons b junk)
  then have "b \<noteq> 1" "b \<noteq> 2" by simp_all
  then have "unat b \<noteq> 1" "unat b \<noteq> 2"
    by (simp_all add: word_unat_eq_iff)
  with Cons show ?case by (simp add: Let_def)
qed

lemma address_loop_ipv4:
  "address_loop (1 # s) acc =
     address_loop (drop 6 s)
       (acc @ [(HostStr (py_join ''.'' (map (\<lambda>x. dec (unat x)) (take 4 s))),
                from_bytes (take 2 (drop 4 s)))])"
  by (simp add: Let_def)

lemma dotted_quad: "py_join ''.'' (map (\<lambda>x. dec (unat x)) [127, 0, 0, 1 :: byte]) = ''127.0.0.1''"
  by code_simp

lemma port_9735: "from_bytes [38, 7] = 9735"
  by code_simp

text \<open>
  Claim C6, as the code has it. The loop is total and stops only when the address block
  is exhausted. A type byte 1 is followed by 4 bytes of IPv4 address, rendered as a
  dotted quad, and 2 bytes of big-endian port, and parsing goes on 6 bytes later. Every
  type byte other than 1 and 2 (0 included) is skipped on its own and parsing goes on
  with the next byte: it does not end the parsing. \<open>on_node_announcement\<close> stores
  the addresses so parsed when the signature verifies.
\<close>

theorem node_announcement_addresses:
  "address_loop [] [] = [] \<and>
   address_loop (1 # s) [] =
     (HostStr (py_join ''.'' (map (\<lambda>x. dec (unat x)) (take 4 s))),
      from_bytes (take 2 (drop 4 s))) # address_loop (drop 6 s) [] \<and>
   ((\<forall>b \<in> set junk. b \<noteq> 1 \<and> b \<noteq> 2) \<longrightarrow>
      address_loop (junk @ s) [] = address_loop s []) \<and>
   (verify_signature pubkey signature (Hash (drop 66 raw)) \<longrightarrow>
      on_node_announcement Hash verify_signature
        [''node_id'' \<mapsto> pubkey, ''signature'' \<mapsto> signature, ''raw'' \<mapsto> raw,
         ''alias'' \<mapsto> a, ''addresses'' \<mapsto> s] nodes =
      Inr (nodes(pubkey \<mapsto> \<lparr>node_alias = rstrip_zero a, node_addresses = address_loop s []\<rparr>)))"
proof -
  have 1: "address_loop (1 # s) [] =
     (HostStr (py_join ''.'' (map (\<lambda>x. dec (unat x)) (take 4 s))),
      from_bytes (take 2 (drop 4 s))) # address_loop (drop 6 s) []"
    unfolding address_loop_ipv4 by (subst address_loop_acc) simp
  have 2: "(\<forall>b \<in> set junk. b \<noteq> 1 \<and> b \<noteq> 2) \<longrightarrow>
      address_loop (junk @ s) [] = address_loop s []"
    by (simp add: address_loop_skip)
  have 3: "verify_signature pubkey signature (Hash (drop 66 raw)) \<longrightarrow>
      on_node_announcement Hash verify_signature
        [''node_id'' \<mapsto> pubkey, ''signature'' \<mapsto> signature, ''raw'' \<mapsto> raw,
         ''alias'' \<mapsto> a, ''addresses'' \<mapsto> s] nodes =
      Inr (nodes(pubkey \<mapsto> \<lparr>node_alias = rstrip_zero a, node_addresses = address_loop s []\<rparr>))"
    by (simp add: on_node_announcement_def)
  from 1 2 3 show ?thesis by simp
qed

lemma parsed_block:
  "address_loop [3, 0, 1, 127, 0, 0, 1, 38, 7] [] = [(HostStr ''127.0.0.1'', 9735)]"
  "address_loop [1, 127, 0, 0, 1, 38, 7] [] = [(HostStr ''127.0.0.1'', 9735)]"
  by code_simp+

theorem node_announcement_addresses_witness:
  "address_loop ([3, 0] @ [1, 127, 0, 0, 1, 38, 7]) [] = address_loop [1, 127, 0, 0, 1, 38, 7] [] \<and>
   address_loop [1, 127, 0, 0, 1, 38, 7] [] = [(HostStr ''127.0.0.1'', 9735)] \<and>
   on_node_announcement (\<lambda>x. x) toy_verify
     [''node_id'' \<mapsto> [2, 9], ''signature'' \<mapsto> [5], ''raw'' \<mapsto> replicate 66 0 @ [5],
      ''alias'' \<mapsto> [97, 0, 0], ''addresses'' \<mapsto> [3, 0, 1, 127, 0, 0, 1, 38, 7]] Map.empty =
     Inr [[2, 9] \<mapsto> \<lparr>node_alias = [97], node_addresses = [(HostStr ''127.0.0.1'', 9735)]\<rparr>]"
proof -
  note t = node_announcement_addresses [where junk = "[3, 0]" and s = "[1, 127, 0, 0, 1, 38, 7]"
      and verify_signature = toy_verify and pubkey = "[2, 9]" and signature = "[5]"
      and Hash = "\<lambda>x. x" and raw = "replicate 66 0 @ [5]" and a = "[97, 0, 0]"
      and nodes = Map.empty]
  note u = node_announcement_addresses [where junk = "[]"
      and s = "[3, 0, 1, 127, 0, 0, 1, 38, 7]"
      and verify_signature = toy_verify and pubkey = "[2, 9]" and signature = "[5]"
      and Hash = "\<lambda>x. x" and raw = "replicate 66 0 @ [5]" and a = "[97, 0, 0]"
      and nodes = Map.empty]
  have j: "\<forall>b \<in> set [3, 0 :: byte]. b \<noteq> 1 \<and> b \<noteq> 2"
    by simp
  have v: "toy_verify [2, 9] [5] (drop 66 (replicate 66 0 @ [5]))"
    by (simp add: toy_verify_def)
  have r: "rstrip_zero [97, 0, 0] = [97]"
    by (simp add: rstrip_zero_def)
  have s: "address_loop ([3, 0] @ [1, 127, 0, 0, 1, 38, 7]) [] = address_loop [1, 127, 0, 0, 1, 38, 7] []"
    using t [THEN conjunct2, THEN conjunct2, THEN conjunct1] j by (rule mp)
  have o: "on_node_announcement (\<lambda>x. x) toy_verify
     [''node_id'' \<mapsto> [2, 9], ''signature'' \<mapsto> [5], ''raw'' \<mapsto> replicate 66 0 @ [5],
      ''alias'' \<mapsto> [97, 0, 0], ''addresses'' \<mapsto> [3, 0, 1, 127, 0, 0, 1, 38, 7]] Map.empty =
     Inr [[2, 9] \<mapsto> \<lparr>node_alias = rstrip_zero [97, 0, 0],
                     node_addresses = address_loop [3, 0, 1, 127, 0, 0, 1, 38, 7] []\<rparr>]"
    using u [THEN conjunct2, THEN conjunct2, THEN conjunct2] v by (rule mp)
  from o have o': "on_node_announcement (\<lambda>x. x) toy_verify
     [''node_id'' \<mapsto> [2, 9], ''signature'' \<mapsto> [5], ''raw'' \<mapsto> replicate 66 0 @ [5],
      ''alias'' \<mapsto> [97, 0, 0], ''addresses'' \<mapsto> [3, 0, 1, 127, 0, 0, 1, 38, 7]] Map.empty =
     Inr [[2, 9] \<mapsto> \<lparr>node_alias = [97], node_addresses = [(HostStr ''127.0.0.1'', 9735)]\<rparr>]"
    by (simp only: parsed_block r)
  from s parsed_block(2) o' show ?thesis by (intro conjI)
qed

text \<open>
  The claim as stated fails: an unknown type byte (here 3) does not end the parsing,
  the IPv4 address after it is still parsed.
\<close>

theorem unknown_type_does_not_terminate:
  "address_loop [3, 1, 127, 0, 0, 1, 38, 7] [] = [(HostStr ''127.0.0.1'', 9735)] \<and>
   address_loop [3, 1, 127, 0, 0, 1, 38, 7] [] \<noteq> address_loop [3] []"
  by code_simp

text \<open>
  The IPv6 branch reads four groups of two bytes, 8 bytes of address and not 16, before
  the port: on an 18-byte IPv6 record the port is taken from address bytes 9 and 10 and
  the last 8 bytes are parsed as further records.
\<close>

lemma ipv6_reads_eight_bytes:
  "address_loop (2 # [32, 1, 13, 184, 0, 0, 0, 0] @ [0, 0, 0, 0, 0, 0, 0, 0] @ [38, 7]) [] =
     [(HostBytes (hexlify [32, 1] @ [58] @ hexlify [13, 184] @ [58] @ hexlify [0, 0] @ [58]
                  @ hexlify [0, 0]), 0)]"
  by code_simp

section \<open>The update_fail_htlc handler\<close>

lemma dec_4103: "dec 4103 = ''4103''"
  by (simp add: dec.simps [of 4103] dec.simps [of 410] dec.simps [of 41] dec.simps [of 4]
      digit_char_def)

lemma dec_12295: "dec 12295 = ''12295''"
  by (simp add: dec.simps [of 12295] dec.simps [of 1229] dec.simps [of 122] dec.simps [of 12]
      dec.simps [of "Suc 0"] digit_char_def)

lemma failure_codes_0x1007: "failure_codes 0x1007 = [''UPDATE'']"
  by (simp add: failure_codes_def)

lemma failure_codes_0x3007: "failure_codes 0x3007 = [''NODE'', ''UPDATE'']"
  by (simp add: failure_codes_def)

lemma failure_string_0x1007:
  "failure_string 0x1007 =
     ''HTLC failure with code 4103 (categories ['' @ [CHR 0x27] @ ''UPDATE'' @ [CHR 0x27] @ ''])''"
  by (simp add: failure_string_def failure_codes_0x1007 py_str_int_def dec_4103
      repr_str_list_def)

lemma failure_string_0x3007:
  "failure_string 0x3007 =
     ''HTLC failure with code 12295 (categories ['' @ [CHR 0x27] @ ''NODE'' @ [CHR 0x27]
        @ '', '' @ [CHR 0x27] @ ''UPDATE'' @ [CHR 0x27] @ ''])''"
  by (simp add: failure_string_def failure_codes_0x3007 py_str_int_def dec_12295
      repr_str_list_def)

lemma failure_codes_flags:
  "''BADONION'' \<in> set (failure_codes c) \<longleftrightarrow> c AND 0x8000 \<noteq> 0"
  "''PERM'' \<in> set (failure_codes c) \<longleftrightarrow> c AND 0x4000 \<noteq> 0"
  "''NODE'' \<in> set (failure_codes c) \<longleftrightarrow> c AND 0x2000 \<noteq> 0"
  "''UPDATE'' \<in> set (failure_codes c) \<longleftrightarrow> c AND 0x1000 \<noteq> 0"
  by (simp_all add: failure_codes_def Let_def)

lemma on_update_fail_htlc_result:
  assumes "payld ''channel_id'' = Some cid"
    and "payld ''id'' = Some idb"
    and "payld ''reason'' = Some reason"
    and "attempted_route st (cid, from_bytes idb) = Some route"
    and "secret_key st = Some skey"
    and "decode reason (map node_id route) skey = Inr (fm, idx)"
    and "0 \<le> idx" and "idx + 1 < int (length route)"
  shows "on_update_fail_htlc decode payld st =
           Inr (st\<lparr>blacklist := insert (short_channel_id (route ! nat (idx + 1))) (blacklist st),
                   update_fail_htlc := (update_fail_htlc st)
                     (cid := update_fail_htlc st cid @ [failure_string (failure_code fm)])\<rparr>)"
proof -
  have i: "py_index route (idx + 1) = Inr (route ! nat (idx + 1))"
    using assms(7,8) by (simp add: py_index_def Let_def)
  show ?thesis
    by (simp add: on_update_fail_htlc_def assms(1-6) i Let_def)
qed

lemma toy_run:
  "fail_payload r ''channel_id'' = Some [7]"
  "fail_payload r ''id'' = Some [0, 0, 0, 0, 0, 0, 0, 0]"
  "fail_payload r ''reason'' = Some r"
  "attempted_route fail_state0 ([7], from_bytes [0, 0, 0, 0, 0, 0, 0, 0]) = Some three_hops"
  "secret_key fail_state0 = Some [9]"
  "(0::int) + 1 < int (length three_hops)"
  "short_channel_id (three_hops ! nat (0 + 1)) = [0, 0, 0, 0, 0, 0, 0, 2]"
  by (simp_all add: fail_payload_def fail_state0_def from_bytes_def three_hops_def)

lemma toy_decode:
  "toy_decode_onion [0x10, 0x07] ns k = Inr (\<lparr>failure_code = 0x1007, failure_data = []\<rparr>, 0)"
  "toy_decode_onion [0x30, 0x07] ns k = Inr (\<lparr>failure_code = 0x3007, failure_data = []\<rparr>, 0)"
  by (simp_all add: toy_decode_onion_def from_bytes_def)

text \<open>
  Claim C5, as the code has it. For an inbound \<open>update_fail_htlc\<close> whose route is
  recorded and whose failing hop \<open>sender_idx\<close> has a successor on the route, the
  handler blacklists the short channel id of \<open>route[sender_idx + 1]\<close> and appends to
  the channel's queue the string \<open>HTLC failure with code <code> (categories <list>)\<close>,
  where the list holds \<open>BADONION\<close>, \<open>PERM\<close>, \<open>NODE\<close>, \<open>UPDATE\<close> exactly for the bits
  \<open>0x8000\<close>, \<open>0x4000\<close>, \<open>0x2000\<close>, \<open>0x1000\<close> of the code. For code \<open>0x1007\<close> (4103)
  the string is \<open>HTLC failure with code 4103 (categories ['UPDATE'])\<close>; the category list
  \<open>['NODE', 'UPDATE']\<close> belongs to code \<open>0x3007\<close> (12295).
\<close>

theorem update_fail_htlc_handled:
  assumes "payld ''channel_id'' = Some cid"
    and "payld ''id'' = Some idb"
    and "payld ''reason'' = Some reason"
    and "attempted_route st (cid, from_bytes idb) = Some route"
    and "secret_key st = Some skey"
    and "decode reason (map node_id route) skey = Inr (fm, idx)"
    and "0 \<le> idx" and "idx + 1 < int (length route)"
  shows "on_update_fail_htlc decode payld st =
           Inr (st\<lparr>blacklist := insert (short_channel_id (route ! nat (idx + 1))) (blacklist st),
                   update_fail_htlc := (update_fail_htlc st)
                     (cid := update_fail_htlc st cid @ [failure_string (failure_code fm)])\<rparr>) \<and>
         failure_string (failure_code fm) =
           ''HTLC failure with code '' @ py_str_int (failure_code fm) @ '' (categories ''
             @ repr_str_list (failure_codes (failure_code fm)) @ '')'' \<and>
         (''BADONION'' \<in> set (failure_codes (failure_code fm)) \<longleftrightarrow> failure_code fm AND 0x8000 \<noteq> 0) \<and>
         (''PERM'' \<in> set (failure_codes (failure_code fm)) \<longleftrightarrow> failure_code fm AND 0x4000 \<noteq> 0) \<and>
         (''NODE'' \<in> set (failure_codes (failure_code fm)) \<longleftrightarrow> failure_code fm AND 0x2000 \<noteq> 0) \<and>
         (''UPDATE'' \<in> set (failure_codes (failure_code fm)) \<longleftrightarrow> failure_code fm AND 0x1000 \<noteq> 0) \<and>
         (failure_code fm = 0x1007 \<longrightarrow>
            failure_string (failure_code fm) =
              ''HTLC failure with code 4103 (categories ['' @ [CHR 0x27] @ ''UPDATE''
                @ [CHR 0x27] @ ''])'') \<and>
         (failure_code fm = 0x3007 \<longrightarrow>
            failure_string (failure_code fm) =
              ''HTLC failure with code 12295 (categories ['' @ [CHR 0x27] @ ''NODE''
                @ [CHR 0x27] @ '', '' @ [CHR 0x27] @ ''UPDATE'' @ [CHR 0x27] @ ''])'')"
proof -
  note h = on_update_fail_htlc_result [where payld = payld and decode = decode, OF assms]
  have a: "failure_code fm = 0x1007 \<longrightarrow>
            failure_string (failure_code fm) =
              ''HTLC failure with code 4103 (categories ['' @ [CHR 0x27] @ ''UPDATE''
                @ [CHR 0x27] @ ''])''"
  proof (rule impI)
    assume e: "failure_code fm = 0x1007"
    show "failure_string (failure_code fm) =
              ''HTLC failure with code 4103 (categories ['' @ [CHR 0x27] @ ''UPDATE''
                @ [CHR 0x27] @ ''])''"
      unfolding e by (rule failure_string_0x1007)
  qed
  have b: "failure_code fm = 0x3007 \<longrightarrow>
            failure_string (failure_code fm) =
              ''HTLC failure with code 12295 (categories ['' @ [CHR 0x27] @ ''NODE''
                @ [CHR 0x27] @ '', '' @ [CHR 0x27] @ ''UPDATE'' @ [CHR 0x27] @ ''])''"
  proof (rule impI)
    assume e: "failure_code fm = 0x3007"
    show "failure_string (failure_code fm) =
              ''HTLC failure with code 12295 (categories ['' @ [CHR 0x27] @ ''NODE''
                @ [CHR 0x27] @ '', '' @ [CHR 0x27] @ ''UPDATE'' @ [CHR 0x27] @ ''])''"
      unfolding e by (rule failure_string_0x3007)
  qed
  have f: "failure_string (failure_code fm) =
           ''HTLC failure with code '' @ py_str_int (failure_code fm) @ '' (categories ''
             @ repr_str_list (failure_codes (failure_code fm)) @ '')''"
    by (rule failure_string_def)
  show ?thesis
    by (intro conjI) (rule h f a b failure_codes_flags)+
qed

theorem update_fail_htlc_handled_witness:
  "on_update_fail_htlc toy_decode_onion (fail_payload [0x30, 0x07]) fail_state0 =
     Inr (fail_state0\<lparr>blacklist := insert [0, 0, 0, 0, 0, 0, 0, 2] (blacklist fail_state0),
            update_fail_htlc := (update_fail_htlc fail_state0)
              ([7] := update_fail_htlc fail_state0 [7] @
                 [''HTLC failure with code 12295 (categories ['' @ [CHR 0x27] @ ''NODE''
                    @ [CHR 0x27] @ '', '' @ [CHR 0x27] @ ''UPDATE'' @ [CHR 0x27] @ ''])''])\<rparr>)"
proof -
  note t = update_fail_htlc_handled [where payld = "fail_payload [0x30, 0x07]"
      and decode = toy_decode_onion and idx = 0,
      OF toy_run(1-5) toy_decode(2) order_refl toy_run(6)]
  show ?thesis
    using t [THEN conjunct1]
    by (simp only: toy_run(7) failure_msg.select_convs failure_string_0x3007)
qed

text \<open>
  The claim as stated fails on its own example: for code \<open>0x1007\<close> on a three-hop
  route the bit \<open>0x2000\<close> is clear, and the string enqueued has the category list
  \<open>['UPDATE']\<close>, not \<open>['NODE', 'UPDATE']\<close>.
\<close>

theorem code_0x1007_is_update_only:
  "on_update_fail_htlc toy_decode_onion (fail_payload [0x10, 0x07]) fail_state0 =
     Inr (fail_state0\<lparr>blacklist := insert [0, 0, 0, 0, 0, 0, 0, 2] (blacklist fail_state0),
            update_fail_htlc := (update_fail_htlc fail_state0)
              ([7] := update_fail_htlc fail_state0 [7] @
                 [''HTLC failure with code 4103 (categories ['' @ [CHR 0x27] @ ''UPDATE''
                    @ [CHR 0x27] @ ''])''])\<rparr>) \<and>
   ''HTLC failure with code 4103 (categories ['' @ [CHR 0x27] @ ''UPDATE'' @ [CHR 0x27] @ ''])''
     \<noteq> ''HTLC failure with code 4103 (categories ['' @ [CHR 0x27] @ ''NODE'' @ [CHR 0x27]
          @ '', '' @ [CHR 0x27] @ ''UPDATE'' @ [CHR 0x27] @ ''])'' \<and>
   (0x1007 :: int) AND 0x2000 = 0"
proof -
  note t = on_update_fail_htlc_result [where payld = "fail_payload [0x10, 0x07]"
      and decode = toy_decode_onion and idx = 0,
      OF toy_run(1-5) toy_decode(1) order_refl toy_run(6)]
  have 1: "on_update_fail_htlc toy_decode_onion (fail_payload [0x10, 0x07]) fail_state0 =
     Inr (fail_state0\<lparr>blacklist := insert [0, 0, 0, 0, 0, 0, 0, 2] (blacklist fail_state0),
            update_fail_htlc := (update_fail_htlc fail_state0)
              ([7] := update_fail_htlc fail_state0 [7] @
                 [''HTLC failure with code 4103 (categories ['' @ [CHR 0x27] @ ''UPDATE''
                    @ [CHR 0x27] @ ''])''])\<rparr>)"
    using t by (simp only: toy_run(7) failure_msg.select_convs failure_string_0x1007)
  have 2: "''HTLC failure with code 4103 (categories ['' @ [CHR 0x27] @ ''UPDATE'' @ [CHR 0x27] @ ''])''
     \<noteq> ''HTLC failure with code 4103 (categories ['' @ [CHR 0x27] @ ''NODE'' @ [CHR 0x27]
          @ '', '' @ [CHR 0x27] @ ''UPDATE'' @ [CHR 0x27] @ ''])''"
    by simp
  have 3: "(0x1007 :: int) AND 0x2000 = 0" by simp
  from 1 2 3 show ?thesis by (intro conjI)
qed

text \<open>
  When the failing hop is the last of the route, \<open>route[sender_idx + 1]\<close> raises
  \<open>IndexError\<close>, which is caught, and the use of the unbound \<open>short_chan_id\<close> then
  raises: nothing is blacklisted or enqueued.
\<close>

lemma destination_failure_raises:
  assumes "payld ''channel_id'' = Some cid"
    and "payld ''id'' = Some idb"
    and "payld ''reason'' = Some reason"
    and "attempted_route st (cid, from_bytes idb) = Some route"
    and "secret_key st = Some skey"
    and "decode reason (map node_id route) skey = Inr (fm, idx)"
    and "idx + 1 = int (length route)"
  shows "on_update_fail_htlc decode payld st = Inl UnboundLocalError"
proof -
  have i: "py_index route (idx + 1) = Inl IndexError"
    using assms(7) by (simp add: py_index_def Let_def)
  show ?thesis
    by (simp add: on_update_fail_htlc_def assms(1-6) i Let_def)
qed

section \<open>Registered handlers\<close>

lemma load_loop_keeps:
  "load_loop s mt0 = Inr mt \<Longrightarrow> x \<in> set mt0 \<Longrightarrow> x \<in> set mt"
  by (induction s mt0 rule: load_loop.induct)
     (auto split: if_splits option.splits sum.splits)

lemma load_loop_distinct:
  "load_loop s mt0 = Inr mt \<Longrightarrow> distinct (map fst mt0) \<Longrightarrow> distinct (map fst mt)"
  by (induction s mt0 rule: load_loop.induct)
     (auto split: if_splits option.splits sum.splits)

lemma load_loop_registers:
  "load_loop s mt0 = Inr mt \<Longrightarrow> (k, v) \<in> set s
    \<Longrightarrow> k \<notin> {''final_incorrect_cltv_expiry'', ''final_incorrect_htlc_amount''}
    \<Longrightarrow> payload v \<noteq> [] \<Longrightarrow> py_int_str (msg_type v) = Some num \<Longrightarrow> to_bytes num 2 = Inr b
    \<Longrightarrow> (b, (k, v)) \<in> set mt"
proof (induction s mt0 rule: load_loop.induct)
  case (1 mt)
  then show ?case by simp
next
  case (2 k' v' rest mt0)
  show ?case
  proof (cases "(k, v) = (k', v')")
    case True
    with "2.prems" have "load_loop rest (mt0 @ [(b, (k, v))]) = Inr mt"
      by (auto split: if_splits)
    then show ?thesis by (rule load_loop_keeps) simp
  next
    case False
    with "2.prems"(2) have m: "(k, v) \<in> set rest" by auto
    from "2.prems"(1) show ?thesis
      using "2.IH" m "2.prems"(3-6)
      by (auto split: if_splits option.splits sum.splits)
  qed
qed

text \<open>
  When the module has been imported, every entry of the schema that the loader does not
  skip is bound to its two-byte type code in \<open>message_types\<close>.
\<close>

lemma loaded_entry:
  assumes "load_message_types s = Inr mt" and "(k, v) \<in> set s"
    and "k \<notin> {''final_incorrect_cltv_expiry'', ''final_incorrect_htlc_amount''}"
    and "payload v \<noteq> []" and "py_int_str (msg_type v) = Some num"
    and "to_bytes num 2 = Inr b"
  shows "map_of mt b = Some (k, v)"
proof -
  from assms(1) have l: "load_loop s [] = Inr mt"
    by (auto simp: load_message_types_def split: sum.splits option.splits if_splits)
  have d: "distinct (map fst mt)"
    using l by (rule load_loop_distinct) simp
  have "(b, (k, v)) \<in> set mt"
    using l assms(2-6) by (rule load_loop_registers)
  with d show ?thesis by simp
qed

section \<open>Sending a message\<close>

lemma length_be_bytes: "length (be_bytes k n) = k"
  by (induction k arbitrary: n) simp_all

lemma to_bytes_ok: "0 \<le> n \<Longrightarrow> n < 256 ^ k \<Longrightarrow> to_bytes n (int k) = Inr (be_bytes k n)"
  by (simp add: to_bytes_def)

lemma get_nonce_bytes_ok:
  "0 \<le> n \<Longrightarrow> n < 1000 \<Longrightarrow> get_nonce_bytes n = Inr (replicate 4 0 @ rev (be_bytes 8 n))"
  using to_bytes_ok [of n 8] by (simp add: get_nonce_bytes_def)

lemma sn_in_range:
  assumes "\<forall>k m. length (hmac k m) = 32" and "0 \<le> priv_sn p" and "priv_sn p < 1000"
  shows "\<exists>q. sn hmac p = Inr (priv_sn p, q) \<and> 0 \<le> priv_sn q \<and> priv_sn q < 1000
             \<and> peer.more q = peer.more p \<and> written q = written p \<and> ping_time q = ping_time p"
proof (cases "priv_sn p = 999")
  case True
  with sn_rotate [OF assms(1) True] show ?thesis by simp
next
  case False
  with sn_step [OF False, of hmac] assms(2,3) show ?thesis by simp
qed

lemma send_message_ok:
  assumes "decode_msg (env_message_types env) msg = Inr r"
    and "length msg < 65536"
    and "\<forall>k n d a. length (env_chacha env k n d a) = length d + 16"
    and "\<forall>k m. length (env_hmac env k m) = 32"
    and "0 \<le> priv_sn p" and "priv_sn p < 1000"
  shows "\<exists>q f. send_message env msg p = Inr q \<and> written q = written p @ [f]
               \<and> length f = length msg + 34 \<and> ping_time q = ping_time p
               \<and> 0 \<le> priv_sn q \<and> priv_sn q < 1000"
proof -
  have l: "to_bytes (int (length msg)) 2 = Inr (be_bytes 2 (int (length msg)))"
    using to_bytes_ok [of "int (length msg)" 2] assms(2) by simp
  from sn_in_range [OF assms(4-6)] obtain p1 where
    s1: "sn (env_hmac env) p = Inr (priv_sn p, p1)" and r1: "0 \<le> priv_sn p1" "priv_sn p1 < 1000"
    and k1: "written p1 = written p" "ping_time p1 = ping_time p"
    by blast
  from sn_in_range [OF assms(4) r1] obtain p2 where
    s2: "sn (env_hmac env) p1 = Inr (priv_sn p1, p2)" and r2: "0 \<le> priv_sn p2" "priv_sn p2 < 1000"
    and k2: "written p2 = written p1" "ping_time p2 = ping_time p1"
    by blast
  let ?lc = "env_chacha env (sk p) (replicate 4 0 @ rev (be_bytes 8 (priv_sn p)))
               (be_bytes 2 (int (length msg))) []"
  let ?c = "env_chacha env (sk p1) (replicate 4 0 @ rev (be_bytes 8 (priv_sn p1))) msg []"
  have a1: "aead_encrypt (env_chacha env) (sk p) (priv_sn p) [] (be_bytes 2 (int (length msg)))
      = Inr ?lc"
    by (simp add: aead_encrypt_def get_nonce_bytes_ok assms(5,6))
  have a2: "aead_encrypt (env_chacha env) (sk p1) (priv_sn p1) [] msg = Inr ?c"
    by (simp add: aead_encrypt_def get_nonce_bytes_ok r1)
  have n: "length ?lc = 18" "length ?c = length msg + 16"
    using assms(3) by (simp_all add: length_be_bytes)
  have "send_message env msg p = Inr (p2\<lparr>written := written p2 @ [?lc @ ?c]\<rparr>)"
    unfolding send_message_def by (simp add: assms(1) l s1 s2 a1 a2 n Let_def)
  then show ?thesis
    using n k1 k2 r2 by simp
qed

lemma send_message_ping_time:
  "send_message env msg p = Inr q \<Longrightarrow> ping_time q = ping_time p"
  unfolding send_message_def sn_def get_bolt8_hkdf_def
  by (auto simp: Let_def split: sum.splits prod.splits if_splits)

section \<open>The ping timer\<close>

lemma gen_ping:
  "gen_loop (payload ping_entry) ping_kwargs Map.empty [0, 18] = Inr [0, 18, 0, 4, 0, 4, 0, 0, 0, 0]"
  by code_simp

lemma ping_type: "py_int_str (msg_type ping_entry) = Some 18" "to_bytes 18 2 = Inr [0, 18]"
  "payload ping_entry \<noteq> []"
  by code_simp+

lemma handler_ping:
  "handler ''ping'' ping_entry [0, 4, 0, 4, 0, 0, 0, 0] =
     Inr (''ping'', [''num_pong_bytes'' \<mapsto> [0, 4], ''byteslen'' \<mapsto> [0, 4],
                    ''ignored'' \<mapsto> [0, 0, 0, 0]])"
  by (simp add: handler_def ping_entry_def calcexp_def handlesingle_def py_int_str_def
      py_int_literal_def parse_digits_def is_digit_def str_space_def bytes_space_def
      as_vals_def py_int_bytes_def from_bytes_def py_slice_def slice_index_def)

lemma handler_pong:
  "handler ''pong'' pong_entry [0, 0] =
     Inr (''pong'', [''byteslen'' \<mapsto> [0, 0], ''ignored'' \<mapsto> []])"
  by (simp add: handler_def pong_entry_def calcexp_def handlesingle_def py_int_str_def
      py_int_literal_def parse_digits_def is_digit_def str_space_def bytes_space_def
      as_vals_def py_int_bytes_def from_bytes_def py_slice_def slice_index_def)

lemma ping_encoded:
  assumes "(''ping'', ping_entry) \<in> set s" and "distinct (map fst s)"
  shows "gen_msg s ''ping'' ping_kwargs = Inr [0, 18, 0, 4, 0, 4, 0, 0, 0, 0]"
proof -
  have "map_of s ''ping'' = Some ping_entry"
    using assms by simp
  then show ?thesis
    by (simp add: gen_msg_def ping_type gen_ping)
qed

lemma ping_decoded:
  assumes "load_message_types s = Inr mt" and "(''ping'', ping_entry) \<in> set s"
  shows "decode_msg mt [0, 18, 0, 4, 0, 4, 0, 0, 0, 0] =
           Inr (''ping'', [''num_pong_bytes'' \<mapsto> [0, 4], ''byteslen'' \<mapsto> [0, 4],
                          ''ignored'' \<mapsto> [0, 0, 0, 0]])"
proof -
  have "map_of mt [0, 18] = Some (''ping'', ping_entry)"
    by (rule loaded_entry [OF assms(1,2) _ ping_type(3) ping_type(1) ping_type(2)]) simp
  then show ?thesis
    by (simp add: decode_msg_def handler_ping)
qed

lemma ping_emitted:
  assumes "load_message_types (env_structured env) = Inr (env_message_types env)"
    and "(''ping'', ping_entry) \<in> set (env_structured env)"
    and "distinct (map fst (env_structured env))"
    and "\<forall>k n d a. length (env_chacha env k n d a) = length d + 16"
    and "\<forall>k m. length (env_hmac env k m) = 32"
    and "0 \<le> priv_sn p" and "priv_sn p < 1000"
    and "120 < now1 - ping_time p"
  shows "\<exists>q f. send_message env [0, 18, 0, 4, 0, 4, 0, 0, 0, 0] p = Inr q \<and>
               ping_if_required env now1 now2 p = Inr (q\<lparr>ping_time := now2\<rparr>) \<and>
               written q = written p @ [f]"
proof -
  note d = ping_decoded [OF assms(1,2)]
  from send_message_ok [OF d _ assms(4-7)] obtain q f where
    q: "send_message env [0, 18, 0, 4, 0, 4, 0, 0, 0, 0] p = Inr q" "written q = written p @ [f]"
    by auto
  have "ping_if_required env now1 now2 p = Inr (q\<lparr>ping_time := now2\<rparr>)"
    using assms(8) by (simp add: ping_if_required_def ping_encoded [OF assms(2,3)] q(1))
  with q show ?thesis by blast
qed

lemma ping_not_due:
  "now1 - ping_time p \<le> 120 \<Longrightarrow> ping_if_required env now1 now2 p = Inr p"
  by (simp add: ping_if_required_def)

text \<open>
  Claim C9, as the code has it. The timer is \<open>ping_time\<close>, the time of the last ping
  that \<open>ping_if_required\<close> sent (0 on a new peer); no other send touches it. With the
  module loaded, the \<open>ping\<close> entry as in the schema, the library's ciphertexts 16 bytes
  longer than their plaintexts and the send counter in its range: a loop iteration whose
  clock is more than 120 seconds past \<open>ping_time\<close> sends exactly one message, the
  encoding \<open>00 12 00 04 00 04 00 00 00 00\<close> of \<open>ping\<close> with \<open>num_pong_bytes=4\<close> and
  \<open>byteslen=4\<close>, and sets \<open>ping_time\<close> to the clock; an iteration at most 120 seconds
  past \<open>ping_time\<close> sends nothing; and \<open>send_message\<close> leaves \<open>ping_time\<close> as it is.
\<close>

theorem ping_timer:
  assumes "load_message_types (env_structured env) = Inr (env_message_types env)"
    and "(''ping'', ping_entry) \<in> set (env_structured env)"
    and "distinct (map fst (env_structured env))"
    and "\<forall>k n d a. length (env_chacha env k n d a) = length d + 16"
    and "\<forall>k m. length (env_hmac env k m) = 32"
    and "0 \<le> priv_sn p" and "priv_sn p < 1000"
  shows "(120 < now1 - ping_time p \<longrightarrow>
            (\<exists>q f. send_message env [0, 18, 0, 4, 0, 4, 0, 0, 0, 0] p = Inr q \<and>
                   ping_if_required env now1 now2 p = Inr (q\<lparr>ping_time := now2\<rparr>) \<and>
                   written q = written p @ [f])) \<and>
         (now1 - ping_time p \<le> 120 \<longrightarrow> ping_if_required env now1 now2 p = Inr p) \<and>
         (\<forall>m q. send_message env m p = Inr q \<longrightarrow> ping_time q = ping_time p) \<and>
         gen_msg (env_structured env) ''ping'' ping_kwargs = Inr [0, 18, 0, 4, 0, 4, 0, 0, 0, 0] \<and>
         decode_msg (env_message_types env) [0, 18, 0, 4, 0, 4, 0, 0, 0, 0] =
           Inr (''ping'', [''num_pong_bytes'' \<mapsto> [0, 4], ''byteslen'' \<mapsto> [0, 4],
                          ''ignored'' \<mapsto> [0, 0, 0, 0]])"
proof (intro conjI impI allI)
  assume "120 < now1 - ping_time p"
  with assms show "\<exists>q f. send_message env [0, 18, 0, 4, 0, 4, 0, 0, 0, 0] p = Inr q \<and>
      ping_if_required env now1 now2 p = Inr (q\<lparr>ping_time := now2\<rparr>) \<and>
      written q = written p @ [f]"
    by (rule ping_emitted)
next
  assume "now1 - ping_time p \<le> 120"
  then show "ping_if_required env now1 now2 p = Inr p" by (rule ping_not_due)
next
  fix m q assume "send_message env m p = Inr q"
  then show "ping_time q = ping_time p" by (rule send_message_ping_time)
next
  show "gen_msg (env_structured env) ''ping'' ping_kwargs = Inr [0, 18, 0, 4, 0, 4, 0, 0, 0, 0]"
    using assms(2,3) by (rule ping_encoded)
next
  show "decode_msg (env_message_types env) [0, 18, 0, 4, 0, 4, 0, 0, 0, 0] =
           Inr (''ping'', [''num_pong_bytes'' \<mapsto> [0, 4], ''byteslen'' \<mapsto> [0, 4],
                          ''ignored'' \<mapsto> [0, 0, 0, 0]])"
    using assms(1,2) by (rule ping_decoded)
qed

lemma env0_facts:
  "load_message_types (env_structured env0) = Inr (env_message_types env0)"
  "(''ping'', ping_entry) \<in> set (env_structured env0)"
  "distinct (map fst (env_structured env0))"
  "\<forall>k n d a. length (env_chacha env0 k n d a) = length d + 16"
  "\<forall>k m. length (env_hmac env0 k m) = 32"
proof -
  show "load_message_types (env_structured env0) = Inr (env_message_types env0)"
    by (simp add: env0_def load_core_schema)
qed (simp_all add: env0_def core_schema_def toy_chacha_def toy_hmac_def)

lemma peer0_facts:
  "0 \<le> priv_sn peer0" "priv_sn peer0 < 1000" "ping_time peer0 = 1000" "written peer0 = []"
  by (simp_all add: peer0_def)

theorem ping_timer_witness:
  "(\<exists>q f. send_message env0 [0, 18, 0, 4, 0, 4, 0, 0, 0, 0] peer0 = Inr q \<and>
          ping_if_required env0 1121 1122 peer0 = Inr (q\<lparr>ping_time := 1122\<rparr>) \<and>
          written q = written peer0 @ [f]) \<and>
   ping_if_required env0 1120 1120 peer0 = Inr peer0 \<and>
   gen_msg (env_structured env0) ''ping'' ping_kwargs = Inr [0, 18, 0, 4, 0, 4, 0, 0, 0, 0]"
proof -
  note t = ping_timer [OF env0_facts peer0_facts(1,2)]
  have a: "(120::real) < 1121 - ping_time peer0" and b: "1120 - ping_time peer0 \<le> (120::real)"
    by (simp_all add: peer0_facts)
  from t [of 1121 1122, THEN conjunct1] a
  have 1: "\<exists>q f. send_message env0 [0, 18, 0, 4, 0, 4, 0, 0, 0, 0] peer0 = Inr q \<and>
          ping_if_required env0 1121 1122 peer0 = Inr (q\<lparr>ping_time := 1122\<rparr>) \<and>
          written q = written peer0 @ [f]"
    by (rule mp)
  from t [of 1120 1120, THEN conjunct2, THEN conjunct1] b
  have 2: "ping_if_required env0 1120 1120 peer0 = Inr peer0"
    by (rule mp)
  from t [of 0 0] have 3: "gen_msg (env_structured env0) ''ping'' ping_kwargs
      = Inr [0, 18, 0, 4, 0, 4, 0, 0, 0, 0]"
    by blast
  from 1 2 3 show ?thesis by (intro conjI)
qed

text \<open>
  The claim as stated fails: the last ping was at time 1000, a message (a \<open>pong\<close>) is
  sent at time 1100, and the loop iteration at time 1121 still emits a ping, 21
  seconds after that send.
\<close>

theorem ping_despite_recent_send:
  "map_sum id snd (run_steps env0 [(1100, Send [0, 19, 0, 0]), (1121, Ping_check)] peer0) =
     Inr [(1100, Sent), (1121, Pinged)]"
proof -
  have m: "map_of (env_message_types env0) [0, 19] = Some (''pong'', pong_entry)"
    by (simp add: env0_def core_message_types_def)
  have d: "decode_msg (env_message_types env0) [0, 19, 0, 0] =
      Inr (''pong'', [''byteslen'' \<mapsto> [0, 0], ''ignored'' \<mapsto> []])"
    by (simp add: decode_msg_def m handler_pong)
  from send_message_ok [OF d _ env0_facts(4,5) peer0_facts(1,2)] obtain q where
    q: "send_message env0 [0, 19, 0, 0] peer0 = Inr q" "ping_time q = ping_time peer0"
      "0 \<le> priv_sn q" "priv_sn q < 1000"
    by auto
  have due: "120 < 1121 - ping_time q"
    by (simp add: q(2) peer0_facts)
  from ping_emitted [OF env0_facts q(3,4) due, of 1121] obtain q2 f where
    p: "ping_if_required env0 1121 1121 q = Inr (q2\<lparr>ping_time := 1121\<rparr>)"
      "written q2 = written q @ [f]"
    by blast
  show ?thesis
    by (simp add: q(1) p)
qed

section \<open>Encoding followed by decoding\<close>

lemma from_bytes_snoc: "from_bytes (xs @ [x]) = from_bytes xs * 256 + uint x"
  by (simp add: from_bytes_def)

lemma from_bytes_be_bytes: "0 \<le> n \<Longrightarrow> n < 256 ^ k \<Longrightarrow> from_bytes (be_bytes k n) = n"
proof (induction k arbitrary: n)
  case 0
  then show ?case by (simp add: from_bytes_def)
next
  case (Suc k)
  have d: "0 \<le> n div 256" "n div 256 < 256 ^ k"
    using Suc.prems by (simp_all add: pos_imp_zdiv_nonneg_iff div_less_iff_less_mult mult.commute)
  have u: "uint (word_of_int (n mod 256) :: byte) = n mod 256"
    by (simp add: uint_word_of_int take_bit_eq_mod)
  show ?case
    using Suc.IH [OF d] by (simp add: from_bytes_snoc u)
qed

lemma from_bytes_zero: "from_bytes (be_bytes k 0) = 0"
  using from_bytes_be_bytes [of 0 k] by simp

lemma py_slice_middle:
  "py_slice (pre @ b @ post) (int (length pre)) (int (length pre) + int (length b)) = b"
  by (simp add: py_slice_def slice_index_def)

lemma as_vals_upd: "as_vals (ma(k \<mapsto> b)) = (as_vals ma)(k \<mapsto> PBytes b)"
  by (auto simp: as_vals_def)

lemma handlesingle_literal: "py_int_str t = Some n \<Longrightarrow> handlesingle t m = Inr n"
  by (simp add: handlesingle_def)

lemma handlesingle_bytes:
  "py_int_str t = None \<Longrightarrow> ma t = Some b \<Longrightarrow> handlesingle t (as_vals ma) = Inr (bytes_value b)"
  by (simp add: handlesingle_def as_vals_def bytes_value_def split: option.splits)

lemma handlesingle_clone:
  "py_int_str t = None \<longrightarrow> kw t \<noteq> None \<Longrightarrow> handlesingle t (clone L kw) = handlesingle t kw"
  by (auto simp: handlesingle_def clone_def map_add_def split: option.splits)

lemma eval_terms_clone:
  "\<forall>t \<in> set ts. py_int_str t = None \<longrightarrow> kw t \<noteq> None
    \<Longrightarrow> eval_terms g acc ts (clone L kw) = eval_terms g acc ts kw"
proof (induction ts arbitrary: acc)
  case Nil
  then show ?case by simp
next
  case (Cons t ts)
  have h: "handlesingle t (clone L kw) = handlesingle t kw"
    using Cons.prems by (intro handlesingle_clone) simp
  have ih: "\<And>a. eval_terms g a ts (clone L kw) = eval_terms g a ts kw"
    using Cons.prems by (intro Cons.IH) simp
  show ?case
    by (simp only: eval_terms.simps h ih)
qed

lemma calcexp_clone:
  assumes "\<forall>t \<in> names_of e. kw t \<noteq> None"
  shows "calcexp e (clone L kw) = calcexp e kw"
proof -
  have n: "\<forall>t \<in> set (terms_of e). py_int_str t = None \<longrightarrow> kw t \<noteq> None"
    using assms by (simp add: names_of_def)
  show ?thesis
  proof (cases "CHR ''*'' \<in> set e")
    case True
    with n have "\<forall>t \<in> set (split_on CHR ''*'' e). py_int_str t = None \<longrightarrow> kw t \<noteq> None"
      by (simp add: terms_of_def)
    from eval_terms_clone [OF this] True show ?thesis by (simp add: calcexp_def)
  next
    case False
    with n have "\<forall>t \<in> set (split_on CHR ''+'' e). py_int_str t = None \<longrightarrow> kw t \<noteq> None"
      by (simp add: terms_of_def)
    from eval_terms_clone [OF this] False show ?thesis by (simp add: calcexp_def)
  qed
qed

lemma supplied_bound: "supplied fs kw t \<Longrightarrow> kw t \<noteq> None"
  by (auto simp: supplied_def split: option.splits)

lemma encoded_reads_back:
  assumes "encodes kw k b" and "supplied fs kw k" and "(k, p) \<in> set fs"
    and "calcexp (length_exp p) kw = Inr (int (length b))"
  shows "reads_back kw k b"
proof (cases "kw k")
  case None
  with assms(2) show ?thesis by (simp add: supplied_def)
next
  case (Some v)
  show ?thesis
  proof (cases v)
    case (PInt n)
    with Some assms(1) have e: "0 \<le> n" "n < 256 ^ length b" "b = be_bytes (length b) n"
      by (simp_all add: encodes_def)
    from Some PInt assms(2,3,4) have "py_int_bytes (be_bytes (length b) n) = None"
      by (auto simp: supplied_def)
    with e(3) have "py_int_bytes b = None" by simp
    then have "bytes_value b = from_bytes b" by (simp add: bytes_value_def)
    also have "\<dots> = n" using from_bytes_be_bytes [OF e(1,2)] e(3) by simp
    finally show ?thesis using Some PInt by (simp add: reads_back_def)
  next
    case (PBytes x)
    with Some assms(1) have "b = x" by (simp add: encodes_def)
    with Some PBytes show ?thesis by (simp add: reads_back_def)
  qed
qed

lemma handlesingle_agree:
  assumes "handlesingle t (\<lambda>k. map_option PInt (L k)) = Inr v0"
    and "\<forall>k. L k = map_option (\<lambda>b. int (length b)) (ma k)"
    and "\<forall>k b. ma k = Some b \<longrightarrow> k \<in> R \<longrightarrow> reads_back kw k b"
    and "py_int_str t = None \<longrightarrow> t \<in> R"
  shows "\<exists>v. handlesingle t (clone L kw) = Inr v \<and> handlesingle t (as_vals ma) = Inr v"
proof (cases "py_int_str t")
  case (Some n)
  then show ?thesis by (simp add: handlesingle_literal)
next
  case None
  with assms(1) obtain l where "L t = Some l"
    by (auto simp: handlesingle_def split: option.splits)
  with assms(2) obtain b where b: "ma t = Some b" by auto
  from None assms(4) have "t \<in> R" by simp
  with assms(3) b have r: "reads_back kw t b" by simp
  then obtain v where v: "kw t = Some v"
    and eq: "(case v of PInt n \<Rightarrow> n | PBytes x \<Rightarrow> bytes_value x) = bytes_value b"
    by (auto simp: reads_back_def split: option.splits pyval.splits)
  have c: "clone L kw t = Some v"
    using v by (simp add: clone_def map_add_def)
  have "handlesingle t (clone L kw) = Inr (case v of PInt n \<Rightarrow> n | PBytes x \<Rightarrow> bytes_value x)"
    using None c by (cases v) (simp_all add: handlesingle_def bytes_value_def split: option.splits)
  with eq handlesingle_bytes [of t ma b, OF None b] show ?thesis by simp
qed

lemma eval_terms_agree:
  assumes "eval_terms g acc ts (\<lambda>k. map_option PInt (L k)) = Inr v0"
    and "\<forall>k. L k = map_option (\<lambda>b. int (length b)) (ma k)"
    and "\<forall>k b. ma k = Some b \<longrightarrow> k \<in> R \<longrightarrow> reads_back kw k b"
    and "\<forall>t \<in> set ts. py_int_str t = None \<longrightarrow> t \<in> R"
  shows "\<exists>v. eval_terms g acc' ts (clone L kw) = Inr v \<and> eval_terms g acc' ts (as_vals ma) = Inr v"
  using assms(1,4)
proof (induction ts arbitrary: acc acc')
  case Nil
  then show ?case by simp
next
  case (Cons t ts)
  from Cons.prems(1) obtain n where n: "handlesingle t (\<lambda>k. map_option PInt (L k)) = Inr n"
    and r: "eval_terms g (g acc n) ts (\<lambda>k. map_option PInt (L k)) = Inr v0"
    by (auto split: sum.splits)
  from Cons.prems(2) have s: "py_int_str t = None \<longrightarrow> t \<in> R"
    and rest: "\<forall>t \<in> set ts. py_int_str t = None \<longrightarrow> t \<in> R"
    by simp_all
  from handlesingle_agree [OF n assms(2,3) s] obtain v where
    v: "handlesingle t (clone L kw) = Inr v" "handlesingle t (as_vals ma) = Inr v"
    by blast
  from Cons.IH [OF r rest, of "g acc' v"] show ?case
    by (simp add: v)
qed

lemma calcexp_agree:
  assumes "calcexp e (\<lambda>k. map_option PInt (L k)) = Inr v0"
    and "\<forall>k. L k = map_option (\<lambda>b. int (length b)) (ma k)"
    and "\<forall>k b. ma k = Some b \<longrightarrow> k \<in> R \<longrightarrow> reads_back kw k b"
    and "names_of e \<subseteq> R"
  shows "\<exists>v. calcexp e (clone L kw) = Inr v \<and> calcexp e (as_vals ma) = Inr v"
proof -
  have n: "\<forall>t \<in> set (terms_of e). py_int_str t = None \<longrightarrow> t \<in> R"
    using assms(4) by (auto simp: names_of_def)
  show ?thesis
  proof (cases "CHR ''*'' \<in> set e")
    case True
    with assms(1) have plus: "CHR ''+'' \<notin> set e"
      by (auto simp: calcexp_def split: if_splits)
    from assms(1) True plus
    have "eval_terms (\<lambda>a b. a * b) 1 (split_on CHR ''*'' e) (\<lambda>k. map_option PInt (L k)) = Inr v0"
      by (simp add: calcexp_def)
    from eval_terms_agree [OF this assms(2,3), of 1] n True plus show ?thesis
      by (simp add: calcexp_def terms_of_def)
  next
    case False
    with assms(1)
    have "eval_terms (\<lambda>a b. a + b) 0 (split_on CHR ''+'' e) (\<lambda>k. map_option PInt (L k)) = Inr v0"
      by (simp add: calcexp_def)
    from eval_terms_agree [OF this assms(2,3), of 0] n False show ?thesis
      by (simp add: calcexp_def terms_of_def)
  qed
qed

lemma to_bytes_encodes:
  assumes "to_bytes n leng = Inr b"
  shows "0 \<le> n \<and> n < 256 ^ length b \<and> b = be_bytes (length b) n \<and> 0 \<le> leng"
  using assms by (auto simp: to_bytes_def length_be_bytes split: if_splits)

lemma gen_loop_step:
  assumes "gen_loop ((k, p) # rest) kw L d = Inr out" and "\<not> feature p"
  shows "\<exists>leng0 b. calcexp (length_exp p) (\<lambda>k. map_option PInt (L k)) = Inr leng0 \<and>
           (calcexp (length_exp p) (clone L kw) = Inr (int (length b)) \<or>
            calcexp (length_exp p) (clone L kw) = Inl KeyError) \<and>
           encodes kw k b \<and>
           gen_loop rest kw (L(k \<mapsto> int (length b))) (d @ b) = Inr out"
proof -
  from assms obtain leng0 where l0: "calcexp (length_exp p) (\<lambda>k. map_option PInt (L k)) = Inr leng0"
    by (auto split: sum.splits)
  define leng where "leng =
     (case calcexp (length_exp p) (clone L kw) of Inr l \<Rightarrow> l | Inl e \<Rightarrow> leng0)"
  have c: "calcexp (length_exp p) (clone L kw) = Inr leng \<or>
           calcexp (length_exp p) (clone L kw) = Inl KeyError"
  proof (cases "calcexp (length_exp p) (clone L kw)")
    case (Inl e)
    with assms l0 have "e = KeyError"
      by (cases e) (auto split: sum.splits)
    with Inl show ?thesis by simp
  next
    case (Inr x)
    then show ?thesis by (simp add: leng_def)
  qed
  have l: "(case calcexp (length_exp p) (clone L kw) of
              Inl KeyError \<Rightarrow> Inr leng0 | Inl e \<Rightarrow> Inl e | Inr leng1 \<Rightarrow> Inr leng1) = Inr leng"
  proof (cases "calcexp (length_exp p) (clone L kw)")
    case (Inl e)
    with c have "e = KeyError" by simp
    with Inl show ?thesis by (simp add: leng_def)
  next
    case (Inr x)
    then show ?thesis by (simp add: leng_def)
  qed
  from assms l0 l obtain b where
    b: "(case (case kw k of None \<Rightarrow> PInt 0 | Some q \<Rightarrow> q) of
           PBytes x \<Rightarrow> Inr x
         | PInt n \<Rightarrow> (case to_bytes n leng of
                        Inl ValueError \<Rightarrow> Inl (PyException (k @ '' does not fit''))
                      | Inl e \<Rightarrow> Inl e
                      | Inr x \<Rightarrow> Inr x)) = Inr b"
    and n: "int (length b) = leng"
    and r: "gen_loop rest kw (L(k \<mapsto> int (length b))) (d @ b) = Inr out"
    by (auto split: sum.splits if_splits)
  have e: "encodes kw k b"
  proof (cases "kw k")
    case None
    with b have "to_bytes 0 leng = Inr b"
      by (auto split: sum.splits error.splits)
    from to_bytes_encodes [OF this] None show ?thesis by (simp add: encodes_def)
  next
    case (Some v)
    show ?thesis
    proof (cases v)
      case (PInt m)
      with Some b have "to_bytes m leng = Inr b"
        by (auto split: sum.splits error.splits)
      from to_bytes_encodes [OF this] Some PInt show ?thesis by (simp add: encodes_def)
    next
      case (PBytes x)
      with Some b show ?thesis by (simp add: encodes_def)
    qed
  qed
  from c n have c': "calcexp (length_exp p) (clone L kw) = Inr (int (length b)) \<or>
            calcexp (length_exp p) (clone L kw) = Inl KeyError"
    by simp
  from l0 c' e r show ?thesis by blast
qed

lemma refs_member: "(k, p) \<in> set fs \<Longrightarrow> names_of (length_exp p) \<subseteq> refs fs"
  by (auto simp: refs_def)

lemma decoder_follows_encoder:
  assumes "\<forall>(k, p) \<in> set fs. \<not> feature p"
    and "gen_loop fs kw L d = Inr out"
    and "\<forall>k. L k = map_option (\<lambda>b. int (length b)) (ma k)"
    and "\<forall>k b. ma k = Some b \<longrightarrow> encodes kw k b \<and> (k \<in> refs fs0 \<longrightarrow> reads_back kw k b)"
    and "\<forall>t \<in> refs fs0. supplied fs0 kw t"
    and "set fs \<subseteq> set fs0"
    and "chained fs"
    and "fs \<noteq> [] \<longrightarrow> calcexp (position (snd (hd fs))) (as_vals ma) = Inr (int (length pre))"
  shows "\<exists>rest ma'. out = d @ rest \<and>
           handler_loop fs (pre @ rest) ma (int (length pre))
             = Inr (ma', int (length (pre @ rest))) \<and>
           dom ma' = dom ma \<union> fst ` set fs \<and>
           (\<forall>k b. ma' k = Some b \<longrightarrow> encodes kw k b)"
  using assms(1-4,6-8)
proof (induction fs arbitrary: L d ma pre)
  case Nil
  then show ?case by simp
next
  case (Cons f fs)
  obtain k p where f: "f = (k, p)" by (cases f)
  have nf: "\<not> feature p" and nfs: "\<forall>(k, p) \<in> set fs. \<not> feature p"
    using Cons.prems(1) f by simp_all
  have mem: "(k, p) \<in> set fs0" and sub: "set fs \<subseteq> set fs0"
    using Cons.prems(5) f by simp_all
  from gen_loop_step [OF Cons.prems(2) [unfolded f] nf] obtain leng0 b where
    l0: "calcexp (length_exp p) (\<lambda>k. map_option PInt (L k)) = Inr leng0"
    and c: "calcexp (length_exp p) (clone L kw) = Inr (int (length b)) \<or>
            calcexp (length_exp p) (clone L kw) = Inl KeyError"
    and e: "encodes kw k b"
    and r: "gen_loop fs kw (L(k \<mapsto> int (length b))) (d @ b) = Inr out"
    by blast
  have names: "names_of (length_exp p) \<subseteq> refs fs0"
    using mem by (rule refs_member)
  have inv: "\<forall>k b. ma k = Some b \<longrightarrow> k \<in> refs fs0 \<longrightarrow> reads_back kw k b"
    using Cons.prems(4) by simp
  from calcexp_agree [OF l0 Cons.prems(3) inv names] c
  have cl: "calcexp (length_exp p) (clone L kw) = Inr (int (length b))"
    and len: "calcexp (length_exp p) (as_vals ma) = Inr (int (length b))"
    by auto
  have bound: "\<forall>t \<in> names_of (length_exp p). kw t \<noteq> None"
    using names assms(5) by (auto dest: supplied_bound)
  have width: "calcexp (length_exp p) kw = Inr (int (length b))"
    using calcexp_clone [OF bound, of L] cl by simp
  have rb: "k \<in> refs fs0 \<longrightarrow> reads_back kw k b"
  proof
    assume "k \<in> refs fs0"
    with assms(5) have "supplied fs0 kw k" by simp
    with e show "reads_back kw k b"
      using mem width by (rule encoded_reads_back)
  qed
  have pos: "calcexp (position p) (as_vals ma) = Inr (int (length pre))"
    using Cons.prems(7) f by simp
  have L': "\<forall>k'. (L(k \<mapsto> int (length b))) k' = map_option (\<lambda>b. int (length b)) ((ma(k \<mapsto> b)) k')"
    using Cons.prems(3) by simp
  have enc': "\<forall>k' b'. (ma(k \<mapsto> b)) k' = Some b' \<longrightarrow>
      encodes kw k' b' \<and> (k' \<in> refs fs0 \<longrightarrow> reads_back kw k' b')"
    using Cons.prems(4) e rb by simp
  have ch: "chained fs"
    using Cons.prems(6) f by (cases fs) auto
  have hd': "fs \<noteq> [] \<longrightarrow>
      calcexp (position (snd (hd fs))) (as_vals (ma(k \<mapsto> b))) = Inr (int (length (pre @ b)))"
  proof
    assume "fs \<noteq> []"
    then obtain k' p' fs' where fs: "fs = (k', p') # fs'" by (cases fs) auto
    from Cons.prems(6) [unfolded f fs] pos len
    have "calcexp (position p') ((as_vals ma)(k \<mapsto> PBytes b)) = Inr (int (length pre) + int (length b))"
      by simp
    then show "calcexp (position (snd (hd fs))) (as_vals (ma(k \<mapsto> b))) = Inr (int (length (pre @ b)))"
      by (simp add: fs as_vals_upd)
  qed
  from Cons.IH [OF nfs r L' enc' sub ch hd'] obtain rest ma' where
    o: "out = (d @ b) @ rest"
    and h: "handler_loop fs ((pre @ b) @ rest) (ma(k \<mapsto> b)) (int (length (pre @ b)))
             = Inr (ma', int (length ((pre @ b) @ rest)))"
    and dm: "dom ma' = dom (ma(k \<mapsto> b)) \<union> fst ` set fs"
    and en: "\<forall>k b. ma' k = Some b \<longrightarrow> encodes kw k b"
    by blast
  have sl: "py_slice (pre @ b @ rest) (int (length pre)) (int (length pre) + int (length b)) = b"
    by (rule py_slice_middle)
  have "handler_loop (f # fs) (pre @ (b @ rest)) ma (int (length pre))
      = Inr (ma', int (length (pre @ (b @ rest))))"
    using h by (simp add: f nf pos len sl)
  with o dm en show ?case
    by (intro exI [of _ "b @ rest"] exI [of _ ma']) (auto simp: f)
qed

lemma handler_loop_features:
  "\<forall>(k, p) \<in> set ft. feature p
    \<Longrightarrow> handler_loop ft data ma (int (length data)) = Inr (ma, int (length data))"
  by (induction ft) auto

lemma handler_loop_append:
  "handler_loop fs data ma pos = Inr (ma', pos')
    \<Longrightarrow> handler_loop (fs @ ft) data ma pos = handler_loop ft data ma' pos'"
proof (induction fs arbitrary: ma pos)
  case Nil
  then show ?case by simp
next
  case (Cons f fs)
  obtain k p where f: "f = (k, p)" by (cases f)
  show ?case
  proof (cases "feature p \<and> pos = int (length data)")
    case True
    with Cons.prems f have "handler_loop fs data ma pos = Inr (ma', pos')" by simp
    from Cons.IH [OF this] True f show ?thesis by simp
  next
    case False
    with Cons.prems f obtain len where
      a: "calcexp (position p) (as_vals ma) = Inr pos"
      and l: "calcexp (length_exp p) (as_vals ma) = Inr len"
      and r: "handler_loop fs data (ma(k \<mapsto> py_slice data pos (pos + len))) (pos + len)
               = Inr (ma', pos')"
      by (auto split: sum.splits if_splits)
    have step: "handler_loop ((f # fs) @ ft) data ma pos
        = handler_loop (fs @ ft) data (ma(k \<mapsto> py_slice data pos (pos + len))) (pos + len)"
      using False f a l by auto
    show ?thesis
      unfolding step by (rule Cons.IH [OF r])
  qed
qed

lemma gen_loop_append_features:
  assumes "\<forall>(k, p) \<in> set ft. feature p"
  shows "gen_loop (fs @ ft) kw L d = gen_loop fs kw L d"
proof -
  have "filter (\<lambda>(k, p). \<not> feature p) ft = []"
    using assms by (auto simp: filter_empty_conv)
  then have "filter (\<lambda>(k, p). \<not> feature p) (fs @ ft) = filter (\<lambda>(k, p). \<not> feature p) fs"
    by simp
  then have "gen_loop (filter (\<lambda>(k, p). \<not> feature p) (fs @ ft)) kw L d
      = gen_loop (filter (\<lambda>(k, p). \<not> feature p) fs) kw L d"
    by simp
  then show ?thesis by (simp only: gen_loop_filter)
qed

lemma decode_of_encoded:
  assumes "load_message_types structured = Inr mt"
    and "(name, entry) \<in> set structured"
    and "distinct (map fst structured)"
    and "name \<notin> {''final_incorrect_cltv_expiry'', ''final_incorrect_htlc_amount''}"
    and "payload entry = fs @ ft" and "payload entry \<noteq> []"
    and "\<forall>(k, p) \<in> set fs. \<not> feature p" and "\<forall>(k, p) \<in> set ft. feature p"
    and "starts_at_zero fs" and "chained fs"
    and "\<forall>t \<in> refs fs. supplied fs kwargs t"
    and "gen_msg structured name kwargs = Inr data"
  shows "\<exists>ma. decode_msg mt data = Inr (name, ma) \<and> dom ma = fst ` set fs \<and>
              (\<forall>k b. ma k = Some b \<longrightarrow> encodes kwargs k b)"
proof -
  have m: "map_of structured name = Some entry"
    using assms(2,3) by simp
  from assms(12) m obtain num tb where
    ty: "py_int_str (msg_type entry) = Some num" and tb: "to_bytes num 2 = Inr tb"
    and g: "gen_loop (payload entry) kwargs Map.empty tb = Inr data"
    by (auto simp: gen_msg_def split: option.splits sum.splits)
  have ltb: "length tb = 2"
    using tb by (auto simp: to_bytes_def length_be_bytes split: if_splits)
  have reg: "map_of mt tb = Some (name, entry)"
    using assms(1,2,4,6) ty tb by (rule loaded_entry)
  have g': "gen_loop fs kwargs Map.empty tb = Inr data"
    using g by (simp add: assms(5) gen_loop_append_features [OF assms(8)])
  have hd0: "fs \<noteq> [] \<longrightarrow>
      calcexp (position (snd (hd fs))) (as_vals Map.empty) = Inr (int (length ([] :: bytes)))"
    using assms(9) by (cases fs) (auto simp: starts_at_zero_def)
  have sub: "set fs \<subseteq> set fs" by simp
  from decoder_follows_encoder [OF assms(7) g' _ _ assms(11) sub assms(10) hd0]
  obtain rest ma where o: "data = tb @ rest"
    and h: "handler_loop fs ([] @ rest) Map.empty (int (length ([] :: bytes)))
             = Inr (ma, int (length ([] @ rest)))"
    and dm: "dom ma = dom (Map.empty :: string \<rightharpoonup> bytes) \<union> fst ` set fs"
    and en: "\<forall>k b. ma k = Some b \<longrightarrow> encodes kwargs k b"
    by auto
  from h have h': "handler_loop fs rest Map.empty 0 = Inr (ma, int (length rest))"
    by simp
  have "handler_loop (fs @ ft) rest Map.empty 0 = Inr (ma, int (length rest))"
    using handler_loop_append [OF h', of ft] handler_loop_features [OF assms(8), of rest ma]
    by simp
  then have "handler name entry rest = Inr (name, ma)"
    by (simp add: handler_def assms(5))
  then have "decode_msg mt data = Inr (name, ma)"
    using reg ltb by (simp add: decode_msg_def o)
  with dm en show ?thesis by auto
qed

lemma encodes_cases:
  assumes "encodes kw k b"
  shows "(\<forall>x. kw k = Some (PBytes x) \<longrightarrow> b = x) \<and>
         (\<forall>n. kw k = Some (PInt n) \<longrightarrow> from_bytes b = n) \<and>
         (kw k = None \<longrightarrow> from_bytes b = 0)"
proof (intro conjI allI impI)
  fix x assume "kw k = Some (PBytes x)"
  with assms show "b = x" by (simp add: encodes_def)
next
  fix n assume "kw k = Some (PInt n)"
  with assms have "0 \<le> n" "n < 256 ^ length b" "b = be_bytes (length b) n"
    by (simp_all add: encodes_def)
  then show "from_bytes b = n"
    using from_bytes_be_bytes [of n "length b"] by simp
next
  assume "kw k = None"
  with assms have "b = be_bytes (length b) 0" by (simp add: encodes_def)
  then show "from_bytes b = 0"
    using from_bytes_zero [of "length b"] by simp
qed

text \<open>
  Claim C1, as the code has it. Take a message of the schema that the loader registers,
  whose payload is a run of plain fields in which the first is at position 0 and each
  next one starts where the previous one ends, followed by feature fields only. Take
  keyword arguments that supply every field named in a length expression, as bytes or
  as an integer whose big-endian encoding at the field's width is not an ASCII decimal
  literal. If \<open>gen_msg\<close> returns bytes, \<open>decode_msg\<close> of these bytes returns the
  message name and a field map whose keys are the plain fields: a field supplied as
  bytes is bound to these bytes, a field supplied as an integer to bytes whose
  big-endian value is that integer, a field not supplied to bytes of value 0. Feature
  fields are not recovered.
\<close>

theorem encode_then_decode:
  assumes "load_message_types structured = Inr mt"
    and "(name, entry) \<in> set structured"
    and "distinct (map fst structured)"
    and "name \<notin> {''final_incorrect_cltv_expiry'', ''final_incorrect_htlc_amount''}"
    and "payload entry = fs @ ft" and "payload entry \<noteq> []"
    and "\<forall>(k, p) \<in> set fs. \<not> feature p" and "\<forall>(k, p) \<in> set ft. feature p"
    and "starts_at_zero fs" and "chained fs"
    and "\<forall>t \<in> refs fs. supplied fs kwargs t"
    and "gen_msg structured name kwargs = Inr data"
  shows "\<exists>ma. decode_msg mt data = Inr (name, ma) \<and> dom ma = fst ` set fs \<and>
              (\<forall>k \<in> fst ` set fs. \<exists>b. ma k = Some b \<and>
                 (\<forall>x. kwargs k = Some (PBytes x) \<longrightarrow> b = x) \<and>
                 (\<forall>n. kwargs k = Some (PInt n) \<longrightarrow> from_bytes b = n) \<and>
                 (kwargs k = None \<longrightarrow> from_bytes b = 0))"
proof -
  from decode_of_encoded [OF assms] obtain ma where
    d: "decode_msg mt data = Inr (name, ma)" and dm: "dom ma = fst ` set fs"
    and en: "\<forall>k b. ma k = Some b \<longrightarrow> encodes kwargs k b"
    by blast
  have "\<exists>b. ma k = Some b \<and>
                 (\<forall>x. kwargs k = Some (PBytes x) \<longrightarrow> b = x) \<and>
                 (\<forall>n. kwargs k = Some (PInt n) \<longrightarrow> from_bytes b = n) \<and>
                 (kwargs k = None \<longrightarrow> from_bytes b = 0)" if "k \<in> fst ` set fs" for k
  proof -
    from that dm obtain b where b: "ma k = Some b" by auto
    with en have "encodes kwargs k b" by simp
    from encodes_cases [OF this] b show ?thesis by (intro exI [of _ b]) simp
  qed
  with d dm show ?thesis by (intro exI [of _ ma]) simp
qed

section \<open>The round trip on the init and ping messages\<close>

lemma init_layout:
  "payload init_entry = init_fields @ []" "payload init_entry \<noteq> []"
  "\<forall>(k, p) \<in> set init_fields. \<not> feature p" "\<forall>(k, p) \<in> set ([] :: (string \<times> field_spec) list). feature p"
  by (simp_all add: init_fields_def init_entry_def)

lemma init_terms:
  "py_int_str ''0'' = Some 0" "py_int_str ''2'' = Some 2" "py_int_str ''4'' = Some 4"
  "py_int_str ''gflen'' = None" "py_int_str ''lflen'' = None"
  "py_int_str ''byteslen'' = None"
  by code_simp+

lemma calc_literals:
  "calcexp ''0'' ma = Inr 0" "calcexp ''2'' ma = Inr 2" "calcexp ''4'' ma = Inr 4"
  by (simp_all add: calcexp_def handlesingle_def init_terms)

lemma calc_names:
  "calcexp ''gflen'' ma = handlesingle ''gflen'' ma"
  "calcexp ''lflen'' ma = handlesingle ''lflen'' ma"
  "calcexp ''byteslen'' ma = handlesingle ''byteslen'' ma"
  "calcexp ''2+gflen'' ma =
     (case handlesingle ''gflen'' ma of Inl e \<Rightarrow> Inl e | Inr v \<Rightarrow> Inr (2 + v))"
  "calcexp ''4+gflen'' ma =
     (case handlesingle ''gflen'' ma of Inl e \<Rightarrow> Inl e | Inr v \<Rightarrow> Inr (4 + v))"
  by (simp_all add: calcexp_def handlesingle_literal init_terms split: sum.splits)

lemma init_names:
  "names_of ''0'' = {}" "names_of ''2'' = {}" "names_of ''4'' = {}"
  "names_of ''gflen'' = {''gflen''}" "names_of ''lflen'' = {''lflen''}"
  "names_of ''byteslen'' = {''byteslen''}"
  by (auto simp: names_of_def terms_of_def init_terms)

lemma handlesingle_other: "k \<noteq> t \<Longrightarrow> handlesingle t (ma(k \<mapsto> x)) = handlesingle t ma"
  by (auto simp: handlesingle_def split: option.splits)

lemma init_starts: "starts_at_zero init_fields"
  by (simp add: starts_at_zero_def init_fields_def init_entry_def calc_literals)

lemma init_chained: "chained init_fields"
  by (auto simp: init_fields_def init_entry_def calc_literals calc_names handlesingle_other
      split: sum.splits)

lemma init_refs: "refs init_fields = {''gflen'', ''lflen''}"
  by (auto simp: refs_def init_fields_def init_entry_def init_names)

lemma two_byte_encodings:
  "py_int_bytes (be_bytes 2 0) = None" "py_int_bytes (be_bytes 2 1) = None"
  "py_int_bytes (be_bytes 2 50) = None" "py_int_bytes (be_bytes 1 50) = Some 2"
  by code_simp+

lemma init_supplied: "\<forall>t \<in> refs init_fields. supplied init_fields init_kwargs t"
proof -
  have "supplied init_fields init_kwargs ''gflen''" "supplied init_fields init_kwargs ''lflen''"
    by (simp_all add: supplied_def init_kwargs_def init_fields_def init_entry_def
        calc_literals two_byte_encodings)
  then show ?thesis by (simp only: init_refs ball_simps bex_simps)
qed

lemma ping_layout:
  "payload ping_entry = payload ping_entry @ []" "payload ping_entry \<noteq> []"
  "\<forall>(k, p) \<in> set (payload ping_entry). \<not> feature p"
  "\<forall>(k, p) \<in> set ([] :: (string \<times> field_spec) list). feature p"
  by (simp_all add: ping_entry_def)

lemma ping_starts: "starts_at_zero (payload ping_entry)"
  by (simp add: starts_at_zero_def ping_entry_def calc_literals)

lemma ping_chained: "chained (payload ping_entry)"
  by (simp add: ping_entry_def calc_literals)

lemma ping_refs: "refs (payload ping_entry) = {''byteslen''}"
  by (auto simp: refs_def ping_entry_def init_names)

lemma ping_supplied: "\<forall>t \<in> refs (payload ping_entry). supplied (payload ping_entry) ping_kwargs_50 t"
proof -
  have "supplied (payload ping_entry) ping_kwargs_50 ''byteslen''"
    by (simp add: supplied_def ping_kwargs_50_def ping_entry_def calc_literals
        two_byte_encodings)
  then show ?thesis by (simp only: ping_refs ball_simps bex_simps)
qed

lemma gen_ping_50:
  "gen_msg core_schema ''ping'' ping_kwargs_50 = Inr ([0, 18, 0, 4, 0, 50] @ replicate 50 0)"
  by code_simp

theorem encode_then_decode_witness:
  "(\<exists>ma. decode_msg core_message_types [0, 16, 0, 0, 0, 1, 8] = Inr (''init'', ma) \<and>
        dom ma = fst ` set init_fields \<and>
        (\<forall>k \<in> fst ` set init_fields. \<exists>b. ma k = Some b \<and>
           (\<forall>x. init_kwargs k = Some (PBytes x) \<longrightarrow> b = x) \<and>
           (\<forall>n. init_kwargs k = Some (PInt n) \<longrightarrow> from_bytes b = n) \<and>
           (init_kwargs k = None \<longrightarrow> from_bytes b = 0))) \<and>
   (\<exists>ma. decode_msg core_message_types ([0, 18, 0, 4, 0, 50] @ replicate 50 0)
            = Inr (''ping'', ma) \<and>
        dom ma = fst ` set (payload ping_entry) \<and>
        (\<forall>k \<in> fst ` set (payload ping_entry). \<exists>b. ma k = Some b \<and>
           (\<forall>x. ping_kwargs_50 k = Some (PBytes x) \<longrightarrow> b = x) \<and>
           (\<forall>n. ping_kwargs_50 k = Some (PInt n) \<longrightarrow> from_bytes b = n) \<and>
           (ping_kwargs_50 k = None \<longrightarrow> from_bytes b = 0)))"
proof -
  have 1: "(''init'', init_entry) \<in> set core_schema" and 2: "distinct (map fst core_schema)"
    and 4: "(''ping'', ping_entry) \<in> set core_schema"
    by (simp_all add: core_schema_def)
  have 3: "''init'' \<notin> {''final_incorrect_cltv_expiry'', ''final_incorrect_htlc_amount''}"
    and 5: "''ping'' \<notin> {''final_incorrect_cltv_expiry'', ''final_incorrect_htlc_amount''}"
    by simp_all
  have g: "gen_msg core_schema ''init'' init_kwargs = Inr [0, 16, 0, 0, 0, 1, 8]"
    by code_simp
  show ?thesis
    by (intro conjI
        encode_then_decode [OF load_core_schema 1 2 3 init_layout init_starts init_chained
          init_supplied g]
        encode_then_decode [OF load_core_schema 4 2 5 ping_layout ping_starts ping_chained
          ping_supplied gen_ping_50])
qed

text \<open>
  The claim as stated fails: \<open>channel_reestablish\<close> is encoded from keyword arguments
  that give every field of its payload a value, the two feature fields included, and
  the decoded field map has no entry for \<open>my_current_per_commitment_point\<close>.
\<close>

lemma gen_full_reestablish:
  "gen_msg schema1 ''channel_reestablish'' full_reestablish_kwargs =
     Inr ([0, 136] @ replicate 32 7 @ [0, 0, 0, 0, 0, 0, 0, 1] @ [0, 0, 0, 0, 0, 0, 0, 0])"
  by code_simp

lemma reestablish_literals:
  "py_int_str ''0'' = Some 0" "py_int_str ''8'' = Some 8" "py_int_str ''32'' = Some 32"
  "py_int_str ''40'' = Some 40"
  by code_simp+

lemma reestablish_layout:
  "payload channel_reestablish_entry =
     take 3 (payload channel_reestablish_entry) @ drop 3 (payload channel_reestablish_entry)"
  "payload channel_reestablish_entry \<noteq> []"
  "\<forall>(k, p) \<in> set (take 3 (payload channel_reestablish_entry)). \<not> feature p"
  "\<forall>(k, p) \<in> set (drop 3 (payload channel_reestablish_entry)). feature p"
  "starts_at_zero (take 3 (payload channel_reestablish_entry))"
  "chained (take 3 (payload channel_reestablish_entry))"
  "refs (take 3 (payload channel_reestablish_entry)) = {}"
  by (auto simp: channel_reestablish_entry_def starts_at_zero_def refs_def names_of_def
      terms_of_def calcexp_def handlesingle_def reestablish_literals)

theorem supplied_feature_field_not_recovered:
  "\<exists>ma. gen_msg schema1 ''channel_reestablish'' full_reestablish_kwargs =
           Inr ([0, 136] @ replicate 32 7 @ [0, 0, 0, 0, 0, 0, 0, 1] @ [0, 0, 0, 0, 0, 0, 0, 0]) \<and>
        decode_msg message_types1
           ([0, 136] @ replicate 32 7 @ [0, 0, 0, 0, 0, 0, 0, 1] @ [0, 0, 0, 0, 0, 0, 0, 0])
          = Inr (''channel_reestablish'', ma) \<and>
        full_reestablish_kwargs ''my_current_per_commitment_point''
          = Some (PBytes (replicate 33 2)) \<and>
        ma ''my_current_per_commitment_point'' = None"
proof -
  have 1: "(''channel_reestablish'', channel_reestablish_entry) \<in> set schema1"
    and 2: "distinct (map fst schema1)"
    by (simp_all add: schema1_def core_schema_def)
  have 3: "''channel_reestablish''
      \<notin> {''final_incorrect_cltv_expiry'', ''final_incorrect_htlc_amount''}"
    by simp
  have sup: "\<forall>t \<in> refs (take 3 (payload channel_reestablish_entry)).
      supplied (take 3 (payload channel_reestablish_entry)) full_reestablish_kwargs t"
    by (simp only: reestablish_layout(7) ball_empty)
  from decode_of_encoded [OF load_schema1 1 2 3 reestablish_layout(1-6) sup gen_full_reestablish]
  obtain ma where d: "decode_msg message_types1
           ([0, 136] @ replicate 32 7 @ [0, 0, 0, 0, 0, 0, 0, 1] @ [0, 0, 0, 0, 0, 0, 0, 0])
          = Inr (''channel_reestablish'', ma)"
    and dm: "dom ma = fst ` set (take 3 (payload channel_reestablish_entry))"
    by blast
  have "''my_current_per_commitment_point'' \<notin> dom ma"
    unfolding dm by (simp add: channel_reestablish_entry_def)
  then have n: "ma ''my_current_per_commitment_point'' = None" by auto
  have k: "full_reestablish_kwargs ''my_current_per_commitment_point''
          = Some (PBytes (replicate 33 2))"
    by (simp add: full_reestablish_kwargs_def)
  from gen_full_reestablish d k n show ?thesis by (intro exI [of _ ma] conjI)
qed

text \<open>
  Two slips of the codec that the statement above keeps out. When a length field is
  left out, the encoder takes the field's byte length for its value: \<open>init\<close> without
  \<open>gflen\<close> gets two bytes of \<open>globalfeatures\<close> and the decoder rejects the result.
  And \<open>handlesingle\<close> reads bytes that form a decimal literal as that literal: the two
  bytes \<open>09 31\<close> are 2353 in big-endian and are read as \<open>"\t1"\<close>, that is 1, while
  50 on two bytes is read as 50 (on one byte it would be the literal \<open>"2"\<close>).
\<close>

lemma gen_partial_init:
  "gen_msg core_schema ''init'' partial_init_kwargs = Inr [0, 16, 0, 0, 0, 0, 0, 1, 8]"
  by code_simp

lemma handler_partial_init:
  "handler ''init'' init_entry [0, 0, 0, 0, 0, 1, 8] = Inl AssertionError"
  by (simp add: handler_def init_entry_def calcexp_def handlesingle_def py_int_str_def
      py_int_literal_def parse_digits_def is_digit_def str_space_def bytes_space_def
      as_vals_def py_int_bytes_def from_bytes_def py_slice_def slice_index_def)

lemma init_without_gflen_slip:
  "gen_msg core_schema ''init'' partial_init_kwargs = Inr [0, 16, 0, 0, 0, 0, 0, 1, 8] \<and>
   decode_msg core_message_types [0, 16, 0, 0, 0, 0, 0, 1, 8] = Inl AssertionError"
  by (simp add: gen_partial_init decode_msg_def core_message_types_def handler_partial_init)

lemma decimal_literal_misread:
  "handlesingle ''byteslen'' (as_vals [''byteslen'' \<mapsto> [9, 49]]) = Inr 1 \<and>
   from_bytes [9, 49] = 2353 \<and> to_bytes 2353 2 = Inr [9, 49]"
  by code_simp

section \<open>Channel reestablishment\<close>

















text \<open>
  A counter outside the 8-byte range is not sent at all: with \<open>remote.ctn = -1\<close>, the
  value a channel has before its funding is signed, \<open>to_bytes\<close> raises
  \<open>OverflowError\<close> and the flow ends there.
\<close>

lemma gen_negative_ctn:
  "gen_msg schema1 ''channel_reestablish'' (reestablish_kwargs_of chan_unsigned)
     = Inl OverflowError"
  by code_simp

lemma reestablish_negative_ctn:
  "reestablish_channel env1 chan_unsigned lnpeer0 = Inl OverflowError"
  by (simp add: reestablish_channel_def Let_def env1_def gen_negative_ctn)

section \<open>The checks on \<open>accept_channel\<close>\<close>

lemma then_do_Inl: "then_do (Inl e) f = Inl e"
  by (simp add: then_do_def)

lemma then_do_Inr: "then_do (Inr x) f = f x"
  by (simp add: then_do_def)

lemma succeeded_iff: "succeeded r \<longleftrightarrow> (\<exists>x. r = Inr x)"
  by (cases r) (simp_all add: succeeded_def)

lemma load_schema2: "load_message_types schema2 = Inr message_types2"
  by code_simp

lemma read_accept_channel_result:
  assumes "payld ''first_per_commitment_point'' = Some point"
    and "payld ''payment_basepoint'' = Some payment"
    and "payld ''funding_pubkey'' = Some funding"
    and "payld ''htlc_basepoint'' = Some htlc"
    and "payld ''delayed_payment_basepoint'' = Some delayed"
    and "payld ''revocation_basepoint'' = Some revocation"
    and "payld ''to_self_delay'' = Some delay"
    and "payld ''dust_limit_satoshis'' = Some dust"
    and "payld ''max_htlc_value_in_flight_msat'' = Some in_flight"
    and "payld ''max_accepted_htlcs'' = Some accepted_htlcs"
    and "payld ''minimum_depth'' = Some depth"
    and "payld ''htlc_minimum_msat'' = Some htlc_min"
  shows "read_accept_channel payld =
     (if from_bytes dust < 600 \<and> from_bytes htlc_min < 600000 \<and>
         198000000 \<le> from_bytes in_flight
      then Inr (point,
             \<lparr>payment_basepoint = only_pubkey_keypair payment,
              multisig_key = only_pubkey_keypair funding,
              htlc_basepoint = only_pubkey_keypair htlc,
              delayed_basepoint = only_pubkey_keypair delayed,
              revocation_basepoint = only_pubkey_keypair revocation,
              to_self_delay = from_bytes delay,
              dust_limit_sat = from_bytes dust,
              max_htlc_value_in_flight_msat = from_bytes in_flight,
              max_accepted_htlcs = from_bytes accepted_htlcs\<rparr>,
             from_bytes depth)
      else Inl AssertionError)"
  by (simp add: read_accept_channel_def subscript_def py_assert_def Let_def assms
      then_do_Inl then_do_Inr)

lemma read_accept_channel_checks:
  assumes "set accept_channel_fields \<subseteq> dom payld"
    and "payld ''dust_limit_satoshis'' = Some dust"
    and "payld ''htlc_minimum_msat'' = Some htlc_min"
    and "payld ''max_htlc_value_in_flight_msat'' = Some in_flight"
  shows "(from_bytes dust < 600 \<and> from_bytes htlc_min < 600000 \<and>
            198000000 \<le> from_bytes in_flight
          \<longrightarrow> (\<exists>r. read_accept_channel payld = Inr r)) \<and>
         (\<not> (from_bytes dust < 600 \<and> from_bytes htlc_min < 600000 \<and>
            198000000 \<le> from_bytes in_flight)
          \<longrightarrow> read_accept_channel payld = Inl AssertionError)"
proof -
  from assms(1) obtain point where 1: "payld ''first_per_commitment_point'' = Some point"
    by (auto simp: accept_channel_fields_def)
  from assms(1) obtain payment where 2: "payld ''payment_basepoint'' = Some payment"
    by (auto simp: accept_channel_fields_def)
  from assms(1) obtain funding where 3: "payld ''funding_pubkey'' = Some funding"
    by (auto simp: accept_channel_fields_def)
  from assms(1) obtain htlc where 4: "payld ''htlc_basepoint'' = Some htlc"
    by (auto simp: accept_channel_fields_def)
  from assms(1) obtain delayed where 5: "payld ''delayed_payment_basepoint'' = Some delayed"
    by (auto simp: accept_channel_fields_def)
  from assms(1) obtain revocation where 6: "payld ''revocation_basepoint'' = Some revocation"
    by (auto simp: accept_channel_fields_def)
  from assms(1) obtain delay where 7: "payld ''to_self_delay'' = Some delay"
    by (auto simp: accept_channel_fields_def)
  from assms(1) obtain accepted_htlcs where 8: "payld ''max_accepted_htlcs'' = Some accepted_htlcs"
    by (auto simp: accept_channel_fields_def)
  from assms(1) obtain depth where 9: "payld ''minimum_depth'' = Some depth"
    by (auto simp: accept_channel_fields_def)
  note r = read_accept_channel_result [OF 1 2 3 4 5 6 7 assms(2) assms(4) 8 9 assms(3)]
  show ?thesis
    unfolding r by simp
qed

lemma send_open_channel_mktx:
  "send_open_channel env (ext\<lparr>mktx := build\<rparr>) password funding_sat push_msat temp_channel_id p
     = send_open_channel env ext password funding_sat push_msat temp_channel_id p"
  by (simp add: send_open_channel_def make_local_config_def keypair_generator_def
      open_channel_kwargs_def)

lemma flow_after_open:
  assumes "send_open_channel env ext password funding_sat push_msat temp_channel_id p
             = Inr (lc, seed, p1)"
  shows "channel_establishment_flow env ext config password funding_sat push_msat
           temp_channel_id node_pubkey accepted funding_signed p =
         then_do (read_accept_channel accepted) (\<lambda>remote.
         then_do (send_funding_created env ext config password funding_sat push_msat
                    temp_channel_id node_pubkey lc seed remote p1)
           (\<lambda>(m, funding_tx, p2).
         then_do (receive_funding_signed ext funding_signed m funding_tx) (\<lambda>m1.
           Inr (m1, p2))))"
  by (simp add: channel_establishment_flow_def assms then_do_Inr)

text \<open>
  Claim C7. Let the flow have sent \<open>open_channel\<close>, and let the \<open>accept_channel\<close>
  payload it then receives hold the fields the flow reads. The reading of the payload
  succeeds if and only if \<open>dust_limit_satoshis < 600\<close>, \<open>htlc_minimum_msat < 600000\<close>
  and \<open>max_htlc_value_in_flight_msat \<ge> 198000000\<close>. When one of the three is violated
  the flow ends with \<open>AssertionError\<close> whatever the wallet's \<open>mktx\<close> would do, so no
  funding transaction is built; when all three hold the flow goes on with the
  building of the funding transaction.
\<close>

theorem accept_channel_sanity_checks:
  assumes "send_open_channel env ext password funding_sat push_msat temp_channel_id p
             = Inr (lc, seed, p1)"
    and "set accept_channel_fields \<subseteq> dom accepted"
    and "accepted ''dust_limit_satoshis'' = Some dust"
    and "accepted ''htlc_minimum_msat'' = Some htlc_min"
    and "accepted ''max_htlc_value_in_flight_msat'' = Some in_flight"
  shows "((\<exists>r. read_accept_channel accepted = Inr r) \<longleftrightarrow>
            from_bytes dust < 600 \<and> from_bytes htlc_min < 600000 \<and>
            198000000 \<le> from_bytes in_flight) \<and>
         (\<not> (from_bytes dust < 600 \<and> from_bytes htlc_min < 600000 \<and>
              198000000 \<le> from_bytes in_flight) \<longrightarrow>
            (\<forall>build. channel_establishment_flow env (ext\<lparr>mktx := build\<rparr>) config password
                       funding_sat push_msat temp_channel_id node_pubkey accepted
                       funding_signed p = Inl AssertionError)) \<and>
         (from_bytes dust < 600 \<and> from_bytes htlc_min < 600000 \<and>
            198000000 \<le> from_bytes in_flight \<longrightarrow>
            (\<exists>r. read_accept_channel accepted = Inr r \<and>
               channel_establishment_flow env ext config password funding_sat push_msat
                 temp_channel_id node_pubkey accepted funding_signed p =
               then_do (send_funding_created env ext config password funding_sat push_msat
                          temp_channel_id node_pubkey lc seed r p1)
                 (\<lambda>(m, funding_tx, p2).
               then_do (receive_funding_signed ext funding_signed m funding_tx) (\<lambda>m1.
                 Inr (m1, p2)))))"
proof -
  let ?ok = "from_bytes dust < 600 \<and> from_bytes htlc_min < 600000 \<and>
             198000000 \<le> from_bytes in_flight"
  note c = read_accept_channel_checks [OF assms(2-5)]
  have a: "(\<exists>r. read_accept_channel accepted = Inr r) \<longleftrightarrow> ?ok"
  proof
    assume "\<exists>r. read_accept_channel accepted = Inr r"
    with c show ?ok by auto
  next
    assume ?ok
    with c show "\<exists>r. read_accept_channel accepted = Inr r" by blast
  qed
  have b: "channel_establishment_flow env (ext\<lparr>mktx := build\<rparr>) config password
             funding_sat push_msat temp_channel_id node_pubkey accepted funding_signed p
           = Inl AssertionError" if "\<not> ?ok" for build
  proof -
    from that c have r: "read_accept_channel accepted = Inl AssertionError" by blast
    have s: "send_open_channel env (ext\<lparr>mktx := build\<rparr>) password funding_sat push_msat
               temp_channel_id p = Inr (lc, seed, p1)"
      by (simp only: send_open_channel_mktx assms(1))
    show ?thesis
      by (simp only: flow_after_open [OF s] r then_do_Inl)
  qed
  have d: "\<exists>r. read_accept_channel accepted = Inr r \<and>
               channel_establishment_flow env ext config password funding_sat push_msat
                 temp_channel_id node_pubkey accepted funding_signed p =
               then_do (send_funding_created env ext config password funding_sat push_msat
                          temp_channel_id node_pubkey lc seed r p1)
                 (\<lambda>(m, funding_tx, p2).
               then_do (receive_funding_signed ext funding_signed m funding_tx) (\<lambda>m1.
                 Inr (m1, p2)))" if ?ok
  proof -
    from that a obtain r where r: "read_accept_channel accepted = Inr r" by blast
    show ?thesis
      by (intro exI [of _ r] conjI r) (simp only: flow_after_open [OF assms(1)] r then_do_Inr)
  qed
  from a b d show ?thesis by blast
qed

lemma open_channel_sent: "succeeded (send_open_channel env2 ext0 ''pw'' 100000 0 (replicate 32 8) peer0)"
  by code_simp

lemma accept_payload_fields:
  "set accept_channel_fields \<subseteq> dom (accept_payload dust)"
  "accept_payload dust ''dust_limit_satoshis'' = Some dust"
  "accept_payload dust ''htlc_minimum_msat'' = Some [0, 0, 0, 0, 0, 0, 0, 1]"
  "accept_payload dust ''max_htlc_value_in_flight_msat'' = Some [0, 0, 0, 0, 255, 255, 255, 255]"
  by (simp_all add: accept_payload_def accept_channel_fields_def)

lemma accept_payload_values:
  "from_bytes [0, 0, 0, 0, 0, 0, 0, 10] = 10" "from_bytes [0, 0, 0, 0, 0, 0, 2, 88] = 600"
  "from_bytes [0, 0, 0, 0, 0, 0, 0, 1] = 1" "from_bytes [0, 0, 0, 0, 255, 255, 255, 255] = 4294967295"
  by (simp_all add: from_bytes_def)

theorem accept_channel_sanity_checks_witness:
  "(\<exists>r. read_accept_channel (accept_payload [0, 0, 0, 0, 0, 0, 0, 10]) = Inr r) \<and>
   \<not> (\<exists>r. read_accept_channel (accept_payload [0, 0, 0, 0, 0, 0, 2, 88]) = Inr r) \<and>
   flow0 [0, 0, 0, 0, 0, 0, 2, 88] = Inl AssertionError"
proof -
  from open_channel_sent obtain lc seed p1 where
    s: "send_open_channel env2 ext0 ''pw'' 100000 0 (replicate 32 8) peer0 = Inr (lc, seed, p1)"
    unfolding succeeded_iff by (metis prod_cases3)
  note t = accept_channel_sanity_checks [OF s accept_payload_fields, where config = "()"
      and node_pubkey = "replicate 33 3" and funding_signed = signed_payload]
  have 1: "\<exists>r. read_accept_channel (accept_payload [0, 0, 0, 0, 0, 0, 0, 10]) = Inr r"
    using t [of "[0, 0, 0, 0, 0, 0, 0, 10]", THEN conjunct1]
    by (simp add: accept_payload_values)
  have 2: "\<not> (\<exists>r. read_accept_channel (accept_payload [0, 0, 0, 0, 0, 0, 2, 88]) = Inr r)"
    using t [of "[0, 0, 0, 0, 0, 0, 2, 88]", THEN conjunct1]
    by (simp add: accept_payload_values)
  have "\<forall>build. channel_establishment_flow env2 (ext0\<lparr>mktx := build\<rparr>) () ''pw'' 100000 0
          (replicate 32 8) (replicate 33 3) (accept_payload [0, 0, 0, 0, 0, 0, 2, 88])
          signed_payload peer0 = Inl AssertionError"
    using t [of "[0, 0, 0, 0, 0, 0, 2, 88]", THEN conjunct2, THEN conjunct1]
    by (simp add: accept_payload_values)
  then have "channel_establishment_flow env2 (ext0\<lparr>mktx := mktx ext0\<rparr>) () ''pw'' 100000 0
          (replicate 32 8) (replicate 33 3) (accept_payload [0, 0, 0, 0, 0, 0, 2, 88])
          signed_payload peer0 = Inl AssertionError"
    by (rule spec)
  then have 3: "flow0 [0, 0, 0, 0, 0, 0, 2, 88] = Inl AssertionError"
    by (simp add: flow0_def)
  from 1 2 3 show ?thesis by (intro conjI)
qed

section \<open>The channel after the funding exchange\<close>








end
